(* ===== verification/Prelude.thy ===== *)
theory Prelude
  imports
    Main
    "HOL-Library.Word"
    "HOL-Library.Char_ord"
    "HOL-Library.List_Lexorder"
    "HOL-Library.Sublist"
begin

unbundle bit_operations_syntax

text \<open>
  Shared vocabulary of the development: the machine integer types of the Rust
  sources, the \<open>Result\<close> type as a sum (\<open>Inl\<close> the error) with the bind that the
  \<open>?\<close> operator is, the formatting of numbers and quoted names, and the lemmas on
  lists, NUL separated keys and zero padded decimals that several components use.
\<close>

section \<open>Machine integers and time\<close>

type_synonym u8 = "8 word"
type_synonym u16 = "16 word"
type_synonym u32 = "32 word"
type_synonym u64 = "64 word"

text \<open>A \<open>DateTime<Utc>\<close> is an instant: nanoseconds relative to the epoch.\<close>

type_synonym datetime = int

text \<open>\<open>word_simps\<close> carries the step from a word sum to its value.\<close>

named_theorems word_simps \<open>unsigned values of word operations\<close>

lemma unat_plus_one [word_simps]:
  assumes "unat (w :: 'a::len word) + 1 < 2 ^ LENGTH('a)"
  shows "unat (w + 1) = unat w + 1"
proof -
  have "unat (w + 1) = (unat w + 1) mod 2 ^ LENGTH('a)"
    by (simp add: unat_word_ariths(1))
  with assms show ?thesis by simp
qed

lemma unat_eq_of_nat: "unat (w :: 'a::len word) = n \<Longrightarrow> w = of_nat n"
  by auto

lemma u64_no_overflow: "(a :: u64) + 1 \<noteq> 0 \<Longrightarrow> unat a + 1 < 2 ^ 64"
proof (rule ccontr)
  assume "a + 1 \<noteq> 0" and "\<not> unat a + 1 < 2 ^ 64"
  moreover have "unat a < 2 ^ 64" using unsigned_less [of a] by simp
  ultimately have "unat a = 2 ^ 64 - 1" by simp
  then have "a = of_nat (2 ^ 64 - 1)" by (rule unat_eq_of_nat)
  with \<open>a + 1 \<noteq> 0\<close> show False by simp
qed

lemma le_iff_lt_plus_one: "(a :: u64) + 1 \<noteq> 0 \<Longrightarrow> a + 1 \<le> b \<longleftrightarrow> a < b"
  using u64_no_overflow [of a] by (auto simp: word_le_nat_alt word_less_nat_alt unat_plus_one)

text \<open>\<open>v.saturating_sub(1)\<close>.\<close>

definition saturating_sub1 :: "u64 \<Rightarrow> u64" where
  "saturating_sub1 v = (if v = 0 then 0 else v - 1)"

section \<open>Results\<close>

text \<open>\<open>rbind r f\<close> is \<open>let x = r?; f x\<close>.\<close>

definition rbind :: "'e + 'a \<Rightarrow> ('a \<Rightarrow> 'e + 'b) \<Rightarrow> 'e + 'b" where
  "rbind r f = (case r of Inl e \<Rightarrow> Inl e | Inr x \<Rightarrow> f x)"

lemma rbind_simps [simp]:
  "rbind (Inl e) f = Inl e"
  "rbind (Inr x) f = f x"
  by (simp_all add: rbind_def)

lemma rbind_Inr_iff [simp]: "rbind r f = Inr y \<longleftrightarrow> (\<exists>x. r = Inr x \<and> f x = Inr y)"
  by (cases r) auto

lemma rbind_Inl_iff: "rbind r f = Inl e \<longleftrightarrow> r = Inl e \<or> (\<exists>x. r = Inr x \<and> f x = Inl e)"
  by (cases r) auto

definition map_err :: "('e \<Rightarrow> 'f) \<Rightarrow> 'e + 'a \<Rightarrow> 'f + 'a" where
  "map_err g r = (case r of Inl e \<Rightarrow> Inl (g e) | Inr x \<Rightarrow> Inr x)"

lemma map_err_simps [simp]:
  "map_err g (Inl e) = Inl (g e)"
  "map_err g (Inr x) = Inr x"
  by (simp_all add: map_err_def)

lemma map_err_Inr_iff [simp]: "map_err g r = Inr x \<longleftrightarrow> r = Inr x"
  by (cases r) auto

lemma map_err_Inl_iff: "map_err g r = Inl f \<longleftrightarrow> (\<exists>e. r = Inl e \<and> f = g e)"
  by (cases r) auto

definition ok_or :: "'e \<Rightarrow> 'a option \<Rightarrow> 'e + 'a" where
  "ok_or e x = (case x of None \<Rightarrow> Inl e | Some y \<Rightarrow> Inr y)"

lemma ok_or_simps [simp]:
  "ok_or e None = Inl e"
  "ok_or e (Some x) = Inr x"
  by (simp_all add: ok_or_def)

lemma ok_or_Inr_iff [simp]: "ok_or e x = Inr y \<longleftrightarrow> x = Some y"
  by (cases x) auto

lemma ok_or_Inl_iff [simp]: "ok_or e x = Inl f \<longleftrightarrow> x = None \<and> f = e"
  by (cases x) auto

text \<open>A loop whose body may return early, collecting the results.\<close>

fun rmap :: "('a \<Rightarrow> 'e + 'b) \<Rightarrow> 'a list \<Rightarrow> 'e + 'b list" where
  "rmap f [] = Inr []"
| "rmap f (x # xs) = rbind (f x) (\<lambda>y. rbind (rmap f xs) (\<lambda>ys. Inr (y # ys)))"

lemma rmap_Inr_iff: "rmap f xs = Inr ys \<longleftrightarrow> list_all2 (\<lambda>x y. f x = Inr y) xs ys"
proof (induction xs arbitrary: ys)
  case Nil
  then show ?case by (cases ys) auto
next
  case (Cons x xs)
  then show ?case by (cases ys) auto
qed

lemma rmap_total: "(\<And>x. x \<in> set xs \<Longrightarrow> f x = Inr (g x)) \<Longrightarrow> rmap f xs = Inr (map g xs)"
  by (induction xs) auto

section \<open>Formatting\<close>

abbreviation NUL :: char where
  "NUL \<equiv> CHR 0x00"

definition nul_free :: "string \<Rightarrow> bool" where
  "nul_free s \<longleftrightarrow> NUL \<notin> set s"

text \<open>The \<open>'{}'\<close> of a format string.\<close>

definition quoted :: "string \<Rightarrow> string" where
  "quoted s = CHR 0x27 # s @ [CHR 0x27]"

text \<open>Decimal display of an unsigned integer, and its \<open>{:020}\<close> form.\<close>

definition digit :: "nat \<Rightarrow> char" where
  "digit d = char_of (48 + d)"

fun show_nat :: "nat \<Rightarrow> string" where
  "show_nat n = (if n < 10 then [digit n] else show_nat (n div 10) @ [digit (n mod 10)])"

declare show_nat.simps [simp del]

definition fmt_020 :: "u64 \<Rightarrow> string" where
  "fmt_020 n = replicate (20 - length (show_nat (unat n))) (CHR ''0'') @ show_nat (unat n)"

text \<open>Fixed width decimals, against which the padded form is proved.\<close>

primrec fixdec :: "nat \<Rightarrow> nat \<Rightarrow> string" where
  "fixdec 0 n = []"
| "fixdec (Suc k) n = fixdec k (n div 10) @ [digit (n mod 10)]"

lemma length_fixdec [simp]: "length (fixdec k n) = k"
  by (induction k arbitrary: n) auto

lemma digit_zero [simp]: "digit 0 = CHR ''0''"
  by code_simp

lemma digit_less_iff: "a < 10 \<Longrightarrow> b < 10 \<Longrightarrow> digit a < digit b \<longleftrightarrow> a < b"
  by (simp add: digit_def less_char_def of_char_of)

lemma digit_inject: "a < 10 \<Longrightarrow> b < 10 \<Longrightarrow> digit a = digit b \<longleftrightarrow> a = b"
  using digit_less_iff [of a b] digit_less_iff [of b a] by auto

lemma fixdec_zero [simp]: "fixdec k 0 = replicate k (CHR ''0'')"
  by (induction k) (auto simp: replicate_append_same)

lemma show_nat_fixdec:
  "n < 10 ^ k \<Longrightarrow> 0 < k \<Longrightarrow> replicate (k - length (show_nat n)) (CHR ''0'') @ show_nat n = fixdec k n"
proof (induction n arbitrary: k rule: show_nat.induct)
  case (1 n)
  then obtain j where k: "k = Suc j" by (cases k) auto
  show ?case
  proof (cases "n < 10")
    case True
    with k show ?thesis by (simp add: show_nat.simps)
  next
    case False
    from "1.prems"(1) False k have j: "0 < j" by (cases j) auto
    with "1.prems" k have "n div 10 < 10 ^ j"
      by (simp add: less_mult_imp_div_less mult.commute)
    with "1.IH" False j k show ?thesis by (simp add: show_nat.simps [of n])
  qed
qed

lemma u64_decimal_bound: "unat (n :: u64) < 10 ^ 20"
proof -
  have "unat n < 2 ^ 64" using unsigned_less [of n] by simp
  then show ?thesis by simp
qed

lemma fmt_020_fixdec: "fmt_020 n = fixdec 20 (unat n)"
  using u64_decimal_bound [of n] by (simp add: fmt_020_def show_nat_fixdec)

lemma list_less_snoc:
  "length xs = length ys \<Longrightarrow> xs @ [a] < ys @ [b] \<longleftrightarrow> xs < ys \<or> xs = ys \<and> (a :: 'a::linorder) < b"
  by (induction xs ys rule: list_induct2) (auto simp: list_less_def)

lemma digits_order:
  fixes m n :: nat
  shows "m div 10 < n div 10 \<or> m div 10 = n div 10 \<and> m mod 10 < n mod 10 \<longleftrightarrow> m < n"
proof -
  have "m = 10 * (m div 10) + m mod 10" "n = 10 * (n div 10) + n mod 10" by simp_all
  moreover have "m mod 10 < 10" "n mod 10 < 10" by simp_all
  ultimately show ?thesis by linarith
qed

lemma fixdec_less_iff:
  "m < 10 ^ k \<Longrightarrow> n < 10 ^ k \<Longrightarrow> fixdec k m < fixdec k n \<longleftrightarrow> m < n"
proof (induction k arbitrary: m n)
  case 0
  then show ?case by simp
next
  case (Suc k)
  have d: "m div 10 < 10 ^ k" "n div 10 < 10 ^ k"
    using Suc.prems by (simp_all add: less_mult_imp_div_less mult.commute)
  have eq: "fixdec k (m div 10) = fixdec k (n div 10) \<longleftrightarrow> m div 10 = n div 10"
    using Suc.IH [OF d] Suc.IH [OF d(2) d(1)] by (metis less_irrefl nat_neq_iff)
  show ?case
    by (simp add: list_less_snoc Suc.IH [OF d] eq digit_less_iff digits_order)
qed

lemma fmt_020_less_iff: "fmt_020 m < fmt_020 n \<longleftrightarrow> m < n"
  using u64_decimal_bound [of m] u64_decimal_bound [of n]
  by (simp add: fmt_020_fixdec fixdec_less_iff word_less_nat_alt)

lemma append_less_iff: "xs @ ys < xs @ zs \<longleftrightarrow> ys < (zs :: 'a::linorder list)"
  by (induction xs) (auto)

section \<open>Lists sorted by key\<close>

lemma sorted_keys_unique:
  fixes xs ys :: "('k::linorder \<times> 'v) list"
  assumes "sorted_wrt (<) (map fst xs)" and "sorted_wrt (<) (map fst ys)" and "set xs = set ys"
  shows "xs = ys"
proof (rule map_sorted_distinct_set_unique [of fst])
  show "inj_on fst (set xs \<union> set ys)"
    using assms by (simp add: strict_sorted_iff distinct_map)
qed (use assms in \<open>simp_all add: strict_sorted_iff\<close>)

lemma sorted_keys_filter:
  "sorted_wrt (<) (map fst xs) \<Longrightarrow> sorted_wrt (<) (map fst (filter P xs))"
  by (simp add: sorted_wrt_map sorted_wrt_filter)

text \<open>In a strictly sorted list, what exceeds the last element of a prefix is the rest.\<close>

lemma filter_after_last:
  fixes f :: "'a \<Rightarrow> 'k::linorder"
  assumes "sorted_wrt (\<lambda>x y. f x < f y) (xs @ ys)" and "xs \<noteq> []"
  shows "filter (\<lambda>r. f (last xs) < f r) (xs @ ys) = ys"
proof -
  obtain zs z where xs: "xs = zs @ [z]" using assms(2) by (cases xs rule: rev_exhaust) auto
  have "filter (\<lambda>r. f z < f r) zs = []"
    using assms(1) unfolding xs by (auto simp: sorted_wrt_append filter_empty_conv dest: less_imp_not_less)
  moreover have "filter (\<lambda>r. f z < f r) ys = ys"
    using assms(1) unfolding xs by (auto simp: sorted_wrt_append)
  ultimately show ?thesis by (simp add: xs)
qed

section \<open>Prefix scans\<close>

lemma prefix_le: "prefix p k \<Longrightarrow> p \<le> (k :: 'a::linorder list)"
proof -
  have "p \<le> p @ zs" for zs by (induction p) auto
  then show "prefix p k \<Longrightarrow> p \<le> k" by (auto simp: prefix_def)
qed

text \<open>Past the first key at or after \<open>p\<close> that does not start with \<open>p\<close>, no key does.\<close>

lemma prefix_block:
  fixes p k k' :: "'a::linorder list"
  assumes "p \<le> k" and "\<not> prefix p k" and "k < k'"
  shows "\<not> prefix p k'"
  using assms
proof (induction p arbitrary: k k')
  case Nil
  then show ?case by simp
next
  case (Cons a p)
  then obtain b l where k: "k = b # l" by (cases k) auto
  from Cons.prems k obtain c l' where k': "k' = c # l'" by (cases k') auto
  show ?case using Cons k k' by (auto simp: le_less)
qed

lemma takeWhile_prefix:
  fixes p :: "'a::linorder list"
  assumes "sorted_wrt (<) (map f xs)"
  shows "takeWhile (\<lambda>x. prefix p (f x)) (filter (\<lambda>x. p \<le> f x) xs) = filter (\<lambda>x. prefix p (f x)) xs"
  using assms
proof (induction xs)
  case Nil
  then show ?case by simp
next
  case (Cons x xs)
  have "p \<le> f x \<Longrightarrow> \<not> prefix p (f x) \<Longrightarrow> filter (\<lambda>x. prefix p (f x)) xs = []"
    using Cons.prems by (auto simp: filter_empty_conv dest: prefix_block)
  with Cons prefix_le [of p "f x"] show ?case by auto
qed

section \<open>NUL separated keys\<close>

lemma nul_sep_inject:
  "nul_free a \<Longrightarrow> nul_free a' \<Longrightarrow> a @ NUL # b = a' @ NUL # b' \<longleftrightarrow> a = a' \<and> b = b'"
proof (induction a arbitrary: a')
  case Nil
  then show ?case by (cases a') (auto simp: nul_free_def)
next
  case (Cons x a)
  then show ?case by (cases a') (auto simp: nul_free_def)
qed

lemma nul_sep_prefix:
  "nul_free a \<Longrightarrow> nul_free a' \<Longrightarrow>
   prefix (a @ NUL # b) (a' @ NUL # b') \<longleftrightarrow> a = a' \<and> prefix b b'"
  by (auto simp: prefix_def nul_sep_inject)

end
