(* ===== verification/Core_Types.thy ===== *)
theory Core_Types
  imports Prelude
begin

text \<open>
  The data of \<open>smdb-core\<close>: entity states, transition records, effects, change records
  and the error type, one record or datatype per struct or enum of
  \<open>crates/smdb-core/src\<close>. Field names carry a short prefix of their struct, since
  record fields share one name space.
\<close>

section \<open>JSON values\<close>

text \<open>
  \<open>serde_json::Value\<close>: its documented constructors. An object is its list of entries; a
  floating point number is its bit pattern.
\<close>

datatype number = PosInt u64 | NegInt u64 | Float u64

datatype json =
  JNull
| JBool bool
| JNumber number
| JString string
| JArray "json list"
| JObject "(string \<times> json) list"

text \<open>\<open>Value::default()\<close>.\<close>

definition json_default :: json where
  "json_default = JNull"

section \<open>Names\<close>

type_synonym entity_id = string
type_synonym machine_name = string
type_synonym state_name = string
type_synonym event_name = string
type_synonym guard_name = string
type_synonym effect_name = string
type_synonym actor_id = string
type_synonym transition_id = string
type_synonym idempotency_key = string
type_synonym sequence = u64
type_synonym version = u64
type_synonym ctx_value = json

section \<open>Entity states, transitions, effects and change records\<close>

record entity_state =
  es_entity_id :: entity_id
  es_machine :: machine_name
  es_current_state :: state_name
  es_version :: version
  es_updated_at :: datetime
  es_created_at :: datetime

datatype effect_status = Pending | Published | Failed

record effect =
  ef_id :: string
  ef_transition_id :: transition_id
  ef_effect_name :: effect_name
  ef_payload :: json
  ef_status :: effect_status
  ef_created_at :: datetime

text \<open>
  \<open>Effect::new\<close>; the fresh UUID and the clock reading it draws are arguments.
\<close>

definition effect_new :: "string \<Rightarrow> datetime \<Rightarrow> transition_id \<Rightarrow> effect_name \<Rightarrow> json \<Rightarrow> effect" where
  "effect_new uuid now transition_id effect_name payload =
    \<lparr>ef_id = uuid, ef_transition_id = transition_id, ef_effect_name = effect_name,
     ef_payload = payload, ef_status = Pending, ef_created_at = now\<rparr>"

record transition_record =
  tr_id :: transition_id
  tr_sequence :: sequence
  tr_entity_id :: entity_id
  tr_machine :: machine_name
  tr_from_state :: state_name
  tr_to_state :: state_name
  tr_event :: event_name
  tr_actor :: actor_id
  tr_ctx :: ctx_value
  tr_idempotency_key :: "idempotency_key option"
  tr_version :: version
  tr_timestamp :: datetime

record effect_payload =
  ep_effect_name :: effect_name
  ep_payload :: json

record change_record =
  cr_sequence :: sequence
  cr_transition_id :: transition_id
  cr_entity_id :: entity_id
  cr_machine :: machine_name
  cr_from_state :: state_name
  cr_to_state :: state_name
  cr_event :: event_name
  cr_actor :: actor_id
  cr_version :: version
  cr_timestamp :: datetime
  cr_ctx :: ctx_value
  cr_effects :: "effect_payload list"

section \<open>Errors\<close>

datatype core_error =
  IllegalTransition entity_id machine_name event_name state_name
| GuardFailed guard_name string
| VersionConflict entity_id machine_name version version
| UnknownMachine machine_name
| UnknownEntity entity_id machine_name
| InvalidDefinition string
| DuplicateState state_name
| DuplicateEvent event_name

text \<open>The \<open>Display\<close> texts.\<close>

fun core_error_display :: "core_error \<Rightarrow> string" where
  "core_error_display (IllegalTransition entity_id machine event current_state) =
     ''illegal transition: entity '' @ quoted entity_id @ '' in machine '' @ quoted machine @
     '' has no transition for event '' @ quoted event @ '' from state '' @ quoted current_state"
| "core_error_display (GuardFailed guard_name reason) =
     ''guard '' @ quoted guard_name @ '' failed: '' @ reason"
| "core_error_display (VersionConflict entity_id machine expected actual) =
     ''version conflict: entity '' @ quoted entity_id @ '' in machine '' @ quoted machine @
     '' expected version '' @ show_nat (unat expected) @ '' but found '' @ show_nat (unat actual)"
| "core_error_display (UnknownMachine name) = ''unknown machine: '' @ quoted name"
| "core_error_display (UnknownEntity entity_id machine) =
     ''unknown entity '' @ quoted entity_id @ '' in machine '' @ quoted machine"
| "core_error_display (InvalidDefinition reason) = ''invalid machine definition: '' @ reason"
| "core_error_display (DuplicateState name) = ''duplicate state: '' @ quoted name"
| "core_error_display (DuplicateEvent name) = ''duplicate event: '' @ quoted name"

end
