(* ===== verification/Machine.thy ===== *)
theory Machine
  imports Core_Types
begin

text \<open>
  Machine definitions, their validation and their builder
  (\<open>crates/smdb-core/src/machine.rs\<close>). \<open>validate\<close> is the chain of loops of the code,
  each loop a recursive function that returns early; \<open>well_formed\<close> is what it decides.
\<close>

section \<open>Definitions\<close>

record transition_rule =
  rl_event :: event_name
  rl_from_states :: "state_name list"
  rl_to_state :: state_name
  rl_guards :: "guard_name list"

record effect_rule =
  er_on_event :: event_name
  er_effect :: effect_name
  er_payload :: "json option"

record machine_definition =
  md_name :: machine_name
  md_version :: u32
  md_states :: "state_name list"
  md_initial_state :: state_name
  md_transitions :: "transition_rule list"
  md_effects :: "effect_rule list"
  md_created_at :: datetime

section \<open>Validation\<close>

text \<open>The duplicate-state loop; \<open>seen\<close> is the \<open>HashSet\<close> \<open>seen_states\<close>.\<close>

fun validate_states :: "state_name set \<Rightarrow> state_name list \<Rightarrow> core_error + state_name set" where
  "validate_states seen [] = Inr seen"
| "validate_states seen (state # rest) =
     (if state \<in> seen then Inl (DuplicateState state)
      else validate_states (insert state seen) rest)"

text \<open>The inner loop over the source states of one rule; \<open>pairs\<close> is \<open>pair_seen\<close>.\<close>

fun validate_from_states ::
  "state_name set \<Rightarrow> event_name \<Rightarrow> (event_name \<times> state_name) set \<Rightarrow> state_name list
    \<Rightarrow> core_error + (event_name \<times> state_name) set" where
  "validate_from_states seen event pairs [] = Inr pairs"
| "validate_from_states seen event pairs (from # rest) =
     (if from \<notin> seen then
        Inl (InvalidDefinition (''transition '' @ quoted event @
          '' references unknown from_state '' @ quoted from))
      else if (event, from) \<in> pairs then
        Inl (InvalidDefinition (''duplicate (event, from_state) pair: ('' @ quoted event @
          '', '' @ quoted from @ '')''))
      else validate_from_states seen event (insert (event, from) pairs) rest)"

fun validate_transitions ::
  "state_name set \<Rightarrow> (event_name \<times> state_name) set \<Rightarrow> transition_rule list \<Rightarrow> core_error + unit" where
  "validate_transitions seen pairs [] = Inr ()"
| "validate_transitions seen pairs (rule # rest) =
     rbind (validate_from_states seen (rl_event rule) pairs (rl_from_states rule)) (\<lambda>pairs'.
       if rl_to_state rule \<notin> seen then
         Inl (InvalidDefinition (''transition '' @ quoted (rl_event rule) @
           '' references unknown to_state '' @ quoted (rl_to_state rule)))
       else validate_transitions seen pairs' rest)"

definition validate :: "machine_definition \<Rightarrow> core_error + unit" where
  "validate d =
     rbind (validate_states {} (md_states d)) (\<lambda>seen_states.
       if md_initial_state d \<notin> seen_states then
         Inl (InvalidDefinition (''initial_state '' @ quoted (md_initial_state d) @
           '' is not in the states list''))
       else validate_transitions seen_states {} (md_transitions d))"

section \<open>The builder\<close>

record machine_builder =
  mb_name :: "machine_name option"
  mb_version :: u32
  mb_states :: "state_name list"
  mb_initial_state :: "state_name option"
  mb_transitions :: "transition_rule list"
  mb_effects :: "effect_rule list"

definition builder_new :: machine_builder where
  "builder_new = \<lparr>mb_name = None, mb_version = 0, mb_states = [], mb_initial_state = None,
     mb_transitions = [], mb_effects = []\<rparr>"

definition builder_name :: "machine_name \<Rightarrow> machine_builder \<Rightarrow> machine_builder" where
  "builder_name n b = b\<lparr>mb_name := Some n\<rparr>"

definition builder_version :: "u32 \<Rightarrow> machine_builder \<Rightarrow> machine_builder" where
  "builder_version v b = b\<lparr>mb_version := v\<rparr>"

definition builder_state :: "state_name \<Rightarrow> machine_builder \<Rightarrow> machine_builder" where
  "builder_state s b = b\<lparr>mb_states := mb_states b @ [s]\<rparr>"

definition builder_states :: "state_name list \<Rightarrow> machine_builder \<Rightarrow> machine_builder" where
  "builder_states ss b = b\<lparr>mb_states := mb_states b @ ss\<rparr>"

definition builder_initial_state :: "state_name \<Rightarrow> machine_builder \<Rightarrow> machine_builder" where
  "builder_initial_state s b = b\<lparr>mb_initial_state := Some s\<rparr>"

definition builder_transition ::
  "event_name \<Rightarrow> state_name list \<Rightarrow> state_name \<Rightarrow> machine_builder \<Rightarrow> machine_builder" where
  "builder_transition ev froms to b = b\<lparr>mb_transitions := mb_transitions b @
     [\<lparr>rl_event = ev, rl_from_states = froms, rl_to_state = to, rl_guards = []\<rparr>]\<rparr>"

definition builder_transition_with_guards ::
  "event_name \<Rightarrow> state_name list \<Rightarrow> state_name \<Rightarrow> guard_name list \<Rightarrow> machine_builder
    \<Rightarrow> machine_builder" where
  "builder_transition_with_guards ev froms to gs b = b\<lparr>mb_transitions := mb_transitions b @
     [\<lparr>rl_event = ev, rl_from_states = froms, rl_to_state = to, rl_guards = gs\<rparr>]\<rparr>"

definition builder_effect ::
  "event_name \<Rightarrow> effect_name \<Rightarrow> json option \<Rightarrow> machine_builder \<Rightarrow> machine_builder" where
  "builder_effect on_event eff payload b = b\<lparr>mb_effects := mb_effects b @
     [\<lparr>er_on_event = on_event, er_effect = eff, er_payload = payload\<rparr>]\<rparr>"

definition builder_build :: "datetime \<Rightarrow> machine_builder \<Rightarrow> core_error + machine_definition" where
  "builder_build now b =
     rbind (ok_or (InvalidDefinition ''machine name is required'') (mb_name b)) (\<lambda>name.
     rbind (ok_or (InvalidDefinition ''initial_state is required'') (mb_initial_state b)) (\<lambda>initial_state.
     let def = \<lparr>md_name = name, md_version = mb_version b, md_states = mb_states b,
                md_initial_state = initial_state, md_transitions = mb_transitions b,
                md_effects = mb_effects b, md_created_at = now\<rparr>
     in rbind (validate def) (\<lambda>_. Inr def)))"

section \<open>What validation decides\<close>

text \<open>The \<open>(event, from_state)\<close> pairs of a rule list, in the order the loops visit them.\<close>

definition rule_pairs :: "transition_rule list \<Rightarrow> (event_name \<times> state_name) list" where
  "rule_pairs rules = concat (map (\<lambda>r. map (Pair (rl_event r)) (rl_from_states r)) rules)"

definition well_formed :: "machine_definition \<Rightarrow> bool" where
  "well_formed d \<longleftrightarrow>
     distinct (md_states d) \<and>
     md_initial_state d \<in> set (md_states d) \<and>
     (\<forall>r \<in> set (md_transitions d).
        set (rl_from_states r) \<subseteq> set (md_states d) \<and> rl_to_state r \<in> set (md_states d)) \<and>
     distinct (rule_pairs (md_transitions d))"

lemma rule_pairs_simps [simp]:
  "rule_pairs [] = []"
  "rule_pairs (r # rs) = map (Pair (rl_event r)) (rl_from_states r) @ rule_pairs rs"
  by (simp_all add: rule_pairs_def)

lemma set_rule_pairs:
  "(ev, s) \<in> set (rule_pairs rs) \<longleftrightarrow> (\<exists>r \<in> set rs. rl_event r = ev \<and> s \<in> set (rl_from_states r))"
  by (auto simp: rule_pairs_def)

lemma validate_states_Inr_iff:
  "validate_states seen ss = Inr seen' \<longleftrightarrow>
     distinct ss \<and> set ss \<inter> seen = {} \<and> seen' = seen \<union> set ss"
  by (induction ss arbitrary: seen) auto

lemma validate_from_states_Inr_iff:
  "validate_from_states seen ev pairs ss = Inr pairs' \<longleftrightarrow>
     set ss \<subseteq> seen \<and> distinct ss \<and> Pair ev ` set ss \<inter> pairs = {} \<and>
     pairs' = pairs \<union> Pair ev ` set ss"
  by (induction ss arbitrary: pairs) auto

lemma validate_transitions_Inr_iff:
  "validate_transitions seen pairs rs = Inr () \<longleftrightarrow>
     (\<forall>r \<in> set rs. set (rl_from_states r) \<subseteq> seen \<and> rl_to_state r \<in> seen) \<and>
     distinct (rule_pairs rs) \<and> set (rule_pairs rs) \<inter> pairs = {}"
proof (induction rs arbitrary: pairs)
  case Nil
  then show ?case by simp
next
  case (Cons r rs)
  have "distinct (map (Pair (rl_event r)) (rl_from_states r)) \<longleftrightarrow> distinct (rl_from_states r)"
    by (simp add: distinct_map inj_on_def)
  with Cons show ?case
    by (auto simp: validate_from_states_Inr_iff)
qed

lemma validate_iff_well_formed: "validate d = Inr () \<longleftrightarrow> well_formed d"
  by (auto simp: validate_def well_formed_def validate_states_Inr_iff validate_transitions_Inr_iff)


lemma validate_states_Inl_iff:
  "validate_states seen ss = Inl e \<longleftrightarrow>
     (\<exists>s xs ys. e = DuplicateState s \<and> ss = xs @ s # ys \<and> distinct xs \<and>
        set xs \<inter> seen = {} \<and> s \<in> seen \<union> set xs)" (is "_ \<longleftrightarrow> ?dup seen ss")
proof (induction ss arbitrary: seen)
  case Nil
  then show ?case by simp
next
  case (Cons a ss)
  have later: "?dup (insert a seen) ss \<longleftrightarrow> ?dup seen (a # ss)" if "a \<notin> seen"
  proof
    assume "?dup (insert a seen) ss"
    then obtain s xs ys where "e = DuplicateState s" "ss = xs @ s # ys" "distinct xs"
      "set xs \<inter> insert a seen = {}" "s \<in> insert a seen \<union> set xs" by blast
    with that show "?dup seen (a # ss)"
      by (intro exI [of _ s] exI [of _ "a # xs"] exI [of _ ys]) auto
  next
    assume "?dup seen (a # ss)"
    then obtain s xs ys where dup: "e = DuplicateState s" "a # ss = xs @ s # ys" "distinct xs"
      "set xs \<inter> seen = {}" "s \<in> seen \<union> set xs" by blast
    with that obtain xs' where "xs = a # xs'" by (cases xs) auto
    with dup show "?dup (insert a seen) ss"
      by (intro exI [of _ s] exI [of _ xs'] exI [of _ ys]) auto
  qed
  have now: "?dup seen (a # ss) \<longleftrightarrow> e = DuplicateState a" if "a \<in> seen"
  proof
    show "e = DuplicateState a" if "?dup seen (a # ss)"
      using that \<open>a \<in> seen\<close> by (auto simp: Cons_eq_append_conv)
    show "?dup seen (a # ss)" if "e = DuplicateState a"
      using that \<open>a \<in> seen\<close> by (intro exI [of _ a] exI [of _ "[]"] exI [of _ ss]) simp
  qed
  show ?case
    using later now Cons.IH [of "insert a seen"] by (cases "a \<in> seen") auto
qed

lemma validate_from_states_not_duplicate:
  "validate_from_states seen ev pairs ss \<noteq> Inl (DuplicateState s)"
  by (induction ss arbitrary: pairs) auto

lemma validate_transitions_not_duplicate:
  "validate_transitions seen pairs rs \<noteq> Inl (DuplicateState s)"
  by (induction rs arbitrary: pairs)
    (auto simp: rbind_def validate_from_states_not_duplicate split: sum.splits)

lemma validate_duplicate_iff:
  "validate d = Inl (DuplicateState s) \<longleftrightarrow>
     validate_states {} (md_states d) = Inl (DuplicateState s)"
  by (auto simp: validate_def rbind_def validate_transitions_not_duplicate split: sum.splits)

text \<open>
  C30. Validation decides well-formedness: a definition is accepted exactly when its states
  are distinct, the initial state and every state a rule names is one of them, and no
  \<open>(event, from_state)\<close> pair occurs twice. \<open>DuplicateState s\<close> is reported exactly when \<open>s\<close> is
  the first state that repeats an earlier one. The builder returns a definition exactly when
  its name and initial state were given and the definition assembled from its fields, in
  the order they were added, is well-formed.
\<close>

theorem validate_decides:
  "(validate d = Inr () \<longleftrightarrow> well_formed d) \<and>
   (validate d = Inl (DuplicateState s) \<longleftrightarrow>
     (\<exists>xs ys. md_states d = xs @ s # ys \<and> distinct xs \<and> s \<in> set xs)) \<and>
   (builder_build now b = Inr d \<longleftrightarrow>
     mb_name b = Some (md_name d) \<and> mb_initial_state b = Some (md_initial_state d) \<and>
     md_version d = mb_version b \<and> md_states d = mb_states b \<and>
     md_transitions d = mb_transitions b \<and> md_effects d = mb_effects b \<and>
     md_created_at d = now \<and> well_formed d)"
proof (intro conjI)
  show "validate d = Inr () \<longleftrightarrow> well_formed d"
    by (rule validate_iff_well_formed)
  show "validate d = Inl (DuplicateState s) \<longleftrightarrow>
     (\<exists>xs ys. md_states d = xs @ s # ys \<and> distinct xs \<and> s \<in> set xs)"
    by (simp add: validate_duplicate_iff validate_states_Inl_iff)
  show "builder_build now b = Inr d \<longleftrightarrow>
     mb_name b = Some (md_name d) \<and> mb_initial_state b = Some (md_initial_state d) \<and>
     md_version d = mb_version b \<and> md_states d = mb_states b \<and>
     md_transitions d = mb_transitions b \<and> md_effects d = mb_effects b \<and>
     md_created_at d = now \<and> well_formed d"
    by (cases d) (auto simp: builder_build_def rbind_def ok_or_def Let_def
        validate_iff_well_formed [symmetric] split: sum.splits option.splits)
qed

end
