(* ===== verification/Planner.thy ===== *)
theory Planner
  imports Machine
begin

text \<open>
  The stateless planner \<open>FsmPlanner\<close> (\<open>crates/smdb-core/src/engine.rs\<close>): rule lookup,
  guard check, effect selection and the construction of the transition record.
\<close>

section \<open>Operations\<close>

definition plan_transition ::
  "machine_definition \<Rightarrow> state_name \<Rightarrow> event_name \<Rightarrow> entity_id \<Rightarrow> core_error + transition_rule" where
  "plan_transition definition current_state event entity_id =
     ok_or (IllegalTransition entity_id (md_name definition) event current_state)
       (find (\<lambda>rule. rl_event rule = event \<and> list_ex (\<lambda>s. s = current_state) (rl_from_states rule))
          (md_transitions definition))"

fun check_guards :: "(guard_name \<rightharpoonup> bool) \<Rightarrow> guard_name list \<Rightarrow> core_error + unit" where
  "check_guards guard_results [] = Inr ()"
| "check_guards guard_results (guard # rest) =
     (let passed = (case guard_results guard of Some b \<Rightarrow> b | None \<Rightarrow> False)
      in if \<not> passed then Inl (GuardFailed guard ''guard evaluated to false'')
         else check_guards guard_results rest)"

definition validate_guards :: "transition_rule \<Rightarrow> (guard_name \<rightharpoonup> bool) \<Rightarrow> core_error + unit" where
  "validate_guards rule guard_results = check_guards guard_results (rl_guards rule)"

definition compute_effects :: "machine_definition \<Rightarrow> event_name \<Rightarrow> effect_rule list" where
  "compute_effects definition event = filter (\<lambda>e. er_on_event e = event) (md_effects definition)"

definition build_transition_record ::
  "string \<Rightarrow> datetime \<Rightarrow> entity_id \<Rightarrow> machine_name \<Rightarrow> state_name \<Rightarrow> state_name \<Rightarrow> event_name
    \<Rightarrow> actor_id \<Rightarrow> ctx_value \<Rightarrow> idempotency_key option \<Rightarrow> transition_record" where
  "build_transition_record uuid now entity_id machine from_state to_state event actor ctx key =
     \<lparr>tr_id = uuid, tr_sequence = 0, tr_entity_id = entity_id, tr_machine = machine,
      tr_from_state = from_state, tr_to_state = to_state, tr_event = event, tr_actor = actor,
      tr_ctx = ctx, tr_idempotency_key = key, tr_version = 0, tr_timestamp = now\<rparr>"

section \<open>Rule lookup\<close>

text \<open>A rule that fires on an event in a state.\<close>

definition rule_fires :: "transition_rule \<Rightarrow> state_name \<Rightarrow> event_name \<Rightarrow> bool" where
  "rule_fires r s ev \<longleftrightarrow> rl_event r = ev \<and> s \<in> set (rl_from_states r)"

lemma plan_transition_fires:
  "plan_transition d s ev e =
     ok_or (IllegalTransition e (md_name d) ev s) (find (\<lambda>r. rule_fires r s ev) (md_transitions d))"
proof -
  have "(\<lambda>r. rl_event r = ev \<and> list_ex (\<lambda>x. x = s) (rl_from_states r)) = (\<lambda>r. rule_fires r s ev)"
    by (auto simp: rule_fires_def list_ex_iff fun_eq_iff)
  then show ?thesis by (simp add: plan_transition_def)
qed

lemma plan_transition_sound:
  assumes "plan_transition d s ev e = Inr r"
  shows "r \<in> set (md_transitions d)" and "rule_fires r s ev"
  using assms by (auto simp: plan_transition_fires find_Some_iff)

lemma plan_transition_Inl_iff:
  "plan_transition d s ev e = Inl err \<longleftrightarrow>
     err = IllegalTransition e (md_name d) ev s \<and> (\<forall>r \<in> set (md_transitions d). \<not> rule_fires r s ev)"
  by (auto simp: plan_transition_fires find_None_iff)

text \<open>In a rule list without duplicate pairs at most one rule fires.\<close>

lemma rule_fires_pair: "r \<in> set rs \<Longrightarrow> rule_fires r s ev \<Longrightarrow> (ev, s) \<in> set (rule_pairs rs)"
  by (auto simp: set_rule_pairs rule_fires_def)

lemma rule_fires_unique:
  assumes "distinct (rule_pairs rs)" and "r \<in> set rs" and "r' \<in> set rs"
    and "rule_fires r s ev" and "rule_fires r' s ev"
  shows "r = r'"
  using assms
proof (induction rs)
  case Nil
  then show ?case by simp
next
  case (Cons q rs)
  have q: "rule_fires q s ev \<Longrightarrow> (ev, s) \<notin> set (rule_pairs rs)"
    using Cons.prems(1) by (auto simp: rule_fires_def)
  with Cons show ?case by (auto dest: rule_fires_pair)
qed

lemma plan_transition_Inr_iff:
  assumes "well_formed d"
  shows "plan_transition d s ev e = Inr r \<longleftrightarrow> r \<in> set (md_transitions d) \<and> rule_fires r s ev"
proof
  assume "plan_transition d s ev e = Inr r"
  then show "r \<in> set (md_transitions d) \<and> rule_fires r s ev"
    by (auto dest: plan_transition_sound)
next
  assume r: "r \<in> set (md_transitions d) \<and> rule_fires r s ev"
  then obtain r' where p: "plan_transition d s ev e = Inr r'"
    by (cases "plan_transition d s ev e") (auto simp: plan_transition_Inl_iff)
  have "distinct (rule_pairs (md_transitions d))"
    using assms by (simp add: well_formed_def)
  with r plan_transition_sound [OF p] have "r' = r"
    by (blast intro: rule_fires_unique)
  with p show "plan_transition d s ev e = Inr r" by simp
qed

lemma plan_transition_states:
  assumes "well_formed d" and "plan_transition d s ev e = Inr r"
  shows "s \<in> set (md_states d)" and "rl_to_state r \<in> set (md_states d)"
  using assms plan_transition_sound [OF assms(2)]
  by (auto simp: well_formed_def rule_fires_def)

section \<open>Guards\<close>

lemma check_guards_find:
  "check_guards m gs =
     (case find (\<lambda>g. m g \<noteq> Some True) gs of
        None \<Rightarrow> Inr ()
      | Some g \<Rightarrow> Inl (GuardFailed g ''guard evaluated to false''))"
  by (induction gs) (auto split: option.splits)

lemma check_guards_Inr_iff: "check_guards m gs = Inr () \<longleftrightarrow> (\<forall>g \<in> set gs. m g = Some True)"
  by (induction gs) (auto split: option.splits)

lemma compute_effects_iff: "r \<in> set (compute_effects d ev) \<longleftrightarrow> r \<in> set (md_effects d) \<and> er_on_event r = ev"
  by (auto simp: compute_effects_def)

lemma plan_transition_cong_set:
  assumes "well_formed d" and "set ts = set (md_transitions d)" and "distinct (rule_pairs ts)"
  shows "plan_transition (d\<lparr>md_transitions := ts\<rparr>) s ev e = plan_transition d s ev e"
proof (cases "plan_transition d s ev e")
  case (Inl err)
  then have "plan_transition (d\<lparr>md_transitions := ts\<rparr>) s ev e = Inl err"
    using assms by (simp add: plan_transition_Inl_iff)
  with Inl show ?thesis by simp
next
  case (Inr r)
  moreover have "well_formed (d\<lparr>md_transitions := ts\<rparr>)"
    using assms by (simp add: well_formed_def)
  ultimately have "plan_transition (d\<lparr>md_transitions := ts\<rparr>) s ev e = Inr r"
    using assms by (simp add: plan_transition_Inr_iff)
  with Inr show ?thesis by simp
qed

section \<open>Properties\<close>

text \<open>
  C31. For a definition that passes \<open>validate\<close>, \<open>plan_transition\<close> returns a rule exactly
  when that rule is in the table, names the event and lists the current state, so the
  planned rule is unique and does not depend on the order of the table; it returns
  \<open>IllegalTransition\<close> exactly when no rule matches, and the target state is declared.
\<close>

theorem plan_transition_deterministic:
  assumes "validate d = Inr ()"
  shows "(\<forall>r. plan_transition d s ev e = Inr r \<longleftrightarrow>
            r \<in> set (md_transitions d) \<and> rl_event r = ev \<and> s \<in> set (rl_from_states r)) \<and>
         (\<forall>ts. set ts = set (md_transitions d) \<longrightarrow> distinct (rule_pairs ts) \<longrightarrow>
            plan_transition (d\<lparr>md_transitions := ts\<rparr>) s ev e = plan_transition d s ev e) \<and>
         (plan_transition d s ev e = Inl (IllegalTransition e (md_name d) ev s) \<longleftrightarrow>
            \<not> (\<exists>r \<in> set (md_transitions d). rl_event r = ev \<and> s \<in> set (rl_from_states r))) \<and>
         (\<forall>r. plan_transition d s ev e = Inr r \<longrightarrow> rl_to_state r \<in> set (md_states d))"
proof -
  have wf: "well_formed d" using assms by (simp add: validate_iff_well_formed)
  then show ?thesis
    by (auto simp: plan_transition_Inr_iff plan_transition_Inl_iff plan_transition_cong_set
        rule_fires_def well_formed_def)
qed

definition turnstile :: machine_definition where
  "turnstile = \<lparr>md_name = ''turnstile'', md_version = 1, md_states = [''locked'', ''open''],
     md_initial_state = ''locked'',
     md_transitions =
       [\<lparr>rl_event = ''coin'', rl_from_states = [''locked''], rl_to_state = ''open'', rl_guards = [''paid'']\<rparr>,
        \<lparr>rl_event = ''push'', rl_from_states = [''open''], rl_to_state = ''locked'', rl_guards = []\<rparr>],
     md_effects = [\<lparr>er_on_event = ''coin'', er_effect = ''beep'', er_payload = None\<rparr>],
     md_created_at = 0\<rparr>"

lemma turnstile_valid: "validate turnstile = Inr ()"
  by (simp add: turnstile_def validate_def)

theorem plan_transition_deterministic_witness:
  "validate turnstile = Inr () \<and>
   plan_transition turnstile ''open'' ''push'' ''gate'' =
     Inr \<lparr>rl_event = ''push'', rl_from_states = [''open''], rl_to_state = ''locked'', rl_guards = []\<rparr>"
  using plan_transition_deterministic [OF turnstile_valid, of "''open''" "''push''" "''gate''"]
  by (simp add: turnstile_valid) (simp add: turnstile_def)

end
