(* ===== verification/Storage_Interface.thy ===== *)
theory Storage_Interface
  imports Planner
begin

text \<open>
  The trait \<open>StorageEngine\<close> (\<open>crates/smdb-storage/src/engine.rs\<close>): its errors, the table of
  its methods, and what they promise. A value of type \<open>'s storage_engine\<close> is the method
  table of an implementation with state \<open>'s\<close> (the \<open>dyn StorageEngine\<close> the engine holds).
  The promises are two locales: \<open>atomic_storage\<close>, that a failed write changes nothing, and
  \<open>storage_contract\<close>, that every method acts on an abstract store (the machine
  definitions, the log as a list, the projection, the outbox) as documented.
\<close>

section \<open>Errors\<close>

datatype storage_error =
  NotFound string
| AlreadyExists string
| StoredVersionConflict entity_id version version
| TransactionFailed string
| Corrupted string
| Io string
| Internal string

fun storage_error_display :: "storage_error \<Rightarrow> string" where
  "storage_error_display (NotFound s) = ''not found: '' @ s"
| "storage_error_display (AlreadyExists s) = ''already exists: '' @ s"
| "storage_error_display (StoredVersionConflict entity_id expected actual) =
     ''version conflict: entity '' @ quoted entity_id @ '' expected version '' @
     show_nat (unat expected) @ '' but found '' @ show_nat (unat actual)"
| "storage_error_display (TransactionFailed s) = ''transaction failed: '' @ s"
| "storage_error_display (Corrupted s) = ''corrupted data: '' @ s"
| "storage_error_display (Io s) = ''io error: '' @ s"
| "storage_error_display (Internal s) = ''internal error: '' @ s"

section \<open>The method table\<close>

text \<open>
  A reading method maps the state to its result; a writing method also returns the state
  it leaves. \<open>append_transition\<close> and \<open>execute_transition\<close> write the assigned sequence into
  the record they are passed, so they return the record too.
\<close>

record 's storage_engine =
  op_store_machine :: "'s \<Rightarrow> machine_definition \<Rightarrow> (storage_error + unit) \<times> 's"
  op_get_machine :: "'s \<Rightarrow> machine_name \<Rightarrow> u32 option \<Rightarrow> storage_error + machine_definition"
  op_list_machines :: "'s \<Rightarrow> storage_error + machine_definition list"
  op_get_entity_state :: "'s \<Rightarrow> entity_id \<Rightarrow> machine_name \<Rightarrow> storage_error + entity_state"
  op_upsert_entity_state :: "'s \<Rightarrow> entity_state \<Rightarrow> (storage_error + unit) \<times> 's"
  op_list_entities_in_state :: "'s \<Rightarrow> machine_name \<Rightarrow> state_name \<Rightarrow> storage_error + entity_state list"
  op_append_transition ::
    "'s \<Rightarrow> transition_record \<Rightarrow> (storage_error + sequence \<times> transition_record) \<times> 's"
  op_get_transition :: "'s \<Rightarrow> transition_id \<Rightarrow> storage_error + transition_record"
  op_get_history ::
    "'s \<Rightarrow> entity_id \<Rightarrow> machine_name \<Rightarrow> u32 option \<Rightarrow> sequence option
      \<Rightarrow> storage_error + transition_record list"
  op_get_transitions_after :: "'s \<Rightarrow> sequence \<Rightarrow> u32 \<Rightarrow> storage_error + transition_record list"
  op_insert_effects :: "'s \<Rightarrow> effect list \<Rightarrow> (storage_error + unit) \<times> 's"
  op_get_pending_effects :: "'s \<Rightarrow> u32 \<Rightarrow> storage_error + effect list"
  op_get_effects_for_transition :: "'s \<Rightarrow> transition_id \<Rightarrow> storage_error + effect list"
  op_mark_effect_published :: "'s \<Rightarrow> string \<Rightarrow> (storage_error + unit) \<times> 's"
  op_mark_effect_failed :: "'s \<Rightarrow> string \<Rightarrow> (storage_error + unit) \<times> 's"
  op_check_idempotency :: "'s \<Rightarrow> idempotency_key \<Rightarrow> storage_error + transition_record option"
  op_execute_transition ::
    "'s \<Rightarrow> transition_record \<Rightarrow> entity_state \<Rightarrow> effect list
      \<Rightarrow> (storage_error + sequence \<times> transition_record) \<times> 's"
  op_current_sequence :: "'s \<Rightarrow> storage_error + sequence"

section \<open>The abstract store\<close>

text \<open>The log lists the committed transitions, oldest first.\<close>

record store =
  st_machines :: "machine_name \<rightharpoonup> machine_definition"
  st_log :: "transition_record list"
  st_states :: "entity_id \<times> machine_name \<rightharpoonup> entity_state"
  st_effects :: "string \<rightharpoonup> effect"

definition empty_store :: store where
  "empty_store = \<lparr>st_machines = Map.empty, st_log = [], st_states = Map.empty, st_effects = Map.empty\<rparr>"

definition next_seq :: "store \<Rightarrow> sequence" where
  "next_seq st = of_nat (Suc (length (st_log st)))"

definition history_of :: "store \<Rightarrow> entity_id \<Rightarrow> machine_name \<Rightarrow> transition_record list" where
  "history_of st e m = filter (\<lambda>r. tr_entity_id r = e \<and> tr_machine r = m) (st_log st)"

definition log_after :: "store \<Rightarrow> sequence \<Rightarrow> transition_record list" where
  "log_after st a = filter (\<lambda>r. a < tr_sequence r) (st_log st)"

definition keyed_record :: "store \<Rightarrow> idempotency_key \<Rightarrow> transition_record option" where
  "keyed_record st k = find (\<lambda>r. tr_idempotency_key r = Some k) (st_log st)"

text \<open>The version in the projection that a new state does not follow.\<close>

definition stale_version :: "store \<Rightarrow> entity_state \<Rightarrow> version option" where
  "stale_version st ns =
     (case st_states st (es_entity_id ns, es_machine ns) of
        None \<Rightarrow> None
      | Some s \<Rightarrow> if es_version s = saturating_sub1 (es_version ns) then None else Some (es_version s))"

definition add_effects :: "effect list \<Rightarrow> (string \<rightharpoonup> effect) \<Rightarrow> (string \<rightharpoonup> effect)" where
  "add_effects efs m = fold (\<lambda>e m. m(ef_id e \<mapsto> e)) efs m"

text \<open>The store after a transition is committed.\<close>

definition commit_store :: "store \<Rightarrow> transition_record \<Rightarrow> entity_state \<Rightarrow> effect list \<Rightarrow> store" where
  "commit_store st r ns efs = st\<lparr>
     st_log := st_log st @ [r\<lparr>tr_sequence := next_seq st\<rparr>],
     st_states := (st_states st)((es_entity_id ns, es_machine ns) \<mapsto> ns),
     st_effects := add_effects efs (st_effects st)\<rparr>"

text \<open>What \<open>execute_transition\<close> does: refuse a stale version, refuse a used key, or commit.\<close>

definition commit ::
  "store \<Rightarrow> transition_record \<Rightarrow> entity_state \<Rightarrow> effect list
    \<Rightarrow> storage_error + (sequence \<times> transition_record) \<times> store" where
  "commit st r ns efs =
     (case stale_version st ns of
        Some v \<Rightarrow> Inl (StoredVersionConflict (es_entity_id ns) (saturating_sub1 (es_version ns)) v)
      | None \<Rightarrow>
          (case tr_idempotency_key r of
             Some k \<Rightarrow> if keyed_record st k \<noteq> None
                       then Inl (AlreadyExists (''idempotency key '' @ quoted k))
                       else Inr ((next_seq st, r\<lparr>tr_sequence := next_seq st\<rparr>), commit_store st r ns efs)
           | None \<Rightarrow> Inr ((next_seq st, r\<lparr>tr_sequence := next_seq st\<rparr>), commit_store st r ns efs)))"

text \<open>
  What the caller of \<open>execute_transition\<close> owes: names without NUL (they are joined by NUL
  into keys), identifiers not used before (they are random UUIDs), and a sequence counter
  that has not reached its last value.
\<close>

definition admissible :: "store \<Rightarrow> transition_record \<Rightarrow> entity_state \<Rightarrow> effect list \<Rightarrow> bool" where
  "admissible st r ns efs \<longleftrightarrow>
     Suc (length (st_log st)) < 2 ^ 64 \<and>
     nul_free (tr_entity_id r) \<and> nul_free (tr_machine r) \<and> nul_free (es_entity_id ns) \<and>
     tr_id r \<notin> tr_id ` set (st_log st) \<and>
     list_all (\<lambda>e. nul_free (ef_transition_id e) \<and> st_effects st (ef_id e) = None) efs \<and>
     distinct (map ef_id efs)"

definition effects_listing :: "store \<Rightarrow> (effect \<Rightarrow> bool) \<Rightarrow> effect list \<Rightarrow> bool" where
  "effects_listing st P es \<longleftrightarrow>
     set es = {e \<in> ran (st_effects st). P e} \<and> sorted_wrt (<) (map ef_id es)"

section \<open>The contracts\<close>

locale atomic_storage =
  fixes ops :: "'s storage_engine"
  assumes store_machine_atomic: "op_store_machine ops s d = (Inl err, s') \<Longrightarrow> s' = s"
    and execute_transition_atomic: "op_execute_transition ops s r ns efs = (Inl err, s') \<Longrightarrow> s' = s"
    and mark_effect_published_atomic: "op_mark_effect_published ops s i = (Inl err, s') \<Longrightarrow> s' = s"
    and mark_effect_failed_atomic: "op_mark_effect_failed ops s i = (Inl err, s') \<Longrightarrow> s' = s"

text \<open>
  \<open>rep s st\<close>: the state \<open>s\<close> of the implementation represents the abstract store \<open>st\<close>.
  \<open>safe_storage\<close> is what holds even when the implementation may fail: a method that
  returns \<open>Ok\<close> has done what it promises, and \<open>NotFound\<close> is only returned for what is absent.
\<close>

definition history_page ::
  "store \<Rightarrow> entity_id \<Rightarrow> machine_name \<Rightarrow> u32 option \<Rightarrow> sequence option \<Rightarrow> transition_record list" where
  "history_page st e m limit after =
     take (unat (case limit of Some l \<Rightarrow> l | None \<Rightarrow> - 1))
       (filter (\<lambda>r. (case after of Some a \<Rightarrow> a | None \<Rightarrow> 0) < tr_sequence r) (history_of st e m))"

definition set_status :: "store \<Rightarrow> string \<Rightarrow> effect_status \<Rightarrow> store" where
  "set_status st i v = st\<lparr>st_effects := (st_effects st)(i := map_option (ef_status_update (\<lambda>_. v)) (st_effects st i))\<rparr>"

locale safe_storage = atomic_storage ops
  for ops :: "'s storage_engine" +
  fixes rep :: "'s \<Rightarrow> store \<Rightarrow> bool"
  assumes rep_sequences: "rep s st \<Longrightarrow> map (\<lambda>r. unat (tr_sequence r)) (st_log st) = [1..<Suc (length (st_log st))]"
    and store_machine_ok: "rep s st \<Longrightarrow> op_store_machine ops s d = (Inr u, s') \<Longrightarrow>
      rep s' (st\<lparr>st_machines := (st_machines st)(md_name d \<mapsto> d)\<rparr>)"
    and get_machine_ok: "rep s st \<Longrightarrow> op_get_machine ops s n v = Inr d \<Longrightarrow> st_machines st n = Some d"
    and get_entity_state_ok: "rep s st \<Longrightarrow> nul_free e \<Longrightarrow> op_get_entity_state ops s e m = Inr ns \<Longrightarrow>
      st_states st (e, m) = Some ns"
    and get_entity_state_missing: "rep s st \<Longrightarrow> nul_free e \<Longrightarrow>
      op_get_entity_state ops s e m = Inl (NotFound msg) \<Longrightarrow> st_states st (e, m) = None"
    and get_history_ok: "rep s st \<Longrightarrow> nul_free e \<Longrightarrow> nul_free m \<Longrightarrow>
      op_get_history ops s e m limit after = Inr rs \<Longrightarrow> rs = history_page st e m limit after"
    and get_transitions_after_ok: "rep s st \<Longrightarrow> a + 1 \<noteq> 0 \<Longrightarrow>
      op_get_transitions_after ops s a l = Inr rs \<Longrightarrow> rs = take (unat l) (log_after st a)"
    and check_idempotency_ok: "rep s st \<Longrightarrow> op_check_idempotency ops s k = Inr found \<Longrightarrow> found = keyed_record st k"
    and get_effects_ok: "rep s st \<Longrightarrow> nul_free t \<Longrightarrow>
      op_get_effects_for_transition ops s t = Inr es \<Longrightarrow> effects_listing st (\<lambda>e. ef_transition_id e = t) es"
    and get_pending_ok: "rep s st \<Longrightarrow> op_get_pending_effects ops s l = Inr es \<Longrightarrow>
      \<exists>all. es = take (unat l) all \<and> effects_listing st (\<lambda>e. ef_status e = Pending) all"
    and mark_effect_published_ok: "rep s st \<Longrightarrow> op_mark_effect_published ops s i = (Inr u, s') \<Longrightarrow>
      rep s' (set_status st i Published)"
    and mark_effect_failed_ok: "rep s st \<Longrightarrow> op_mark_effect_failed ops s i = (Inr u, s') \<Longrightarrow>
      rep s' (set_status st i Failed)"
    and execute_transition_ok: "rep s st \<Longrightarrow> admissible st r ns efs \<Longrightarrow>
      op_execute_transition ops s r ns efs = (Inr x, s') \<Longrightarrow>
      \<exists>st'. commit st r ns efs = Inr (x, st') \<and> rep s' st'"

text \<open>\<open>storage_contract\<close> is the implementation whose calls do not fail: every result is determined.\<close>

locale storage_contract = safe_storage ops rep
  for ops :: "'s storage_engine" and rep :: "'s \<Rightarrow> store \<Rightarrow> bool" +
  assumes store_machine_total: "rep s st \<Longrightarrow> \<exists>s'. op_store_machine ops s d = (Inr (), s')"
    and get_machine_total: "rep s st \<Longrightarrow>
      op_get_machine ops s n v = ok_or (NotFound (''machine '' @ quoted n)) (st_machines st n)"
    and get_entity_state_total: "rep s st \<Longrightarrow> nul_free e \<Longrightarrow>
      op_get_entity_state ops s e m =
        ok_or (NotFound (''entity '' @ quoted e @ '' in machine '' @ quoted m)) (st_states st (e, m))"
    and get_history_total: "rep s st \<Longrightarrow> nul_free e \<Longrightarrow> nul_free m \<Longrightarrow>
      \<exists>rs. op_get_history ops s e m limit after = Inr rs"
    and get_transitions_after_total: "rep s st \<Longrightarrow> a + 1 \<noteq> 0 \<Longrightarrow>
      \<exists>rs. op_get_transitions_after ops s a l = Inr rs"
    and check_idempotency_total: "rep s st \<Longrightarrow> op_check_idempotency ops s k = Inr (keyed_record st k)"
    and get_effects_total: "rep s st \<Longrightarrow> nul_free t \<Longrightarrow>
      \<exists>es. op_get_effects_for_transition ops s t = Inr es"
    and get_pending_total: "rep s st \<Longrightarrow> \<exists>es. op_get_pending_effects ops s l = Inr es"
    and mark_effect_published_total: "rep s st \<Longrightarrow> st_effects st i \<noteq> None \<Longrightarrow>
      \<exists>s'. op_mark_effect_published ops s i = (Inr (), s')"
    and execute_transition_total: "rep s st \<Longrightarrow> admissible st r ns efs \<Longrightarrow>
      op_execute_transition ops s r ns efs = (Inl err, s') \<Longrightarrow> commit st r ns efs = Inl err"

end
