(* ===== verification/Redb.thy ===== *)
theory Redb
  imports Prelude
begin

text \<open>
  What the storage component uses of the embedded database library \<open>redb\<close>, which is
  not part of the repository. A table is an ordered map (the library's API is the one
  of an ordered map: \<open>get\<close>, \<open>insert\<close>, \<open>iter\<close> and \<open>range\<close> in key order); the interface
  is the locale \<open>ordered_table\<close>, and the lemmas about iteration are proved in it
  from its laws alone. Every call of the library may fail; whether it does is an
  argument \<open>flt\<close> of every operation that makes the call. A write transaction is a
  copy of the tables that replaces the committed ones when \<open>commit\<close> succeeds and is
  dropped otherwise.
\<close>

section \<open>The interface of a table\<close>

locale ordered_table =
  fixes get :: "'t \<Rightarrow> 'k::linorder \<Rightarrow> 'v option"
    and insert :: "'t \<Rightarrow> 'k \<Rightarrow> 'v \<Rightarrow> 't"
    and iter :: "'t \<Rightarrow> ('k \<times> 'v) list"
  assumes get_insert: "get (insert t k v) k' = (if k' = k then Some v else get t k')"
    and iter_sorted: "sorted_wrt (<) (map fst (iter t))"
    and get_iter: "get t k = map_of (iter t) k"
begin

lemma iter_distinct: "distinct (map fst (iter t))"
  using iter_sorted [of t] by (simp add: strict_sorted_iff)

lemma get_Some_iff: "get t k = Some v \<longleftrightarrow> (k, v) \<in> set (iter t)"
  by (simp add: get_iter map_of_eq_Some_iff iter_distinct)

lemma get_None_iff: "get t k = None \<longleftrightarrow> k \<notin> fst ` set (iter t)"
  by (simp add: get_iter map_of_eq_None_iff)

lemma set_iter_insert:
  "set (iter (insert t k v)) = Set.insert (k, v) {(k', v'). (k', v') \<in> set (iter t) \<and> k' \<noteq> k}"
  by (auto simp: get_Some_iff [symmetric] get_insert split: if_splits)

text \<open>Inserting above every key appends to the iteration.\<close>

lemma iter_insert_max:
  assumes "\<And>k' v'. (k', v') \<in> set (iter t) \<Longrightarrow> k' < k"
  shows "iter (insert t k v) = iter t @ [(k, v)]"
proof (rule sorted_keys_unique [OF iter_sorted])
  show "sorted_wrt (<) (map fst (iter t @ [(k, v)]))"
    using iter_sorted [of t] assms by (auto simp: sorted_wrt_append)
  show "set (iter (insert t k v)) = set (iter t @ [(k, v)])"
    using assms by (auto simp: set_iter_insert)
qed

text \<open>An insertion is invisible to a scan that skips its key.\<close>

lemma filter_iter_insert_other:
  assumes "\<not> P k"
  shows "filter (\<lambda>e. P (fst e)) (iter (insert t k v)) = filter (\<lambda>e. P (fst e)) (iter t)"
proof (rule sorted_keys_unique)
  show "set (filter (\<lambda>e. P (fst e)) (iter (insert t k v))) = set (filter (\<lambda>e. P (fst e)) (iter t))"
    using assms by (auto simp: set_iter_insert)
qed (simp_all add: sorted_keys_filter iter_sorted)

text \<open>An insertion above every key a scan selects is the last entry of the scan.\<close>

lemma filter_iter_insert_max:
  assumes "P k" and "\<And>k' v'. (k', v') \<in> set (iter t) \<Longrightarrow> P k' \<Longrightarrow> k' < k"
  shows "filter (\<lambda>e. P (fst e)) (iter (insert t k v)) = filter (\<lambda>e. P (fst e)) (iter t) @ [(k, v)]"
proof (rule sorted_keys_unique)
  show "sorted_wrt (<) (map fst (filter (\<lambda>e. P (fst e)) (iter t) @ [(k, v)]))"
    using sorted_keys_filter [OF iter_sorted, of "\<lambda>e. P (fst e)" t] assms
    by (auto simp: sorted_wrt_append)
  show "set (filter (\<lambda>e. P (fst e)) (iter (insert t k v))) =
      set (filter (\<lambda>e. P (fst e)) (iter t) @ [(k, v)])"
    using assms by (auto simp: set_iter_insert)
qed (simp add: sorted_keys_filter iter_sorted)

end

section \<open>Tables\<close>

text \<open>A table is a list of entries with strictly increasing keys.\<close>

typedef (overloaded) ('k::linorder, 'v) table = "{xs :: ('k \<times> 'v) list. sorted_wrt (<) (map fst xs)}"
  morphisms tbl_iter Table
  by (rule exI [of _ "[]"]) simp

setup_lifting type_definition_table

fun put :: "'k::linorder \<Rightarrow> 'v \<Rightarrow> ('k \<times> 'v) list \<Rightarrow> ('k \<times> 'v) list" where
  "put k v [] = [(k, v)]"
| "put k v (e # es) =
     (if fst e < k then e # put k v es
      else if k < fst e then (k, v) # e # es
      else (k, v) # es)"

lemma set_put: "sorted_wrt (<) (map fst es) \<Longrightarrow> fst ` set (put k v es) = insert k (fst ` set es)"
  by (induction es) auto

lemma sorted_put: "sorted_wrt (<) (map fst es) \<Longrightarrow> sorted_wrt (<) (map fst (put k v es))"
  by (induction es) (auto simp: set_put)

lemma map_of_put: "map_of (put k v es) k' = (if k' = k then Some v else map_of es k')"
  by (induction es) auto

lift_definition tbl_empty :: "('k::linorder, 'v) table" is "[]"
  by simp

lift_definition tbl_insert :: "('k::linorder, 'v) table \<Rightarrow> 'k \<Rightarrow> 'v \<Rightarrow> ('k, 'v) table" is
  "\<lambda>es k v. put k v es"
  by (rule sorted_put)

lift_definition tbl_get :: "('k::linorder, 'v) table \<Rightarrow> 'k \<Rightarrow> 'v option" is map_of .

text \<open>\<open>range(start..)\<close>.\<close>

definition tbl_range :: "('k::linorder, 'v) table \<Rightarrow> 'k \<Rightarrow> ('k \<times> 'v) list" where
  "tbl_range t start = filter (\<lambda>e. start \<le> fst e) (tbl_iter t)"

lemma tbl_iter_simps [simp]:
  "tbl_iter tbl_empty = []"
  "tbl_iter (tbl_insert t k v) = put k v (tbl_iter t)"
  by (transfer; simp)+

lemma tbl_get_map_of: "tbl_get t k = map_of (tbl_iter t) k"
  by transfer simp

interpretation tb: ordered_table tbl_get tbl_insert tbl_iter
proof
  fix t :: "('k::linorder, 'v) table" and k k' :: 'k and v :: 'v
  show "tbl_get (tbl_insert t k v) k' = (if k' = k then Some v else tbl_get t k')"
    by (simp add: tbl_get_map_of map_of_put)
  show "sorted_wrt (<) (map fst (tbl_iter t))"
    using tbl_iter [of t] by simp
  show "tbl_get t k = map_of (tbl_iter t) k"
    by (rule tbl_get_map_of)
qed

lemma tbl_get_empty [simp]: "tbl_get tbl_empty k = None"
  by (simp add: tbl_get_map_of)

lemmas tbl_get_insert [simp] = tb.get_insert

declare tbl_iter_simps(2) [simp del]

section \<open>Calls and their failures\<close>

datatype table_id =
  MACHINES | ENTITY_STATES | TRANSITIONS | TRANSITIONS_BY_ID | ENTITY_TRANSITIONS
| EFFECTS | EFFECTS_BY_TXN | IDEMPOTENCY | META

text \<open>
  The fallible calls of one operation. Calls made in a loop carry their round: \<open>Entry t i\<close>
  is the \<open>i\<close>-th entry an iteration of table \<open>t\<close> yields, \<open>GetAt t i\<close> and \<open>InsertAt t i\<close> are
  the accesses to table \<open>t\<close> in round \<open>i\<close>.
\<close>

datatype redb_call =
  Create | BeginRead | BeginWrite | Commit
| OpenTable table_id | Get table_id | Insert table_id
| Iter table_id | Range table_id | Entry table_id nat
| GetAt table_id nat | InsertAt table_id nat

text \<open>The error message of each call that fails; \<open>no_fault\<close> is the run in which none does.\<close>

type_synonym fault = "redb_call \<Rightarrow> string option"

definition no_fault :: fault where
  "no_fault c = None"

end
