(* ===== verification/Storage.thy ===== *)
theory Storage
  imports Storage_Interface Redb
begin

text \<open>
  The storage engine \<open>RedbEngine\<close> (\<open>crates/smdb-storage/src\<close>): nine tables, the keys
  that index them, and every method of the \<open>StorageEngine\<close> trait. A read method is a
  function of the tables; a write method returns its result together with the tables
  it leaves committed. Values are stored serialised: the serialiser \<open>rmp_serde\<close> is the
  argument \<open>cd\<close>, a record of its two directions for each stored type, and the type of
  serialised bytes is the type parameter \<open>'b\<close>, since the code never looks inside.
\<close>

section \<open>Errors of the database\<close>

text \<open>
  The \<open>From\<close> conversions: opening or committing a transaction fails with
  \<open>TransactionFailed\<close>, every other call of the database with \<open>Internal\<close>.
\<close>

definition from_redb :: "redb_call \<Rightarrow> string \<Rightarrow> storage_error" where
  "from_redb c e = (if c \<in> {BeginRead, BeginWrite, Commit} then TransactionFailed e else Internal e)"

text \<open>\<open>c?; k\<close> for a call \<open>c\<close> of the database.\<close>

definition redb_do :: "fault \<Rightarrow> redb_call \<Rightarrow> storage_error + 'a \<Rightarrow> storage_error + 'a" where
  "redb_do flt c k = (case flt c of None \<Rightarrow> k | Some e \<Rightarrow> Inl (from_redb c e))"

section \<open>Serialisation\<close>

record 'b codec =
  to_vec_machine :: "machine_definition \<Rightarrow> string + 'b"
  from_slice_machine :: "'b \<Rightarrow> string + machine_definition"
  to_vec_state :: "entity_state \<Rightarrow> string + 'b"
  from_slice_state :: "'b \<Rightarrow> string + entity_state"
  to_vec_record :: "transition_record \<Rightarrow> string + 'b"
  from_slice_record :: "'b \<Rightarrow> string + transition_record"
  to_vec_effect :: "effect \<Rightarrow> string + 'b"
  from_slice_effect :: "'b \<Rightarrow> string + effect"

definition enc :: "('a \<Rightarrow> string + 'b) \<Rightarrow> 'a \<Rightarrow> storage_error + 'b" where
  "enc to_vec x = map_err (\<lambda>e. Corrupted (''serialization error: '' @ e)) (to_vec x)"

definition dec :: "('b \<Rightarrow> string + 'a) \<Rightarrow> 'b \<Rightarrow> storage_error + 'a" where
  "dec from_slice bytes = map_err (\<lambda>e. Corrupted (''deserialization error: '' @ e)) (from_slice bytes)"

section \<open>Tables and keys\<close>

record 'b db =
  t_machines :: "(string, 'b) table"
  t_entity_states :: "(string, 'b) table"
  t_transitions :: "(u64, 'b) table"
  t_transitions_by_id :: "(string, u64) table"
  t_entity_transitions :: "(string, u64) table"
  t_effects :: "(string, 'b) table"
  t_effects_by_txn :: "(string, string) table"
  t_idempotency :: "(string, u64) table"
  t_meta :: "(string, u64) table"

definition empty_db :: "'b db" where
  "empty_db = \<lparr>t_machines = tbl_empty, t_entity_states = tbl_empty, t_transitions = tbl_empty,
     t_transitions_by_id = tbl_empty, t_entity_transitions = tbl_empty, t_effects = tbl_empty,
     t_effects_by_txn = tbl_empty, t_idempotency = tbl_empty, t_meta = tbl_empty\<rparr>"

definition META_SEQUENCE :: string where
  "META_SEQUENCE = ''sequence''"

definition entity_state_key :: "entity_id \<Rightarrow> machine_name \<Rightarrow> string" where
  "entity_state_key entity_id machine = entity_id @ NUL # machine"

definition entity_transition_key :: "entity_id \<Rightarrow> machine_name \<Rightarrow> sequence \<Rightarrow> string" where
  "entity_transition_key entity_id machine seq = entity_id @ NUL # machine @ NUL # fmt_020 seq"

definition entity_transition_prefix :: "entity_id \<Rightarrow> machine_name \<Rightarrow> string" where
  "entity_transition_prefix entity_id machine = entity_id @ NUL # machine @ [NUL]"

definition effect_by_txn_key :: "transition_id \<Rightarrow> string \<Rightarrow> string" where
  "effect_by_txn_key transition_id effect_id = transition_id @ NUL # effect_id"

definition effect_by_txn_prefix :: "transition_id \<Rightarrow> string" where
  "effect_by_txn_prefix transition_id = transition_id @ [NUL]"

section \<open>Transactions\<close>

text \<open>
  \<open>begin_write\<close>, the body on the transaction's view of the tables, \<open>commit\<close>. An error
  on the way drops the transaction, which leaves the committed tables as they were.
\<close>

definition write_tx ::
  "fault \<Rightarrow> 'b db \<Rightarrow> ('b db \<Rightarrow> storage_error + 'a \<times> 'b db) \<Rightarrow> (storage_error + 'a) \<times> 'b db" where
  "write_tx flt db body =
     (case redb_do flt BeginWrite
             (rbind (body db) (\<lambda>(x, tx). redb_do flt Commit (Inr (x, tx)))) of
        Inl e \<Rightarrow> (Inl e, db)
      | Inr (x, tx) \<Rightarrow> (Inr x, tx))"

fun open_tables :: "fault \<Rightarrow> table_id list \<Rightarrow> storage_error + 'a \<Rightarrow> storage_error + 'a" where
  "open_tables flt [] k = k"
| "open_tables flt (t # ts) k = redb_do flt (OpenTable t) (open_tables flt ts k)"

definition ensure_tables :: "fault \<Rightarrow> 'b db \<Rightarrow> (storage_error + unit) \<times> 'b db" where
  "ensure_tables flt db = write_tx flt db (\<lambda>tx.
     open_tables flt [MACHINES, ENTITY_STATES, TRANSITIONS, TRANSITIONS_BY_ID, ENTITY_TRANSITIONS,
       EFFECTS, EFFECTS_BY_TXN, IDEMPOTENCY, META] (Inr ((), tx)))"

text \<open>\<open>open\<close> on the tables found at the path, and \<open>in_memory\<close>, which starts from none.\<close>

definition redb_open :: "fault \<Rightarrow> 'b db \<Rightarrow> storage_error + 'b db" where
  "redb_open flt db = redb_do flt Create
     (case ensure_tables flt db of (Inl e, _) \<Rightarrow> Inl e | (Inr _, db') \<Rightarrow> Inr db')"

definition in_memory :: "fault \<Rightarrow> storage_error + 'b db" where
  "in_memory flt = redb_do flt Create
     (case ensure_tables flt empty_db of (Inl e, _) \<Rightarrow> Inl e | (Inr _, db') \<Rightarrow> Inr db')"

definition stored_sequence :: "'b db \<Rightarrow> sequence" where
  "stored_sequence db = (case tbl_get (t_meta db) META_SEQUENCE of Some v \<Rightarrow> v | None \<Rightarrow> 0)"

definition next_sequence_in_tx :: "fault \<Rightarrow> 'b db \<Rightarrow> storage_error + sequence \<times> 'b db" where
  "next_sequence_in_tx flt tx =
     redb_do flt (OpenTable META) (redb_do flt (Get META)
       (let current = stored_sequence tx; next = current + 1
        in redb_do flt (Insert META)
             (Inr (next, tx\<lparr>t_meta := tbl_insert (t_meta tx) META_SEQUENCE next\<rparr>))))"

section \<open>Machine definitions\<close>

definition store_machine ::
  "'b codec \<Rightarrow> fault \<Rightarrow> 'b db \<Rightarrow> machine_definition \<Rightarrow> (storage_error + unit) \<times> 'b db" where
  "store_machine cd flt db machine = write_tx flt db (\<lambda>tx.
     redb_do flt (OpenTable MACHINES)
       (rbind (enc (to_vec_machine cd) machine) (\<lambda>bytes.
          redb_do flt (Insert MACHINES)
            (Inr ((), tx\<lparr>t_machines := tbl_insert (t_machines tx) (md_name machine) bytes\<rparr>)))))"

definition get_machine ::
  "'b codec \<Rightarrow> fault \<Rightarrow> 'b db \<Rightarrow> machine_name \<Rightarrow> u32 option \<Rightarrow> storage_error + machine_definition" where
  "get_machine cd flt db name version =
     redb_do flt BeginRead (redb_do flt (OpenTable MACHINES) (redb_do flt (Get MACHINES)
       (case tbl_get (t_machines db) name of
          Some v \<Rightarrow> dec (from_slice_machine cd) v
        | None \<Rightarrow> Inl (NotFound (''machine '' @ quoted name)))))"

fun list_machines_loop ::
  "'b codec \<Rightarrow> fault \<Rightarrow> nat \<Rightarrow> (string \<times> 'b) list \<Rightarrow> machine_definition list
    \<Rightarrow> storage_error + machine_definition list" where
  "list_machines_loop cd flt i [] results = Inr results"
| "list_machines_loop cd flt i ((k, v) # entries) results =
     redb_do flt (Entry MACHINES i)
       (rbind (dec (from_slice_machine cd) v) (\<lambda>def.
          list_machines_loop cd flt (Suc i) entries (results @ [def])))"

definition list_machines :: "'b codec \<Rightarrow> fault \<Rightarrow> 'b db \<Rightarrow> storage_error + machine_definition list" where
  "list_machines cd flt db =
     redb_do flt BeginRead (redb_do flt (OpenTable MACHINES) (redb_do flt (Iter MACHINES)
       (list_machines_loop cd flt 0 (tbl_iter (t_machines db)) [])))"

section \<open>Entity states\<close>

definition get_entity_state ::
  "'b codec \<Rightarrow> fault \<Rightarrow> 'b db \<Rightarrow> entity_id \<Rightarrow> machine_name \<Rightarrow> storage_error + entity_state" where
  "get_entity_state cd flt db entity_id machine =
     (let key = entity_state_key entity_id machine
      in redb_do flt BeginRead (redb_do flt (OpenTable ENTITY_STATES) (redb_do flt (Get ENTITY_STATES)
           (case tbl_get (t_entity_states db) key of
              Some v \<Rightarrow> dec (from_slice_state cd) v
            | None \<Rightarrow> Inl (NotFound (''entity '' @ quoted entity_id @ '' in machine '' @ quoted machine))))))"

definition upsert_entity_state ::
  "'b codec \<Rightarrow> fault \<Rightarrow> 'b db \<Rightarrow> entity_state \<Rightarrow> (storage_error + unit) \<times> 'b db" where
  "upsert_entity_state cd flt db state = write_tx flt db (\<lambda>tx.
     let key = entity_state_key (es_entity_id state) (es_machine state)
     in redb_do flt (OpenTable ENTITY_STATES) (redb_do flt (Get ENTITY_STATES)
          (rbind
            (case tbl_get (t_entity_states tx) key of
               None \<Rightarrow> Inr ()
             | Some existing_bytes \<Rightarrow>
                 rbind (dec (from_slice_state cd) existing_bytes) (\<lambda>existing.
                   if 1 < es_version state \<and> es_version existing \<noteq> es_version state - 1
                   then Inl (StoredVersionConflict (es_entity_id state) (es_version state - 1)
                          (es_version existing))
                   else Inr ()))
            (\<lambda>_. rbind (enc (to_vec_state cd) state) (\<lambda>bytes.
               redb_do flt (Insert ENTITY_STATES)
                 (Inr ((), tx\<lparr>t_entity_states := tbl_insert (t_entity_states tx) key bytes\<rparr>)))))))"

fun list_entities_loop ::
  "'b codec \<Rightarrow> fault \<Rightarrow> machine_name \<Rightarrow> state_name \<Rightarrow> nat \<Rightarrow> (string \<times> 'b) list \<Rightarrow> entity_state list
    \<Rightarrow> storage_error + entity_state list" where
  "list_entities_loop cd flt machine state_name i [] results = Inr results"
| "list_entities_loop cd flt machine state_name i ((k, v) # entries) results =
     redb_do flt (Entry ENTITY_STATES i)
       (if sublist (NUL # machine) k then
          rbind (dec (from_slice_state cd) v) (\<lambda>state.
            list_entities_loop cd flt machine state_name (Suc i) entries
              (if es_machine state = machine \<and> es_current_state state = state_name
               then results @ [state] else results))
        else list_entities_loop cd flt machine state_name (Suc i) entries results)"

definition list_entities_in_state ::
  "'b codec \<Rightarrow> fault \<Rightarrow> 'b db \<Rightarrow> machine_name \<Rightarrow> state_name \<Rightarrow> storage_error + entity_state list" where
  "list_entities_in_state cd flt db machine state_name =
     redb_do flt BeginRead (redb_do flt (OpenTable ENTITY_STATES) (redb_do flt (Iter ENTITY_STATES)
       (list_entities_loop cd flt machine state_name 0 (tbl_iter (t_entity_states db)) [])))"

section \<open>Transition log\<close>

text \<open>
  Writing a record under its sequence number with its two index entries; the code of
  \<open>append_transition\<close> and of step 1 of \<open>execute_transition\<close>.
\<close>

definition log_transition ::
  "'b codec \<Rightarrow> fault \<Rightarrow> transition_record \<Rightarrow> sequence \<Rightarrow> 'b db \<Rightarrow> storage_error + 'b db" where
  "log_transition cd flt record seq tx =
     rbind (enc (to_vec_record cd) record) (\<lambda>bytes.
       redb_do flt (OpenTable TRANSITIONS) (redb_do flt (Insert TRANSITIONS)
       (redb_do flt (OpenTable TRANSITIONS_BY_ID) (redb_do flt (Insert TRANSITIONS_BY_ID)
       (let et_key = entity_transition_key (tr_entity_id record) (tr_machine record) seq
        in redb_do flt (OpenTable ENTITY_TRANSITIONS) (redb_do flt (Insert ENTITY_TRANSITIONS)
       (Inr (tx\<lparr>t_transitions := tbl_insert (t_transitions tx) seq bytes,
                t_transitions_by_id := tbl_insert (t_transitions_by_id tx) (tr_id record) seq,
                t_entity_transitions := tbl_insert (t_entity_transitions tx) et_key seq\<rparr>))))))))"

text \<open>The record is passed by mutable reference: its sequence is written back.\<close>

definition append_transition ::
  "'b codec \<Rightarrow> fault \<Rightarrow> 'b db \<Rightarrow> transition_record
    \<Rightarrow> (storage_error + sequence \<times> transition_record) \<times> 'b db" where
  "append_transition cd flt db record = write_tx flt db (\<lambda>tx.
     rbind (next_sequence_in_tx flt tx) (\<lambda>(seq, tx).
       let record = record\<lparr>tr_sequence := seq\<rparr>
       in rbind (log_transition cd flt record seq tx) (\<lambda>tx. Inr ((seq, record), tx))))"

definition get_transition ::
  "'b codec \<Rightarrow> fault \<Rightarrow> 'b db \<Rightarrow> transition_id \<Rightarrow> storage_error + transition_record" where
  "get_transition cd flt db tid =
     redb_do flt BeginRead (redb_do flt (OpenTable TRANSITIONS_BY_ID) (redb_do flt (Get TRANSITIONS_BY_ID)
       (rbind (ok_or (NotFound (''transition '' @ quoted tid)) (tbl_get (t_transitions_by_id db) tid)) (\<lambda>seq.
          redb_do flt (OpenTable TRANSITIONS) (redb_do flt (Get TRANSITIONS)
            (rbind (ok_or (NotFound (''transition seq '' @ show_nat (unat seq)))
                      (tbl_get (t_transitions db) seq)) (\<lambda>v.
               dec (from_slice_record cd) v)))))))"

text \<open>
  The scan of \<open>get_history\<close>: \<open>continue\<close> and \<open>break\<close> are the recursive call and the
  return of \<open>results\<close>.
\<close>

fun get_history_loop ::
  "'b codec \<Rightarrow> fault \<Rightarrow> (u64, 'b) table \<Rightarrow> string \<Rightarrow> nat \<Rightarrow> sequence \<Rightarrow> nat \<Rightarrow> (string \<times> u64) list
    \<Rightarrow> transition_record list \<Rightarrow> storage_error + transition_record list" where
  "get_history_loop cd flt trans_tbl prefix0 limit after i [] results = Inr results"
| "get_history_loop cd flt trans_tbl prefix0 limit after i ((key, seq) # entries) results =
     redb_do flt (Entry ENTITY_TRANSITIONS i)
       (if \<not> prefix prefix0 key then
          get_history_loop cd flt trans_tbl prefix0 limit after (Suc i) entries results
        else if seq \<le> after then
          get_history_loop cd flt trans_tbl prefix0 limit after (Suc i) entries results
        else if limit \<le> length results then Inr results
        else redb_do flt (GetAt TRANSITIONS i)
          (case tbl_get trans_tbl seq of
             Some bytes \<Rightarrow> rbind (dec (from_slice_record cd) bytes) (\<lambda>record.
               get_history_loop cd flt trans_tbl prefix0 limit after (Suc i) entries (results @ [record]))
           | None \<Rightarrow> get_history_loop cd flt trans_tbl prefix0 limit after (Suc i) entries results))"

definition get_history ::
  "'b codec \<Rightarrow> fault \<Rightarrow> 'b db \<Rightarrow> entity_id \<Rightarrow> machine_name \<Rightarrow> u32 option \<Rightarrow> sequence option
    \<Rightarrow> storage_error + transition_record list" where
  "get_history cd flt db entity_id machine limit after_sequence =
     (let prefix0 = entity_transition_prefix entity_id machine
      in redb_do flt BeginRead (open_tables flt [ENTITY_TRANSITIONS, TRANSITIONS]
        (let limit = unat (case limit of Some l \<Rightarrow> l | None \<Rightarrow> - 1);
             after = (case after_sequence of Some s \<Rightarrow> s | None \<Rightarrow> 0)
         in redb_do flt (Iter ENTITY_TRANSITIONS)
              (get_history_loop cd flt (t_transitions db) prefix0 limit after 0
                 (tbl_iter (t_entity_transitions db)) []))))"

fun get_transitions_after_loop ::
  "'b codec \<Rightarrow> fault \<Rightarrow> nat \<Rightarrow> nat \<Rightarrow> (u64 \<times> 'b) list \<Rightarrow> transition_record list
    \<Rightarrow> storage_error + transition_record list" where
  "get_transitions_after_loop cd flt limit i [] results = Inr results"
| "get_transitions_after_loop cd flt limit i ((k, v) # entries) results =
     (if limit \<le> length results then Inr results
      else redb_do flt (Entry TRANSITIONS i)
        (rbind (dec (from_slice_record cd) v) (\<lambda>record.
           get_transitions_after_loop cd flt limit (Suc i) entries (results @ [record]))))"

text \<open>\<open>after_sequence + 1\<close> is an addition on \<open>u64\<close>, which wraps in a release build.\<close>

definition get_transitions_after ::
  "'b codec \<Rightarrow> fault \<Rightarrow> 'b db \<Rightarrow> sequence \<Rightarrow> u32 \<Rightarrow> storage_error + transition_record list" where
  "get_transitions_after cd flt db after_sequence limit =
     redb_do flt BeginRead (redb_do flt (OpenTable TRANSITIONS)
       (let start = after_sequence + 1
        in redb_do flt (Range TRANSITIONS)
             (get_transitions_after_loop cd flt (unat limit) 0 (tbl_range (t_transitions db) start) [])))"

section \<open>Outbox\<close>

fun put_effects :: "'b codec \<Rightarrow> fault \<Rightarrow> nat \<Rightarrow> effect list \<Rightarrow> 'b db \<Rightarrow> storage_error + 'b db" where
  "put_effects cd flt i [] tx = Inr tx"
| "put_effects cd flt i (effect # rest) tx =
     rbind (enc (to_vec_effect cd) effect) (\<lambda>bytes.
       redb_do flt (InsertAt EFFECTS i)
         (let key = effect_by_txn_key (ef_transition_id effect) (ef_id effect)
          in redb_do flt (InsertAt EFFECTS_BY_TXN i)
               (put_effects cd flt (Suc i) rest
                 (tx\<lparr>t_effects := tbl_insert (t_effects tx) (ef_id effect) bytes,
                     t_effects_by_txn := tbl_insert (t_effects_by_txn tx) key (ef_id effect)\<rparr>))))"

definition insert_effects ::
  "'b codec \<Rightarrow> fault \<Rightarrow> 'b db \<Rightarrow> effect list \<Rightarrow> (storage_error + unit) \<times> 'b db" where
  "insert_effects cd flt db effects = write_tx flt db (\<lambda>tx.
     open_tables flt [EFFECTS, EFFECTS_BY_TXN]
       (rbind (put_effects cd flt 0 effects tx) (\<lambda>tx. Inr ((), tx))))"

fun get_pending_loop ::
  "'b codec \<Rightarrow> fault \<Rightarrow> nat \<Rightarrow> nat \<Rightarrow> (string \<times> 'b) list \<Rightarrow> effect list
    \<Rightarrow> storage_error + effect list" where
  "get_pending_loop cd flt limit i [] results = Inr results"
| "get_pending_loop cd flt limit i ((k, v) # entries) results =
     (if limit \<le> length results then Inr results
      else redb_do flt (Entry EFFECTS i)
        (rbind (dec (from_slice_effect cd) v) (\<lambda>effect.
           get_pending_loop cd flt limit (Suc i) entries
             (if ef_status effect = Pending then results @ [effect] else results))))"

definition get_pending_effects ::
  "'b codec \<Rightarrow> fault \<Rightarrow> 'b db \<Rightarrow> u32 \<Rightarrow> storage_error + effect list" where
  "get_pending_effects cd flt db limit =
     redb_do flt BeginRead (redb_do flt (OpenTable EFFECTS) (redb_do flt (Iter EFFECTS)
       (get_pending_loop cd flt (unat limit) 0 (tbl_iter (t_effects db)) [])))"

fun get_effects_loop ::
  "'b codec \<Rightarrow> fault \<Rightarrow> (string, 'b) table \<Rightarrow> string \<Rightarrow> nat \<Rightarrow> (string \<times> string) list \<Rightarrow> effect list
    \<Rightarrow> storage_error + effect list" where
  "get_effects_loop cd flt effects_tbl prefix0 i [] results = Inr results"
| "get_effects_loop cd flt effects_tbl prefix0 i ((k, v) # entries) results =
     redb_do flt (Entry EFFECTS_BY_TXN i)
       (if \<not> prefix prefix0 k then Inr results
        else redb_do flt (GetAt EFFECTS i)
          (case tbl_get effects_tbl v of
             Some bytes \<Rightarrow> rbind (dec (from_slice_effect cd) bytes) (\<lambda>effect.
               get_effects_loop cd flt effects_tbl prefix0 (Suc i) entries (results @ [effect]))
           | None \<Rightarrow> get_effects_loop cd flt effects_tbl prefix0 (Suc i) entries results))"

definition get_effects_for_transition ::
  "'b codec \<Rightarrow> fault \<Rightarrow> 'b db \<Rightarrow> transition_id \<Rightarrow> storage_error + effect list" where
  "get_effects_for_transition cd flt db transition_id =
     (let prefix0 = effect_by_txn_prefix transition_id
      in redb_do flt BeginRead (open_tables flt [EFFECTS_BY_TXN, EFFECTS]
        (redb_do flt (Range EFFECTS_BY_TXN)
          (get_effects_loop cd flt (t_effects db) prefix0 0 (tbl_range (t_effects_by_txn db) prefix0) []))))"

definition update_effect_status ::
  "'b codec \<Rightarrow> fault \<Rightarrow> 'b db \<Rightarrow> string \<Rightarrow> effect_status \<Rightarrow> (storage_error + unit) \<times> 'b db" where
  "update_effect_status cd flt db effect_id status = write_tx flt db (\<lambda>tx.
     redb_do flt (OpenTable EFFECTS) (redb_do flt (Get EFFECTS)
       (rbind (ok_or (NotFound (''effect '' @ quoted effect_id)) (tbl_get (t_effects tx) effect_id)) (\<lambda>bytes.
        rbind (dec (from_slice_effect cd) bytes) (\<lambda>effect.
        rbind (enc (to_vec_effect cd) (effect\<lparr>ef_status := status\<rparr>)) (\<lambda>updated.
          redb_do flt (Insert EFFECTS)
            (Inr ((), tx\<lparr>t_effects := tbl_insert (t_effects tx) effect_id updated\<rparr>))))))))"

definition mark_effect_published ::
  "'b codec \<Rightarrow> fault \<Rightarrow> 'b db \<Rightarrow> string \<Rightarrow> (storage_error + unit) \<times> 'b db" where
  "mark_effect_published cd flt db effect_id = update_effect_status cd flt db effect_id Published"

definition mark_effect_failed ::
  "'b codec \<Rightarrow> fault \<Rightarrow> 'b db \<Rightarrow> string \<Rightarrow> (storage_error + unit) \<times> 'b db" where
  "mark_effect_failed cd flt db effect_id = update_effect_status cd flt db effect_id Failed"

section \<open>Idempotency\<close>

definition check_idempotency ::
  "'b codec \<Rightarrow> fault \<Rightarrow> 'b db \<Rightarrow> idempotency_key \<Rightarrow> storage_error + transition_record option" where
  "check_idempotency cd flt db key =
     redb_do flt BeginRead (redb_do flt (OpenTable IDEMPOTENCY) (redb_do flt (Get IDEMPOTENCY)
       (case tbl_get (t_idempotency db) key of
          None \<Rightarrow> Inr None
        | Some seq \<Rightarrow>
            redb_do flt (OpenTable TRANSITIONS) (redb_do flt (Get TRANSITIONS)
              (rbind (ok_or (NotFound (''transition seq '' @ show_nat (unat seq)))
                        (tbl_get (t_transitions db) seq)) (\<lambda>v.
               rbind (dec (from_slice_record cd) v) (\<lambda>record. Inr (Some record))))))))"

section \<open>The atomic transition\<close>

text \<open>Step 2: the projection, with its optimistic concurrency check.\<close>

definition put_entity_state ::
  "'b codec \<Rightarrow> fault \<Rightarrow> entity_state \<Rightarrow> 'b db \<Rightarrow> storage_error + 'b db" where
  "put_entity_state cd flt new_state tx =
     (let key = entity_state_key (es_entity_id new_state) (es_machine new_state)
      in redb_do flt (OpenTable ENTITY_STATES) (redb_do flt (Get ENTITY_STATES)
           (rbind
             (case tbl_get (t_entity_states tx) key of
                None \<Rightarrow> Inr ()
              | Some existing_bytes \<Rightarrow>
                  rbind (dec (from_slice_state cd) existing_bytes) (\<lambda>existing.
                    let expected_prev = saturating_sub1 (es_version new_state)
                    in if es_version existing \<noteq> expected_prev
                       then Inl (StoredVersionConflict (es_entity_id new_state) expected_prev
                              (es_version existing))
                       else Inr ()))
             (\<lambda>_. rbind (enc (to_vec_state cd) new_state) (\<lambda>state_bytes.
                redb_do flt (Insert ENTITY_STATES)
                  (Inr (tx\<lparr>t_entity_states := tbl_insert (t_entity_states tx) key state_bytes\<rparr>)))))))"

text \<open>Step 4: the idempotency key, which must be new.\<close>

definition put_idempotency ::
  "fault \<Rightarrow> idempotency_key option \<Rightarrow> sequence \<Rightarrow> 'b db \<Rightarrow> storage_error + 'b db" where
  "put_idempotency flt idem_key seq tx =
     (case idem_key of
        None \<Rightarrow> Inr tx
      | Some key \<Rightarrow>
          redb_do flt (OpenTable IDEMPOTENCY) (redb_do flt (Get IDEMPOTENCY)
            (if tbl_get (t_idempotency tx) key \<noteq> None
             then Inl (AlreadyExists (''idempotency key '' @ quoted key))
             else redb_do flt (Insert IDEMPOTENCY)
                    (Inr (tx\<lparr>t_idempotency := tbl_insert (t_idempotency tx) key seq\<rparr>)))))"

definition execute_transition ::
  "'b codec \<Rightarrow> fault \<Rightarrow> 'b db \<Rightarrow> transition_record \<Rightarrow> entity_state \<Rightarrow> effect list
    \<Rightarrow> (storage_error + sequence \<times> transition_record) \<times> 'b db" where
  "execute_transition cd flt db record new_state effects = write_tx flt db (\<lambda>tx.
     rbind (next_sequence_in_tx flt tx) (\<lambda>(seq, tx).
       let record = record\<lparr>tr_sequence := seq\<rparr>
       in rbind (log_transition cd flt record seq tx) (\<lambda>tx.
          rbind (put_entity_state cd flt new_state tx) (\<lambda>tx.
          open_tables flt [EFFECTS, EFFECTS_BY_TXN]
         (rbind (put_effects cd flt 0 effects tx) (\<lambda>tx.
          rbind (put_idempotency flt (tr_idempotency_key record) seq tx) (\<lambda>tx.
            Inr ((seq, record), tx))))))))"

section \<open>Sequence counter\<close>

definition current_sequence :: "fault \<Rightarrow> 'b db \<Rightarrow> storage_error + sequence" where
  "current_sequence flt db =
     redb_do flt BeginRead (redb_do flt (OpenTable META) (redb_do flt (Get META)
       (Inr (stored_sequence db))))"

end
