(* ===== verification/Storage_Spec.thy ===== *)
theory Storage_Spec
  imports Storage
begin

text \<open>
  What the storage engine promises: an abstract store (machine definitions, the
  transition log as a list, the projection, the outbox), the relation \<open>represents\<close>
  between the nine tables and such a store, and the lemmas that every operation
  implements its abstract counterpart. The serialiser is assumed to round-trip
  (\<open>codec_ok\<close>), which is what the code relies on.
\<close>

section \<open>Failures\<close>

lemma redb_do_no_fault [simp]: "redb_do no_fault c k = k"
  by (simp add: redb_do_def no_fault_def)

lemma redb_do_Inr_iff [simp]: "redb_do flt c k = Inr x \<longleftrightarrow> flt c = None \<and> k = Inr x"
  by (auto simp: redb_do_def split: option.splits)

lemma open_tables_no_fault [simp]: "open_tables no_fault ts k = k"
  by (induction ts) auto

lemma open_tables_Inr_iff [simp]:
  "open_tables flt ts k = Inr x \<longleftrightarrow> (\<forall>t \<in> set ts. flt (OpenTable t) = None) \<and> k = Inr x"
  by (induction ts) auto

lemma dec_Inr_iff [simp]: "dec f b = Inr x \<longleftrightarrow> f b = Inr x"
  by (simp add: dec_def)

lemma enc_Inr_iff [simp]: "enc f x = Inr b \<longleftrightarrow> f x = Inr b"
  by (simp add: enc_def)

lemma dec_Inr [simp]: "f b = Inr x \<Longrightarrow> dec f b = Inr x"
  by simp

lemma enc_Inr [simp]: "f x = Inr b \<Longrightarrow> enc f x = Inr b"
  by simp

lemma write_tx_Inr_iff:
  "write_tx flt db body = (Inr x, db') \<longleftrightarrow>
     flt BeginWrite = None \<and> flt Commit = None \<and> body db = Inr (x, db')"
  by (auto simp: write_tx_def redb_do_def split: option.splits sum.splits)

lemma write_tx_Inl: "write_tx flt db body = (Inl e, db') \<Longrightarrow> db' = db"
  by (auto simp: write_tx_def split: sum.splits)

lemma write_tx_no_fault:
  "write_tx no_fault db body =
     (case body db of Inl e \<Rightarrow> (Inl e, db) | Inr (x, tx) \<Rightarrow> (Inr x, tx))"
  by (cases "body db") (auto simp: write_tx_def split: prod.splits)

text \<open>
  \<open>degrades flt a b\<close>: the outcome \<open>a\<close> under failures \<open>flt\<close> is the failure-free outcome \<open>b\<close>
  or the error of a call that failed.
\<close>

definition degrades :: "fault \<Rightarrow> storage_error + 'a \<Rightarrow> storage_error + 'a \<Rightarrow> bool" where
  "degrades flt a b \<longleftrightarrow> a = b \<or> (\<exists>c e. flt c = Some e \<and> a = Inl (from_redb c e))"

named_theorems degrades_intros \<open>how a failing call propagates\<close>

lemma degrades_refl [degrades_intros]: "degrades flt a a"
  by (simp add: degrades_def)

lemma degrades_redb_do [degrades_intros]:
  "degrades flt a b \<Longrightarrow> degrades flt (redb_do flt c a) (redb_do no_fault c b)"
  by (auto simp: degrades_def redb_do_def no_fault_def split: option.splits)

lemma degrades_open_tables [degrades_intros]:
  "degrades flt a b \<Longrightarrow> degrades flt (open_tables flt ts a) (open_tables no_fault ts b)"
  by (induction ts) (auto simp: degrades_def redb_do_def no_fault_def split: option.splits)

lemma degrades_rbind [degrades_intros]:
  assumes "degrades flt a b" and "\<And>x. degrades flt (f x) (g x)"
  shows "degrades flt (rbind a f) (rbind b g)"
proof (cases "a = b")
  case True
  with assms(2) show ?thesis by (cases b) (auto intro: degrades_refl)
next
  case False
  with assms(1) obtain c e where "flt c = Some e" "a = Inl (from_redb c e)"
    by (auto simp: degrades_def)
  then show ?thesis unfolding degrades_def by auto
qed

lemma degrades_if [degrades_intros]:
  "degrades flt a a' \<Longrightarrow> degrades flt b b' \<Longrightarrow> degrades flt (if c then a else b) (if c then a' else b')"
  by simp

lemma degrades_case_option [degrades_intros]:
  "degrades flt a a' \<Longrightarrow> (\<And>x. degrades flt (f x) (f' x)) \<Longrightarrow>
   degrades flt (case z of None \<Rightarrow> a | Some x \<Rightarrow> f x) (case z of None \<Rightarrow> a' | Some x \<Rightarrow> f' x)"
  by (cases z) auto

lemma degrades_case_prod [degrades_intros]:
  "(\<And>x y. degrades flt (f x y) (f' x y)) \<Longrightarrow>
   degrades flt (case z of (x, y) \<Rightarrow> f x y) (case z of (x, y) \<Rightarrow> f' x y)"
  by (cases z) auto

text \<open>A transaction under failures: all of the failure-free outcome, or an error and no change.\<close>

lemma write_tx_degrades:
  assumes "degrades flt (body db) (body' db)"
  shows "write_tx flt db body = write_tx no_fault db body' \<or>
    (\<exists>c e. flt c = Some e \<and> write_tx flt db body = (Inl (from_redb c e), db))"
proof -
  let ?out = "redb_do flt BeginWrite (rbind (body db) (\<lambda>(x, tx). redb_do flt Commit (Inr (x, tx))))"
  let ?free = "redb_do no_fault BeginWrite (rbind (body' db) (\<lambda>(x, tx). redb_do no_fault Commit (Inr (x, tx))))"
  have "degrades flt ?out ?free"
    by (intro degrades_intros assms)
  then consider (same) "?out = ?free" | (failed) c e where "flt c = Some e" "?out = Inl (from_redb c e)"
    unfolding degrades_def by blast
  then show ?thesis
  proof cases
    case same
    then show ?thesis by (simp only: write_tx_def simp_thms)
  next
    case failed
    then have "write_tx flt db body = (Inl (from_redb c e), db)"
      by (simp only: write_tx_def) simp
    with failed(1) show ?thesis by blast
  qed
qed

lemma next_sequence_degrades [degrades_intros]:
  "degrades flt (next_sequence_in_tx flt tx) (next_sequence_in_tx no_fault tx)"
  unfolding next_sequence_in_tx_def Let_def by (intro degrades_intros)

lemma log_transition_degrades [degrades_intros]:
  "degrades flt (log_transition cd flt r seq tx) (log_transition cd no_fault r seq tx)"
  unfolding log_transition_def Let_def by (intro degrades_intros)

lemma put_entity_state_degrades [degrades_intros]:
  "degrades flt (put_entity_state cd flt s tx) (put_entity_state cd no_fault s tx)"
  unfolding put_entity_state_def Let_def by (intro degrades_intros)

lemma put_effects_degrades [degrades_intros]:
  "degrades flt (put_effects cd flt i es tx) (put_effects cd no_fault i es tx)"
proof (induction es arbitrary: i tx)
  case Nil
  then show ?case by (simp add: degrades_intros)
next
  case (Cons e es)
  show ?case
    unfolding put_effects.simps Let_def by (intro degrades_intros Cons.IH)
qed

lemma put_idempotency_degrades [degrades_intros]:
  "degrades flt (put_idempotency flt k seq tx) (put_idempotency no_fault k seq tx)"
  unfolding put_idempotency_def by (intro degrades_intros)

section \<open>Tables of serialised values\<close>

text \<open>
  The serialiser round-trips: \<open>from_slice\<close> reads back what \<open>to_vec\<close> wrote, and \<open>to_vec\<close>
  succeeds on the stored types.
\<close>

definition round_trips :: "('a \<Rightarrow> string + 'b) \<Rightarrow> ('b \<Rightarrow> string + 'a) \<Rightarrow> bool" where
  "round_trips to_vec from_slice \<longleftrightarrow> (\<forall>x. \<exists>b. to_vec x = Inr b \<and> from_slice b = Inr x)"

definition codec_ok :: "'b codec \<Rightarrow> bool" where
  "codec_ok cd \<longleftrightarrow>
     round_trips (to_vec_machine cd) (from_slice_machine cd) \<and>
     round_trips (to_vec_state cd) (from_slice_state cd) \<and>
     round_trips (to_vec_record cd) (from_slice_record cd) \<and>
     round_trips (to_vec_effect cd) (from_slice_effect cd)"

lemma enc_obtain:
  assumes "round_trips f g"
  obtains b where "f x = Inr b" "enc f x = Inr b" "g b = Inr x"
  using assms by (auto simp: round_trips_def)

text \<open>\<open>holds g key t V\<close>: the table \<open>t\<close> holds exactly the values \<open>V\<close>, each under its key.\<close>

definition holds :: "('b \<Rightarrow> string + 'v) \<Rightarrow> ('v \<Rightarrow> 'k::linorder) \<Rightarrow> ('k, 'b) table \<Rightarrow> 'v set \<Rightarrow> bool" where
  "holds g key t V \<longleftrightarrow>
     (\<forall>k b. tbl_get t k = Some b \<longrightarrow> (\<exists>v \<in> V. g b = Inr v \<and> key v = k)) \<and>
     (\<forall>v \<in> V. \<exists>b. tbl_get t (key v) = Some b \<and> g b = Inr v)"

lemma holds_empty [simp]: "holds g key tbl_empty {}"
  by (simp add: holds_def)

lemma holds_insert:
  assumes "holds g key t V" and "g b = Inr v" and "key v = k"
  shows "holds g key (tbl_insert t k b) (insert v {w \<in> V. key w \<noteq> k})"
  using assms unfolding holds_def by (auto split: if_splits)

lemma holds_None: "holds g key t V \<Longrightarrow> tbl_get t k = None \<longleftrightarrow> (\<forall>v \<in> V. key v \<noteq> k)"
  unfolding holds_def by (metis not_None_eq option.distinct(1))

lemma holds_Some:
  assumes "holds g key t V" and "v \<in> V" and "key v = k"
  obtains b where "tbl_get t k = Some b" "g b = Inr v"
  using assms unfolding holds_def by blast

lemma holds_inj: "holds g key t V \<Longrightarrow> v \<in> V \<Longrightarrow> w \<in> V \<Longrightarrow> key v = key w \<Longrightarrow> v = w"
  unfolding holds_def by (metis Inr_inject option.inject)

text \<open>Iterating such a table decodes to its values, sorted by key.\<close>

abbreviation decodes :: "('b \<Rightarrow> string + 'v) \<Rightarrow> ('v \<Rightarrow> 'k) \<Rightarrow> 'k \<times> 'b \<Rightarrow> 'v \<Rightarrow> bool" where
  "decodes g key e v \<equiv> g (snd e) = Inr v \<and> key v = fst e"

lemma list_all2_choice: "(\<And>x. x \<in> set xs \<Longrightarrow> \<exists>y. P x y) \<Longrightarrow> \<exists>ys. list_all2 P xs ys"
  by (induction xs) (auto simp: list_all2_Cons1)

lemma decodes_keys: "list_all2 (decodes g key) es vs \<Longrightarrow> map key vs = map fst es"
  by (induction rule: list_all2_induct) auto

lemma holds_iter:
  assumes "holds g key t V"
  obtains vs where "list_all2 (decodes g key) (tbl_iter t) vs" "set vs = V" "sorted_wrt (<) (map key vs)"
proof -
  have "\<exists>vs. list_all2 (\<lambda>e v. decodes g key e v \<and> v \<in> V) (tbl_iter t) vs"
    using assms by (intro list_all2_choice) (fastforce simp: holds_def tb.get_Some_iff)
  then obtain vs where vs: "list_all2 (\<lambda>e v. decodes g key e v \<and> v \<in> V) (tbl_iter t) vs" ..
  then have dec: "list_all2 (decodes g key) (tbl_iter t) vs"
    by (rule list_all2_mono) simp
  have sub: "set vs \<subseteq> V"
    using vs by (auto simp: list_all2_conv_all_nth in_set_conv_nth)
  have "v \<in> set vs" if "v \<in> V" for v
  proof -
    from assms that obtain b where "(key v, b) \<in> set (tbl_iter t)"
      by (auto simp: tb.get_Some_iff elim: holds_Some)
    then have "key v \<in> set (map key vs)"
      unfolding decodes_keys [OF dec] by force
    with sub that holds_inj [OF assms] show ?thesis by auto
  qed
  with sub dec tb.iter_sorted [of t] that [of vs] show ?thesis
    by (auto simp: decodes_keys)
qed

lemma list_all2_filter_fst:
  "list_all2 (decodes g key) es vs \<Longrightarrow>
   list_all2 (decodes g key) (filter (\<lambda>e. P (fst e)) es) (filter (\<lambda>v. P (key v)) vs)"
  by (induction rule: list_all2_induct) auto

text \<open>A map all of whose values sit at their own key.\<close>

definition keyed :: "('v \<Rightarrow> 'k) \<Rightarrow> ('k \<rightharpoonup> 'v) \<Rightarrow> bool" where
  "keyed kf m \<longleftrightarrow> (\<forall>k v. m k = Some v \<longrightarrow> kf v = k)"

lemma keyed_empty [simp]: "keyed kf Map.empty"
  by (simp add: keyed_def)

lemma keyed_upd: "keyed kf m \<Longrightarrow> kf v = k \<Longrightarrow> keyed kf (m(k \<mapsto> v))"
  by (simp add: keyed_def)

lemma keyed_ran_iff: "keyed kf m \<Longrightarrow> v \<in> ran m \<longleftrightarrow> m (kf v) = Some v"
  by (auto simp: keyed_def ran_def)

lemma keyed_ran_upd: "keyed kf m \<Longrightarrow> kf v = k \<Longrightarrow> ran (m(k \<mapsto> v)) = insert v {w \<in> ran m. kf w \<noteq> k}"
  by (auto simp: keyed_def ran_def)

lemma holds_lookup:
  assumes "holds g key t (ran M)" and "keyed kf M"
    and "\<And>v. v \<in> ran M \<Longrightarrow> key v = tk \<longleftrightarrow> kf v = k"
  shows "(case tbl_get t tk of Some b \<Rightarrow> dec g b | None \<Rightarrow> Inl e) = ok_or e (M k)"
proof (cases "M k")
  case None
  then have "tbl_get t tk = None"
    using assms by (auto simp: holds_None [OF assms(1)] keyed_ran_iff)
  with None show ?thesis by simp
next
  case (Some v)
  then have "v \<in> ran M" "key v = tk"
    using assms by (auto simp: keyed_def ran_def)
  then obtain b where "tbl_get t tk = Some b" "g b = Inr v"
    by (rule holds_Some [OF assms(1)])
  with Some show ?thesis by (simp add: dec_def)
qed

section \<open>The representation relation\<close>

definition rep_machines :: "'b codec \<Rightarrow> (string, 'b) table \<Rightarrow> (machine_name \<rightharpoonup> machine_definition) \<Rightarrow> bool" where
  "rep_machines cd t M \<longleftrightarrow> holds (from_slice_machine cd) md_name t (ran M) \<and> keyed md_name M"

abbreviation state_id :: "entity_state \<Rightarrow> entity_id \<times> machine_name" where
  "state_id s \<equiv> (es_entity_id s, es_machine s)"

abbreviation state_key :: "entity_state \<Rightarrow> string" where
  "state_key s \<equiv> entity_state_key (es_entity_id s) (es_machine s)"

definition rep_states ::
  "'b codec \<Rightarrow> (string, 'b) table \<Rightarrow> (entity_id \<times> machine_name \<rightharpoonup> entity_state) \<Rightarrow> bool" where
  "rep_states cd t M \<longleftrightarrow>
     holds (from_slice_state cd) state_key t (ran M) \<and> keyed state_id M \<and>
     (\<forall>s \<in> ran M. nul_free (es_entity_id s))"

text \<open>The log table: the records under the sequence numbers 1, 2, \<open>\<dots>\<close> up to the counter.\<close>

definition rep_log :: "'b codec \<Rightarrow> (u64, 'b) table \<Rightarrow> sequence \<Rightarrow> transition_record list \<Rightarrow> bool" where
  "rep_log cd t q log \<longleftrightarrow>
     holds (from_slice_record cd) tr_sequence t (set log) \<and>
     map (\<lambda>r. unat (tr_sequence r)) log = [1..<Suc (length log)] \<and> unat q = length log"

text \<open>The three tables that map names to sequence numbers.\<close>

definition rep_ids :: "(string, u64) table \<Rightarrow> transition_record list \<Rightarrow> bool" where
  "rep_ids t log \<longleftrightarrow>
     (\<forall>i. tbl_get t i = map_option tr_sequence (find (\<lambda>r. tr_id r = i) log)) \<and> distinct (map tr_id log)"

abbreviation index_entry :: "transition_record \<Rightarrow> string \<times> u64" where
  "index_entry r \<equiv> (entity_transition_key (tr_entity_id r) (tr_machine r) (tr_sequence r), tr_sequence r)"

definition rep_index :: "(string, u64) table \<Rightarrow> transition_record list \<Rightarrow> bool" where
  "rep_index t log \<longleftrightarrow>
     set (tbl_iter t) = index_entry ` set log \<and>
     (\<forall>r \<in> set log. nul_free (tr_entity_id r) \<and> nul_free (tr_machine r))"

definition rep_keys :: "(string, u64) table \<Rightarrow> transition_record list \<Rightarrow> bool" where
  "rep_keys t log \<longleftrightarrow>
     (\<forall>k. tbl_get t k = map_option tr_sequence (find (\<lambda>r. tr_idempotency_key r = Some k) log))"

abbreviation txn_entry :: "effect \<Rightarrow> string \<times> string" where
  "txn_entry e \<equiv> (effect_by_txn_key (ef_transition_id e) (ef_id e), ef_id e)"

definition rep_effects ::
  "'b codec \<Rightarrow> (string, 'b) table \<Rightarrow> (string, string) table \<Rightarrow> (string \<rightharpoonup> effect) \<Rightarrow> bool" where
  "rep_effects cd t by_txn M \<longleftrightarrow>
     holds (from_slice_effect cd) ef_id t (ran M) \<and> keyed ef_id M \<and>
     set (tbl_iter by_txn) = txn_entry ` ran M \<and> (\<forall>e \<in> ran M. nul_free (ef_transition_id e))"

definition represents :: "'b codec \<Rightarrow> 'b db \<Rightarrow> store \<Rightarrow> bool" where
  "represents cd db st \<longleftrightarrow>
     codec_ok cd \<and>
     rep_machines cd (t_machines db) (st_machines st) \<and>
     rep_states cd (t_entity_states db) (st_states st) \<and>
     rep_log cd (t_transitions db) (stored_sequence db) (st_log st) \<and>
     rep_ids (t_transitions_by_id db) (st_log st) \<and>
     rep_index (t_entity_transitions db) (st_log st) \<and>
     rep_keys (t_idempotency db) (st_log st) \<and>
     rep_effects cd (t_effects db) (t_effects_by_txn db) (st_effects st)"

lemma represents_empty: "codec_ok cd \<Longrightarrow> represents cd empty_db empty_store"
  by (simp add: represents_def empty_db_def empty_store_def rep_machines_def rep_states_def
      rep_log_def rep_ids_def rep_index_def rep_keys_def rep_effects_def stored_sequence_def)

section \<open>Preservation, table by table\<close>

lemma find_snoc: "find P (xs @ [x]) = (case find P xs of Some y \<Rightarrow> Some y | None \<Rightarrow> if P x then Some x else None)"
  by (induction xs) auto

lemma find_None_image: "find (\<lambda>r. f r = i) xs = None \<longleftrightarrow> i \<notin> f ` set xs"
  by (auto simp: find_None_iff)

lemma rep_log_sorted:
  assumes "map (\<lambda>r. unat (tr_sequence r)) log = [1..<Suc n]"
  shows "sorted_wrt (<) (map tr_sequence log)"
proof -
  have "sorted_wrt (<) (map (\<lambda>r. unat (tr_sequence r)) log)"
    unfolding assms by (rule sorted_wrt_upt)
  then show ?thesis by (simp add: sorted_wrt_map word_less_nat_alt)
qed

lemma rep_log_bound: "rep_log cd t q log \<Longrightarrow> r \<in> set log \<Longrightarrow> tr_sequence r \<le> q"
proof -
  assume rep: "rep_log cd t q log" and "r \<in> set log"
  then have "unat (tr_sequence r) \<in> set (map (\<lambda>r. unat (tr_sequence r)) log)" by simp
  with rep show ?thesis by (auto simp: rep_log_def word_le_nat_alt)
qed

lemma rep_log_next:
  "rep_log cd t q log \<Longrightarrow> Suc (length log) < 2 ^ 64 \<Longrightarrow> unat (q + 1) = Suc (length log)"
  by (simp add: rep_log_def word_simps)

lemma rep_log_snoc:
  assumes rep: "rep_log cd t q log" and len: "Suc (length log) < 2 ^ 64"
    and b: "from_slice_record cd b = Inr r" and r: "tr_sequence r = q + 1"
  shows "rep_log cd (tbl_insert t (q + 1) b) (q + 1) (log @ [r])"
proof -
  have new: "tr_sequence x \<noteq> q + 1" if "x \<in> set log" for x
    using rep_log_bound [OF rep that] rep_log_next [OF rep len] rep
    by (auto simp: rep_log_def word_le_nat_alt)
  then have "insert r {w \<in> set log. tr_sequence w \<noteq> q + 1} = set (log @ [r])" by auto
  with holds_insert [of "from_slice_record cd" tr_sequence t "set log" b r "q + 1"] rep b r
  have "holds (from_slice_record cd) tr_sequence (tbl_insert t (q + 1) b) (set (log @ [r]))"
    by (simp add: rep_log_def)
  with rep rep_log_next [OF rep len] r show ?thesis by (simp add: rep_log_def)
qed

lemma rep_ids_snoc:
  assumes "rep_ids t log" and "tr_id r \<notin> tr_id ` set log"
  shows "rep_ids (tbl_insert t (tr_id r) (tr_sequence r)) (log @ [r])"
proof -
  have "find (\<lambda>x. tr_id x = tr_id r) log = None"
    using assms(2) by (simp add: find_None_image)
  with assms show ?thesis
    by (auto simp: rep_ids_def find_snoc split: option.splits)
qed

lemma rep_index_snoc:
  assumes "rep_index t log" and "nul_free (tr_entity_id r)" and "nul_free (tr_machine r)"
    and "\<And>x. x \<in> set log \<Longrightarrow> tr_sequence x \<noteq> tr_sequence r"
  shows "rep_index (tbl_insert t (fst (index_entry r)) (tr_sequence r)) (log @ [r])"
proof -
  have "fst (index_entry x) \<noteq> fst (index_entry r)" if "x \<in> set log" for x
    using assms that fmt_020_less_iff [of "tr_sequence x" "tr_sequence r"]
      fmt_020_less_iff [of "tr_sequence r" "tr_sequence x"]
    by (auto simp: rep_index_def entity_transition_key_def nul_sep_inject)
  then show ?thesis
    using assms unfolding rep_index_def tb.set_iter_insert by auto
qed

lemma rep_keys_snoc:
  "rep_keys t log \<Longrightarrow> tr_idempotency_key r = None \<Longrightarrow> rep_keys t (log @ [r])"
  "rep_keys t log \<Longrightarrow> tr_idempotency_key r = Some k \<Longrightarrow> tbl_get t k = None \<Longrightarrow>
   rep_keys (tbl_insert t k (tr_sequence r)) (log @ [r])"
  by (auto simp: rep_keys_def find_snoc split: option.splits)

lemma state_key_inject:
  "nul_free e \<Longrightarrow> nul_free e' \<Longrightarrow> entity_state_key e m = entity_state_key e' m' \<longleftrightarrow> e = e' \<and> m = m'"
  by (simp add: entity_state_key_def nul_sep_inject)

lemma rep_states_upd:
  assumes "rep_states cd t M" and "from_slice_state cd b = Inr s" and "nul_free (es_entity_id s)"
  shows "rep_states cd (tbl_insert t (state_key s) b) (M(state_id s \<mapsto> s))"
proof -
  have "{w \<in> ran M. state_id w \<noteq> state_id s} = {w \<in> ran M. state_key w \<noteq> state_key s}"
    using assms by (auto simp: rep_states_def state_key_inject)
  then have ran: "ran (M(state_id s \<mapsto> s)) = insert s {w \<in> ran M. state_key w \<noteq> state_key s}"
    using assms by (subst keyed_ran_upd [of state_id]) (auto simp: rep_states_def)
  have "holds (from_slice_state cd) state_key (tbl_insert t (state_key s) b) (ran (M(state_id s \<mapsto> s)))"
    unfolding ran using assms by (intro holds_insert) (simp_all add: rep_states_def)
  moreover have "\<forall>w \<in> ran (M(state_id s \<mapsto> s)). nul_free (es_entity_id w)"
    unfolding ran using assms by (auto simp: rep_states_def)
  ultimately show ?thesis
    using assms by (simp add: rep_states_def keyed_upd)
qed

lemma rep_machines_upd:
  assumes "rep_machines cd t M" and "from_slice_machine cd b = Inr d"
  shows "rep_machines cd (tbl_insert t (md_name d) b) (M(md_name d \<mapsto> d))"
  using assms keyed_ran_upd [of md_name M d "md_name d"] holds_insert [of _ md_name t "ran M" b d]
  by (simp add: rep_machines_def keyed_upd)

text \<open>An effect under a new identifier, and an effect whose status changes.\<close>

lemma rep_effects_new:
  assumes "rep_effects cd t by_txn M" and "from_slice_effect cd b = Inr e"
    and "nul_free (ef_transition_id e)" and "M (ef_id e) = None"
  shows "rep_effects cd (tbl_insert t (ef_id e) b) (tbl_insert by_txn (fst (txn_entry e)) (ef_id e))
           (M(ef_id e \<mapsto> e))"
proof -
  have ran: "ran (M(ef_id e \<mapsto> e)) = insert e {w \<in> ran M. ef_id w \<noteq> ef_id e}"
    using assms by (intro keyed_ran_upd) (simp_all add: rep_effects_def)
  have new: "ef_id w \<noteq> ef_id e" if "w \<in> ran M" for w
    using that assms by (auto simp: rep_effects_def keyed_ran_iff)
  then have "fst (txn_entry w) \<noteq> fst (txn_entry e)" if "w \<in> ran M" for w
    using that assms by (auto simp: rep_effects_def effect_by_txn_key_def nul_sep_inject)
  then have "set (tbl_iter (tbl_insert by_txn (fst (txn_entry e)) (ef_id e))) = txn_entry ` ran (M(ef_id e \<mapsto> e))"
    using assms new unfolding ran tb.set_iter_insert rep_effects_def by auto
  moreover have "holds (from_slice_effect cd) ef_id (tbl_insert t (ef_id e) b) (ran (M(ef_id e \<mapsto> e)))"
    unfolding ran using assms by (intro holds_insert) (simp_all add: rep_effects_def)
  moreover have "\<forall>w \<in> ran (M(ef_id e \<mapsto> e)). nul_free (ef_transition_id w)"
    unfolding ran using assms by (auto simp: rep_effects_def)
  ultimately show ?thesis
    using assms by (simp add: rep_effects_def keyed_upd)
qed

lemma rep_effects_status:
  assumes rep: "rep_effects cd t by_txn M" and b: "from_slice_effect cd b = Inr (e\<lparr>ef_status := v\<rparr>)"
    and e: "M i = Some e"
  shows "rep_effects cd (tbl_insert t i b) by_txn (M(i \<mapsto> e\<lparr>ef_status := v\<rparr>))"
proof -
  have kd: "keyed ef_id M" and txn: "set (tbl_iter by_txn) = txn_entry ` ran M"
    using rep by (simp_all add: rep_effects_def)
  have i: "ef_id e = i" and "e \<in> ran M"
    using kd e by (auto simp: keyed_def ran_def)
  have ran: "ran (M(i \<mapsto> e\<lparr>ef_status := v\<rparr>)) = insert (e\<lparr>ef_status := v\<rparr>) {w \<in> ran M. ef_id w \<noteq> i}"
    using kd i by (intro keyed_ran_upd) simp_all
  have "w \<in> ran M \<longleftrightarrow> w = e \<or> w \<in> ran M \<and> ef_id w \<noteq> i" for w
    using kd e i by (auto simp: keyed_ran_iff)
  then have "ran M = insert e {w \<in> ran M. ef_id w \<noteq> i}" by blast
  then have "txn_entry ` ran M = txn_entry ` insert e {w \<in> ran M. ef_id w \<noteq> i}" by (rule arg_cong)
  also have "\<dots> = txn_entry ` ran (M(i \<mapsto> e\<lparr>ef_status := v\<rparr>))"
    unfolding ran by simp
  finally have "set (tbl_iter by_txn) = txn_entry ` ran (M(i \<mapsto> e\<lparr>ef_status := v\<rparr>))"
    unfolding txn .
  moreover have "holds (from_slice_effect cd) ef_id (tbl_insert t i b) (ran (M(i \<mapsto> e\<lparr>ef_status := v\<rparr>)))"
    unfolding ran using rep b i by (intro holds_insert) (simp_all add: rep_effects_def)
  moreover have "\<forall>w \<in> ran (M(i \<mapsto> e\<lparr>ef_status := v\<rparr>)). nul_free (ef_transition_id w)"
    unfolding ran using rep \<open>e \<in> ran M\<close> by (auto simp: rep_effects_def)
  ultimately show ?thesis
    using rep i by (simp add: rep_effects_def keyed_upd)
qed

lemma add_effects_simps [simp]:
  "add_effects [] M = M"
  "add_effects (e # es) M = add_effects es (M(ef_id e \<mapsto> e))"
  by (simp_all add: add_effects_def)

lemma put_effects_rep:
  assumes "codec_ok cd" and "rep_effects cd (t_effects tx) (t_effects_by_txn tx) M"
    and "list_all (\<lambda>e. nul_free (ef_transition_id e) \<and> M (ef_id e) = None) es" and "distinct (map ef_id es)"
  shows "\<exists>t by_txn. put_effects cd no_fault i es tx = Inr (tx\<lparr>t_effects := t, t_effects_by_txn := by_txn\<rparr>) \<and>
           rep_effects cd t by_txn (add_effects es M)"
  using assms
proof (induction es arbitrary: i tx M)
  case Nil
  then show ?case
    by (intro exI [of _ "t_effects tx"] exI [of _ "t_effects_by_txn tx"]) simp
next
  case (Cons e es)
  from Cons.prems(1) obtain b where b: "enc (to_vec_effect cd) e = Inr b" "from_slice_effect cd b = Inr e"
    unfolding codec_ok_def by (blast elim: enc_obtain)
  define tx' where "tx' = tx\<lparr>t_effects := tbl_insert (t_effects tx) (ef_id e) b,
    t_effects_by_txn := tbl_insert (t_effects_by_txn tx)
      (effect_by_txn_key (ef_transition_id e) (ef_id e)) (ef_id e)\<rparr>"
  have rep: "rep_effects cd (t_effects tx') (t_effects_by_txn tx') (M(ef_id e \<mapsto> e))"
    using rep_effects_new [OF Cons.prems(2) b(2)] Cons.prems(3) by (simp add: tx'_def)
  have new: "list_all (\<lambda>x. nul_free (ef_transition_id x) \<and> (M(ef_id e \<mapsto> e)) (ef_id x) = None) es"
    using Cons.prems(3,4) by (auto simp: list_all_iff image_iff)
  have "distinct (map ef_id es)" using Cons.prems(4) by simp
  from Cons.IH [OF Cons.prems(1) rep new this, of "Suc i"] obtain t by_txn where
    "put_effects cd no_fault (Suc i) es tx' = Inr (tx'\<lparr>t_effects := t, t_effects_by_txn := by_txn\<rparr>)"
    "rep_effects cd t by_txn (add_effects es (M(ef_id e \<mapsto> e)))"
    by blast
  with b show ?case
    by (intro exI [of _ t] exI [of _ by_txn]) (simp add: Let_def tx'_def)
qed

end
