(* ===== verification/Engine.thy ===== *)
theory Engine
  imports Storage_Interface
begin

text \<open>
  The engine (\<open>crates/smdb-engine/src\<close>: \<open>engine.rs\<close>, \<open>guard.rs\<close>, \<open>error.rs\<close>,
  \<open>dispatcher.rs\<close>): the guard registry, the machine catalogue, \<open>transition\<close>, the reads,
  the subscribers and the dispatcher that delivers the log to them. The storage is a
  method table \<open>ops\<close> and its state; the operations are functions on the record \<open>engine\<close>.
  An operation that takes the entity lock runs here as one step; theory \<open>Concurrency\<close> cuts it
  into several. The clock readings and
  the UUIDs one call draws are the argument \<open>env\<close>, in the order the code draws them.
\<close>

section \<open>Errors\<close>

datatype engine_error =
  Core core_error
| Storage storage_error
| MachineNotFound string
| EntityLocked string
| ShuttingDown

fun engine_error_display :: "engine_error \<Rightarrow> string" where
  "engine_error_display (Core e) = ''core error: '' @ core_error_display e"
| "engine_error_display (Storage e) = ''storage error: '' @ storage_error_display e"
| "engine_error_display (MachineNotFound s) = ''machine not found: '' @ quoted s"
| "engine_error_display (EntityLocked s) = ''entity locked: '' @ quoted s"
| "engine_error_display ShuttingDown = ''engine is shutting down''"

section \<open>Guards\<close>

type_synonym guard_fn = "entity_state \<Rightarrow> json \<Rightarrow> bool"

record guard_registry =
  gr_guards :: "guard_name \<rightharpoonup> guard_fn"

definition registry_new :: guard_registry where
  "registry_new = \<lparr>gr_guards = Map.empty\<rparr>"

definition registry_register :: "guard_registry \<Rightarrow> guard_name \<Rightarrow> guard_fn \<Rightarrow> guard_registry" where
  "registry_register reg name guard = reg\<lparr>gr_guards := (gr_guards reg)(name \<mapsto> guard)\<rparr>"

definition registry_evaluate :: "guard_registry \<Rightarrow> guard_name \<Rightarrow> entity_state \<Rightarrow> json \<Rightarrow> bool" where
  "registry_evaluate reg name state ctx =
     (case gr_guards reg name of Some f \<Rightarrow> f state ctx | None \<Rightarrow> True)"

section \<open>State\<close>

record transition_result =
  rs_entity_id :: entity_id
  rs_machine :: machine_name
  rs_from_state :: state_name
  rs_to_state :: state_name
  rs_version :: version
  rs_transition_id :: transition_id
  rs_sequence :: sequence
  rs_timestamp :: datetime

text \<open>
  A subscriber: \<open>sb_queue\<close> is what has been sent into its channel, oldest first, and
  \<open>sb_open\<close> whether the receiving half still exists (\<open>send\<close> fails once it is dropped).
\<close>

record subscriber =
  sb_id :: string
  sb_machine_filter :: "machine_name option"
  sb_queue :: "change_record list"
  sb_open :: bool
  sb_delivered_through :: sequence

text \<open>\<open>en_notify\<close> is the permit \<open>notify_one\<close> leaves for the dispatcher.\<close>

record 's engine =
  en_storage :: 's
  en_guards :: guard_registry
  en_subscribers :: "subscriber list"
  en_notify :: bool
  en_shutdown :: bool

definition engine_new :: "'s \<Rightarrow> 's engine" where
  "engine_new storage = \<lparr>en_storage = storage, en_guards = registry_new, en_subscribers = [],
     en_notify = False, en_shutdown = False\<rparr>"

record env =
  clock :: "nat \<Rightarrow> datetime"
  uuid :: "nat \<Rightarrow> string"

section \<open>Administration and machines\<close>

definition shutdown :: "'s engine \<Rightarrow> 's engine" where
  "shutdown eng = eng\<lparr>en_shutdown := True\<rparr>"

definition register_guard :: "'s engine \<Rightarrow> guard_name \<Rightarrow> guard_fn \<Rightarrow> 's engine" where
  "register_guard eng name guard = eng\<lparr>en_guards := registry_register (en_guards eng) name guard\<rparr>"

definition define_machine ::
  "'s storage_engine \<Rightarrow> 's engine \<Rightarrow> machine_definition \<Rightarrow> (engine_error + unit) \<times> 's engine" where
  "define_machine ops eng definition =
     (case validate definition of
        Inl e \<Rightarrow> (Inl (Core e), eng)
      | Inr _ \<Rightarrow>
          (case op_store_machine ops (en_storage eng) definition of
             (r, s) \<Rightarrow> (map_err Storage r, eng\<lparr>en_storage := s\<rparr>)))"

definition engine_get_machine ::
  "'s storage_engine \<Rightarrow> 's engine \<Rightarrow> machine_name \<Rightarrow> engine_error + machine_definition" where
  "engine_get_machine ops eng name = map_err Storage (op_get_machine ops (en_storage eng) name None)"

definition engine_list_machines ::
  "'s storage_engine \<Rightarrow> 's engine \<Rightarrow> engine_error + machine_definition list" where
  "engine_list_machines ops eng = map_err Storage (op_list_machines ops (en_storage eng))"

section \<open>Transitions\<close>

text \<open>The result an idempotency key already used returns (lines 142 to 155).\<close>

definition result_of_record :: "transition_record \<Rightarrow> transition_result" where
  "result_of_record existing = \<lparr>rs_entity_id = tr_entity_id existing, rs_machine = tr_machine existing,
     rs_from_state = tr_from_state existing, rs_to_state = tr_to_state existing,
     rs_version = tr_version existing, rs_transition_id = tr_id existing,
     rs_sequence = tr_sequence existing, rs_timestamp = tr_timestamp existing\<rparr>"

definition idempotent_replay ::
  "'s storage_engine \<Rightarrow> 's \<Rightarrow> idempotency_key option \<Rightarrow> transition_result option" where
  "idempotent_replay ops s idempotency_key =
     (case idempotency_key of
        None \<Rightarrow> None
      | Some key \<Rightarrow>
          (case op_check_idempotency ops s key of
             Inr (Some existing) \<Rightarrow> Some (result_of_record existing)
           | _ \<Rightarrow> None))"

text \<open>Current state, version and creation time; an unknown entity is in the initial state at version 0.\<close>

definition load_state ::
  "'s storage_engine \<Rightarrow> 's \<Rightarrow> datetime \<Rightarrow> machine_definition \<Rightarrow> entity_id \<Rightarrow> machine_name
    \<Rightarrow> engine_error + state_name \<times> version \<times> datetime" where
  "load_state ops s now definition entity_id machine_name =
     (case op_get_entity_state ops s entity_id machine_name of
        Inr state \<Rightarrow> Inr (es_current_state state, es_version state, es_created_at state)
      | Inl (NotFound _) \<Rightarrow> Inr (md_initial_state definition, 0, now)
      | Inl e \<Rightarrow> Inl (Storage e))"

definition check_expected ::
  "entity_id \<Rightarrow> machine_name \<Rightarrow> version option \<Rightarrow> version \<Rightarrow> engine_error + unit" where
  "check_expected entity_id machine_name expected_version current_version =
     (case expected_version of
        None \<Rightarrow> Inr ()
      | Some expected \<Rightarrow>
          if expected \<noteq> current_version
          then Inl (Core (VersionConflict entity_id machine_name expected current_version))
          else Inr ())"

text \<open>The guards of a rule, evaluated on the current state and collected into a map.\<close>

definition guard_results ::
  "guard_registry \<Rightarrow> transition_rule \<Rightarrow> entity_state \<Rightarrow> json \<Rightarrow> guard_name \<rightharpoonup> bool" where
  "guard_results reg rule dummy_state ctx =
     map_of (rev (map (\<lambda>g. (g, registry_evaluate reg g dummy_state ctx)) (rl_guards rule)))"

definition build_effects :: "env \<Rightarrow> transition_id \<Rightarrow> effect_rule list \<Rightarrow> effect list" where
  "build_effects env tid effect_rules =
     map (\<lambda>(i, er). effect_new (uuid env (Suc i)) (clock env (4 + i)) tid (er_effect er)
            (case er_payload er of Some p \<Rightarrow> p | None \<Rightarrow> json_default))
       (enumerate 0 effect_rules)"

text \<open>
  Everything between the idempotency check and the commit (lines 157 to 236): reading the
  definition, and what is done with it.
\<close>

definition prepare_with ::
  "'s storage_engine \<Rightarrow> env \<Rightarrow> guard_registry \<Rightarrow> 's \<Rightarrow> entity_id \<Rightarrow> machine_name \<Rightarrow> event_name
    \<Rightarrow> actor_id \<Rightarrow> json \<Rightarrow> version option \<Rightarrow> idempotency_key option \<Rightarrow> machine_definition
    \<Rightarrow> engine_error + transition_record \<times> entity_state \<times> effect list" where
  "prepare_with ops env guards s entity_id machine_name event actor ctx expected_version idempotency_key definition =
    (let now = clock env 0 in
     rbind (load_state ops s now definition entity_id machine_name)
       (\<lambda>(current_state, current_version, created_at).
     rbind (check_expected entity_id machine_name expected_version current_version) (\<lambda>_.
     rbind (map_err Core (plan_transition definition current_state event entity_id)) (\<lambda>rule.
     let dummy_state = \<lparr>es_entity_id = entity_id, es_machine = machine_name,
           es_current_state = current_state, es_version = current_version,
           es_updated_at = clock env 1, es_created_at = clock env 2\<rparr>
     in
     rbind (map_err Core (validate_guards rule (guard_results guards rule dummy_state ctx))) (\<lambda>_.
     let record = build_transition_record (uuid env 0) (clock env 3) entity_id machine_name
           current_state (rl_to_state rule) event actor ctx idempotency_key;
         effects = build_effects env (tr_id record) (compute_effects definition event);
         new_version = current_version + 1;
         new_state = \<lparr>es_entity_id = entity_id, es_machine = machine_name,
           es_current_state = rl_to_state rule, es_version = new_version,
           es_updated_at = now, es_created_at = created_at\<rparr>
     in Inr (record\<lparr>tr_version := new_version\<rparr>, new_state, effects))))))"

definition prepare ::
  "'s storage_engine \<Rightarrow> env \<Rightarrow> guard_registry \<Rightarrow> 's \<Rightarrow> entity_id \<Rightarrow> machine_name \<Rightarrow> event_name
    \<Rightarrow> actor_id \<Rightarrow> json \<Rightarrow> version option \<Rightarrow> idempotency_key option
    \<Rightarrow> engine_error + transition_record \<times> entity_state \<times> effect list" where
  "prepare ops env guards s entity_id machine_name event actor ctx expected_version idempotency_key =
     rbind (map_err Storage (op_get_machine ops s machine_name None))
       (prepare_with ops env guards s entity_id machine_name event actor ctx expected_version idempotency_key)"

text \<open>The commit, the wake-up of the dispatcher and the result.\<close>

definition commit_prepared ::
  "'s storage_engine \<Rightarrow> 's engine \<Rightarrow> entity_id \<Rightarrow> machine_name
    \<Rightarrow> transition_record \<Rightarrow> entity_state \<Rightarrow> effect list \<Rightarrow> (engine_error + transition_result) \<times> 's engine" where
  "commit_prepared ops eng entity_id machine_name record new_state effects =
     (case op_execute_transition ops (en_storage eng) record new_state effects of
        (Inl e, s) \<Rightarrow> (Inl (Storage e), eng\<lparr>en_storage := s\<rparr>)
      | (Inr (sequence, record), s) \<Rightarrow>
          (Inr \<lparr>rs_entity_id = entity_id, rs_machine = machine_name,
                rs_from_state = tr_from_state record, rs_to_state = tr_to_state record,
                rs_version = es_version new_state, rs_transition_id = tr_id record,
                rs_sequence = sequence, rs_timestamp = tr_timestamp record\<rparr>,
           eng\<lparr>en_storage := s, en_notify := True\<rparr>))"

definition transition ::
  "'s storage_engine \<Rightarrow> env \<Rightarrow> 's engine \<Rightarrow> entity_id \<Rightarrow> machine_name \<Rightarrow> event_name
    \<Rightarrow> actor_id \<Rightarrow> json \<Rightarrow> version option \<Rightarrow> idempotency_key option
    \<Rightarrow> (engine_error + transition_result) \<times> 's engine" where
  "transition ops env eng entity_id machine_name event actor ctx expected_version idempotency_key =
     (if en_shutdown eng then (Inl ShuttingDown, eng)
      else case idempotent_replay ops (en_storage eng) idempotency_key of
        Some existing \<Rightarrow> (Inr existing, eng)
      | None \<Rightarrow>
          (case prepare ops env (en_guards eng) (en_storage eng) entity_id machine_name event actor
                  ctx expected_version idempotency_key of
             Inl e \<Rightarrow> (Inl e, eng)
           | Inr (record, new_state, effects) \<Rightarrow>
               commit_prepared ops eng entity_id machine_name record new_state effects))"

section \<open>Reads\<close>

definition current :: "'s storage_engine \<Rightarrow> 's engine \<Rightarrow> entity_id \<Rightarrow> machine_name \<Rightarrow> engine_error + entity_state" where
  "current ops eng entity_id machine =
     map_err Storage (op_get_entity_state ops (en_storage eng) entity_id machine)"

definition history ::
  "'s storage_engine \<Rightarrow> 's engine \<Rightarrow> entity_id \<Rightarrow> machine_name \<Rightarrow> u32 option \<Rightarrow> sequence option
    \<Rightarrow> engine_error + transition_record list" where
  "history ops eng entity_id machine limit after_sequence =
     map_err Storage (op_get_history ops (en_storage eng) entity_id machine limit after_sequence)"

section \<open>Subscriptions\<close>

definition subscribe :: "'s engine \<Rightarrow> string \<Rightarrow> machine_name option \<Rightarrow> sequence \<Rightarrow> 's engine" where
  "subscribe eng sid machine_filter after_sequence =
     eng\<lparr>en_subscribers := en_subscribers eng @
           [\<lparr>sb_id = sid, sb_machine_filter = machine_filter, sb_queue = [], sb_open = True,
             sb_delivered_through = after_sequence\<rparr>],
         en_notify := True\<rparr>"

definition unsubscribe :: "'s engine \<Rightarrow> string \<Rightarrow> 's engine" where
  "unsubscribe eng sid = eng\<lparr>en_subscribers := filter (\<lambda>s. sb_id s \<noteq> sid) (en_subscribers eng)\<rparr>"

text \<open>The receiving half of the \<open>i\<close>-th subscriber's channel is dropped.\<close>

definition receiver_dropped :: "'s engine \<Rightarrow> nat \<Rightarrow> 's engine" where
  "receiver_dropped eng i = eng\<lparr>en_subscribers :=
     (en_subscribers eng)[i := (en_subscribers eng ! i)\<lparr>sb_open := False\<rparr>]\<rparr>"

section \<open>Configuration\<close>

text \<open>\<open>EngineConfig\<close> (\<open>crates/smdb-engine/src/config.rs\<close>) is declared and exported; no operation reads it.\<close>

datatype fsync_mode = Synchronous | Relaxed

record engine_config =
  ec_data_dir :: string
  ec_fsync_mode :: fsync_mode
  ec_dispatcher_interval_ms :: u64
  ec_max_subscribers :: nat

definition engine_config_default :: engine_config where
  "engine_config_default = \<lparr>ec_data_dir = ''data'', ec_fsync_mode = Synchronous,
     ec_dispatcher_interval_ms = 100, ec_max_subscribers = 1024\<rparr>"

end
