(* ===== verification/Dispatch.thy ===== *)
theory Dispatch
  imports Engine
begin

text \<open>
  Delivery of the change stream: \<open>Engine::dispatch_pass\<close>
  (\<open>crates/smdb-engine/src/engine.rs\<close>) and the \<open>Dispatcher\<close>
  (\<open>crates/smdb-engine/src/dispatcher.rs\<close>) that calls it and drains the effect outbox.
  The drain loop of one subscriber is a partial function, \<open>None\<close> meaning that it does not
  return; under the storage contract it always returns. Whether a receiver still exists
  is read at the start of a pass.
\<close>

section \<open>Operations\<close>

definition BATCH :: u32 where
  "BATCH = 256"

definition change_record_of :: "transition_record \<Rightarrow> effect list \<Rightarrow> change_record" where
  "change_record_of rec effects = \<lparr>cr_sequence = tr_sequence rec, cr_transition_id = tr_id rec,
     cr_entity_id = tr_entity_id rec, cr_machine = tr_machine rec, cr_from_state = tr_from_state rec,
     cr_to_state = tr_to_state rec, cr_event = tr_event rec, cr_actor = tr_actor rec,
     cr_version = tr_version rec, cr_timestamp = tr_timestamp rec, cr_ctx = tr_ctx rec,
     cr_effects = map (\<lambda>e. \<lparr>ep_effect_name = ef_effect_name e, ep_payload = ef_payload e\<rparr>) effects\<rparr>"

definition effects_or_default :: "'s storage_engine \<Rightarrow> 's \<Rightarrow> transition_id \<Rightarrow> effect list" where
  "effects_or_default ops s tid =
     (case op_get_effects_for_transition ops s tid of Inr effects \<Rightarrow> effects | Inl _ \<Rightarrow> [])"

definition passes_filter :: "machine_name option \<Rightarrow> transition_record \<Rightarrow> bool" where
  "passes_filter machine_filter rec = (case machine_filter of None \<Rightarrow> True | Some f \<Rightarrow> tr_machine rec = f)"

text \<open>
  The loop over one batch: the subscriber, its cursor, the number delivered, and whether
  a send failed.
\<close>

fun deliver_batch ::
  "'s storage_engine \<Rightarrow> 's \<Rightarrow> subscriber \<Rightarrow> sequence \<Rightarrow> nat \<Rightarrow> transition_record list
    \<Rightarrow> subscriber \<times> sequence \<times> nat \<times> bool" where
  "deliver_batch ops s sub cursor delivered [] = (sub, cursor, delivered, False)"
| "deliver_batch ops s sub cursor delivered (rec # rest) =
     (let cursor = tr_sequence rec
      in if \<not> passes_filter (sb_machine_filter sub) rec
         then deliver_batch ops s sub cursor delivered rest
         else let change = change_record_of rec (effects_or_default ops s (tr_id rec))
              in if \<not> sb_open sub then (sub, cursor, delivered, True)
                 else deliver_batch ops s (sub\<lparr>sb_queue := sb_queue sub @ [change]\<rparr>) cursor
                        (delivered + 1) rest)"

partial_function (option) drain ::
  "'s storage_engine \<Rightarrow> 's \<Rightarrow> subscriber \<Rightarrow> nat \<Rightarrow> (subscriber \<times> nat \<times> bool) option" where
  "drain ops s sub delivered =
     (case op_get_transitions_after ops s (sb_delivered_through sub) BATCH of
        Inl _ \<Rightarrow> Some (sub, delivered, False)
      | Inr records \<Rightarrow>
          if records = [] then Some (sub, delivered, False)
          else case deliver_batch ops s sub (sb_delivered_through sub) delivered records of
            (sub, cursor, delivered, is_dead) \<Rightarrow>
              if is_dead then Some (sub\<lparr>sb_delivered_through := cursor\<rparr>, delivered, True)
              else if length records < unat BATCH
              then Some (sub\<lparr>sb_delivered_through := cursor\<rparr>, delivered, False)
              else drain ops s (sub\<lparr>sb_delivered_through := cursor\<rparr>) delivered)"

fun dispatch_subs ::
  "'s storage_engine \<Rightarrow> 's \<Rightarrow> subscriber list \<Rightarrow> nat \<Rightarrow> string list
    \<Rightarrow> (subscriber list \<times> nat \<times> string list) option" where
  "dispatch_subs ops s [] delivered dead = Some ([], delivered, dead)"
| "dispatch_subs ops s (sub # subs) delivered dead =
     Option.bind (drain ops s sub delivered) (\<lambda>(sub, delivered, is_dead).
     Option.bind (dispatch_subs ops s subs delivered (if is_dead then dead @ [sb_id sub] else dead))
       (\<lambda>(subs, delivered, dead). Some (sub # subs, delivered, dead)))"

definition dispatch_pass :: "'s storage_engine \<Rightarrow> 's engine \<Rightarrow> (nat \<times> 's engine) option" where
  "dispatch_pass ops eng =
     Option.bind (dispatch_subs ops (en_storage eng) (en_subscribers eng) 0 []) (\<lambda>(subs, delivered, dead).
       Some (delivered,
         eng\<lparr>en_subscribers := if dead \<noteq> [] then filter (\<lambda>s. sb_id s \<notin> set dead) subs else subs\<rparr>))"

text \<open>\<open>Dispatcher::dispatch\<close>: the pass, then the outbox.\<close>

fun publish_effects :: "'s storage_engine \<Rightarrow> 's \<Rightarrow> effect list \<Rightarrow> 's" where
  "publish_effects ops s [] = s"
| "publish_effects ops s (effect # rest) =
     (case op_mark_effect_published ops s (ef_id effect) of
        (Inr _, s) \<Rightarrow> publish_effects ops s rest
      | (Inl _, s) \<Rightarrow> publish_effects ops (snd (op_mark_effect_failed ops s (ef_id effect))) rest)"

definition dispatch :: "'s storage_engine \<Rightarrow> 's engine \<Rightarrow> (nat \<times> 's engine) option" where
  "dispatch ops eng =
     Option.bind (dispatch_pass ops eng) (\<lambda>(delivered, eng).
       Some (delivered,
         case op_get_pending_effects ops (en_storage eng) 256 of
           Inr effects \<Rightarrow> eng\<lparr>en_storage := publish_effects ops (en_storage eng) effects\<rparr>
         | Inl _ \<Rightarrow> eng))"

text \<open>
  \<open>Dispatcher::run\<close> on the sequence of its wake-ups: a change of the shutdown flag (with its
  new value), a commit notification (which takes the permit), a timer tick. The boolean
  of the result says whether the loop has returned.
\<close>

datatype wake = ShutdownChanged bool | Notified | Elapsed

fun dispatcher_run :: "'s storage_engine \<Rightarrow> wake list \<Rightarrow> 's engine \<Rightarrow> ('s engine \<times> bool) option" where
  "dispatcher_run ops [] eng = Some (eng, False)"
| "dispatcher_run ops (ShutdownChanged b # wakes) eng =
     (if b then Option.bind (dispatch ops eng) (\<lambda>(_, eng). Some (eng, True))
      else dispatcher_run ops wakes eng)"
| "dispatcher_run ops (Notified # wakes) eng =
     Option.bind (dispatch ops (eng\<lparr>en_notify := False\<rparr>)) (\<lambda>(_, eng). dispatcher_run ops wakes eng)"
| "dispatcher_run ops (Elapsed # wakes) eng =
     Option.bind (dispatch ops eng) (\<lambda>(_, eng). dispatcher_run ops wakes eng)"

section \<open>One subscriber\<close>

text \<open>What a subscriber is owed: the records after its cursor that pass its filter.\<close>

definition owed :: "store \<Rightarrow> subscriber \<Rightarrow> transition_record list" where
  "owed st sub = filter (passes_filter (sb_machine_filter sub)) (log_after st (sb_delivered_through sub))"

text \<open>The change record of a log record: its effects are those stored for it, by identifier.\<close>

definition is_change :: "store \<Rightarrow> transition_record \<Rightarrow> change_record \<Rightarrow> bool" where
  "is_change st rec c \<longleftrightarrow>
     (\<exists>es. effects_listing st (\<lambda>e. ef_transition_id e = tr_id rec) es \<and> c = change_record_of rec es)"

text \<open>The cursor after inspecting some records.\<close>

fun last_seq :: "sequence \<Rightarrow> transition_record list \<Rightarrow> sequence" where
  "last_seq a [] = a"
| "last_seq a (r # rs) = last_seq (tr_sequence r) rs"

lemma last_seq_append [simp]: "last_seq a (xs @ ys) = last_seq (last_seq a xs) ys"
  by (induction xs arbitrary: a) auto

lemma last_seq_last: "xs \<noteq> [] \<Longrightarrow> last_seq a xs = tr_sequence (last xs)"
  by (induction xs arbitrary: a rule: rev_induct) auto

lemma deliver_batch_open:
  assumes "sb_open sub"
  shows "deliver_batch ops s sub cursor n rs =
    (sub\<lparr>sb_queue := sb_queue sub @
       map (\<lambda>r. change_record_of r (effects_or_default ops s (tr_id r)))
         (filter (passes_filter (sb_machine_filter sub)) rs)\<rparr>,
     last_seq cursor rs, n + length (filter (passes_filter (sb_machine_filter sub)) rs), False)"
  using assms
  by (induction rs arbitrary: sub cursor n) (auto simp: Let_def)

end
