(* ===== verification/Engine_Spec.thy ===== *)
theory Engine_Spec
  imports Dispatch
begin

text \<open>
  What the engine guarantees over any storage that keeps its contract: the invariant
  \<open>consistent\<close> of the stored data (the projection is the replay of the log; the history
  of each entity is a chain of transitions with versions 1, 2, \<open>\<dots>\<close>; an idempotency key
  is used once; the outbox belongs to the log), its preservation by every operation even
  when storage calls fail, and the result of \<open>transition\<close> and of the dispatcher.
\<close>

section \<open>The invariant\<close>

text \<open>The state and version of every entity, computed from the log alone.\<close>

definition replay :: "transition_record list \<Rightarrow> entity_id \<times> machine_name \<rightharpoonup> state_name \<times> version" where
  "replay log = fold (\<lambda>r M. M((tr_entity_id r, tr_machine r) \<mapsto> (tr_to_state r, tr_version r))) log Map.empty"

definition projection :: "store \<Rightarrow> entity_id \<times> machine_name \<rightharpoonup> state_name \<times> version" where
  "projection st k = map_option (\<lambda>s. (es_current_state s, es_version s)) (st_states st k)"

definition chain :: "transition_record list \<Rightarrow> bool" where
  "chain h \<longleftrightarrow> map (\<lambda>r. unat (tr_version r)) h = [1..<Suc (length h)] \<and>
     successively (\<lambda>a b. tr_to_state a = tr_from_state b) h"

definition used_keys :: "transition_record list \<Rightarrow> idempotency_key list" where
  "used_keys log = concat (map (\<lambda>r. case tr_idempotency_key r of None \<Rightarrow> [] | Some k \<Rightarrow> [k]) log)"

definition consistent :: "store \<Rightarrow> bool" where
  "consistent st \<longleftrightarrow>
     projection st = replay (st_log st) \<and>
     (\<forall>e m. chain (history_of st e m)) \<and>
     distinct (used_keys (st_log st)) \<and>
     (\<forall>ef \<in> ran (st_effects st). ef_transition_id ef \<in> tr_id ` set (st_log st))"

lemma consistent_empty: "consistent empty_store"
  by (auto simp: consistent_def empty_store_def projection_def replay_def history_of_def chain_def
      used_keys_def)

lemma replay_snoc: "replay (log @ [r]) = (replay log)((tr_entity_id r, tr_machine r) \<mapsto> (tr_to_state r, tr_version r))"
  by (simp add: replay_def)

lemma replay_last:
  "replay log (e, m) =
     (let h = filter (\<lambda>r. tr_entity_id r = e \<and> tr_machine r = m) log
      in if h = [] then None else Some (tr_to_state (last h), tr_version (last h)))"
  by (induction log rule: rev_induct) (auto simp: replay_snoc Let_def, simp add: replay_def)

lemma used_keys_snoc:
  "used_keys (log @ [r]) = used_keys log @ (case tr_idempotency_key r of None \<Rightarrow> [] | Some k \<Rightarrow> [k])"
  by (simp add: used_keys_def)

lemma keyed_record_None_iff: "keyed_record st k = None \<longleftrightarrow> k \<notin> set (used_keys (st_log st))"
  by (force simp: keyed_record_def find_None_iff used_keys_def split: option.splits)

lemma history_of_commit:
  "history_of (commit_store st r ns efs) e m = history_of st e m @
     (if tr_entity_id r = e \<and> tr_machine r = m then [r\<lparr>tr_sequence := next_seq st\<rparr>] else [])"
  by (simp add: history_of_def commit_store_def)

lemma chain_snoc:
  assumes "chain h" and "unat (tr_version r) = Suc (length h)"
    and "h \<noteq> [] \<Longrightarrow> tr_to_state (last h) = tr_from_state r"
  shows "chain (h @ [r])"
  using assms by (auto simp: chain_def successively_append_iff)

lemma chain_last_version: "chain h \<Longrightarrow> h \<noteq> [] \<Longrightarrow> unat (tr_version (last h)) = length h"
proof -
  assume "chain h" and "h \<noteq> []"
  then have "last (map (\<lambda>r. unat (tr_version r)) h) = last [1..<Suc (length h)]"
    by (simp only: chain_def)
  moreover have "Suc 0 \<le> length h" using \<open>h \<noteq> []\<close> by (cases h) auto
  ultimately show ?thesis using \<open>h \<noteq> []\<close> by (simp add: last_map)
qed

text \<open>What the projection says of the history of an entity.\<close>

lemma consistent_state:
  assumes "consistent st" and "st_states st (e, m) = Some s"
  shows "history_of st e m \<noteq> []" and "es_current_state s = tr_to_state (last (history_of st e m))"
    and "unat (es_version s) = length (history_of st e m)"
proof -
  have "replay (st_log st) (e, m) = Some (es_current_state s, es_version s)"
    using assms by (metis consistent_def projection_def option.map(2))
  then have h: "history_of st e m \<noteq> []"
    "es_current_state s = tr_to_state (last (history_of st e m))"
    "es_version s = tr_version (last (history_of st e m))"
    by (auto simp: replay_last history_of_def Let_def split: if_splits)
  moreover have "chain (history_of st e m)" using assms(1) by (simp add: consistent_def)
  ultimately show "history_of st e m \<noteq> []" and "es_current_state s = tr_to_state (last (history_of st e m))"
    and "unat (es_version s) = length (history_of st e m)"
    by (simp_all add: chain_last_version)
qed

lemma consistent_no_state:
  assumes "consistent st" and "st_states st (e, m) = None"
  shows "history_of st e m = []"
proof -
  have "replay (st_log st) (e, m) = None"
    using assms by (metis consistent_def projection_def option.map(1))
  then show ?thesis by (auto simp: replay_last history_of_def Let_def split: if_splits)
qed

lemma length_history: "length (history_of st e m) \<le> length (st_log st)"
  by (simp add: history_of_def)

lemma ran_add_effects: "ran (add_effects efs M) \<subseteq> ran M \<union> set efs"
proof (induction efs arbitrary: M)
  case Nil
  then show ?case by (simp add: add_effects_def)
next
  case (Cons e efs)
  have "add_effects (e # efs) M = add_effects efs (M(ef_id e \<mapsto> e))"
    by (simp add: add_effects_def)
  moreover have "ran (M(ef_id e \<mapsto> e)) \<subseteq> insert e (ran M)" by (auto simp: ran_def)
  moreover have "ran (add_effects efs (M(ef_id e \<mapsto> e))) \<subseteq> ran (M(ef_id e \<mapsto> e)) \<union> set efs"
    by (rule Cons.IH)
  ultimately show ?case by (auto simp del: fun_upd_apply)
qed

text \<open>
  A record and a projected state that continue the stored state of their entity, as
  \<open>transition\<close> prepares them.
\<close>

definition continues :: "store \<Rightarrow> transition_record \<Rightarrow> entity_state \<Rightarrow> effect list \<Rightarrow> bool" where
  "continues st r ns efs \<longleftrightarrow>
     tr_entity_id r = es_entity_id ns \<and> tr_machine r = es_machine ns \<and>
     tr_to_state r = es_current_state ns \<and> tr_version r = es_version ns \<and>
     (\<forall>e \<in> set efs. ef_transition_id e = tr_id r) \<and>
     (case st_states st (es_entity_id ns, es_machine ns) of
        None \<Rightarrow> es_version ns = 1
      | Some s \<Rightarrow> tr_from_state r = es_current_state s \<and> es_version ns = es_version s + 1)"

lemma continues_version:
  assumes "consistent st" and "continues st r ns efs" and "Suc (length (st_log st)) < 2 ^ 64"
  shows "unat (tr_version r) = Suc (length (history_of st (tr_entity_id r) (tr_machine r)))"
proof (cases "st_states st (es_entity_id ns, es_machine ns)")
  case None
  with assms consistent_no_state [OF assms(1)] show ?thesis by (simp add: continues_def)
next
  case (Some s)
  note v = consistent_state(3) [OF assms(1) Some]
  with length_history [of st "es_entity_id ns" "es_machine ns"] assms(3)
  have "unat (es_version s) + 1 < 2 ^ 64" by linarith
  then have "unat (es_version s + 1) = Suc (unat (es_version s))" by (simp add: unat_plus_one)
  with assms(2) Some v show ?thesis by (simp add: continues_def)
qed

lemma consistent_commit:
  assumes cons: "consistent st" and cont: "continues st r ns efs"
    and len: "Suc (length (st_log st)) < 2 ^ 64" and ok: "commit st r ns efs = Inr (x, st')"
  shows "consistent st' \<and> st' = commit_store st r ns efs"
proof -
  have st': "st' = commit_store st r ns efs" and key: "\<And>k. tr_idempotency_key r = Some k \<Longrightarrow> keyed_record st k = None"
    using ok by (auto simp: commit_def split: option.splits if_splits)
  have "projection st' = replay (st_log st')"
    using cons cont
    by (auto simp: st' commit_store_def consistent_def continues_def replay_snoc projection_def fun_eq_iff)
  moreover have "chain (history_of st' e m)" for e m
  proof (cases "tr_entity_id r = e \<and> tr_machine r = m")
    case True
    have "history_of st e m \<noteq> [] \<Longrightarrow> tr_to_state (last (history_of st e m)) = tr_from_state r"
      using True cont consistent_no_state [OF cons, of e m] consistent_state(2) [OF cons, of e m]
      by (auto simp: continues_def split: option.splits)
    with True cons continues_version [OF cons cont len] show ?thesis
      by (auto simp: st' history_of_commit consistent_def intro!: chain_snoc)
  qed (use cons in \<open>auto simp: st' history_of_commit consistent_def\<close>)
  moreover have "distinct (used_keys (st_log st'))"
    using cons key by (auto simp: st' commit_store_def consistent_def used_keys_snoc keyed_record_None_iff
        split: option.splits)
  moreover have "ef_transition_id ef \<in> tr_id ` set (st_log st')" if "ef \<in> ran (st_effects st')" for ef
    using that ran_add_effects [of efs "st_effects st"] cons cont
    by (auto simp: st' commit_store_def consistent_def continues_def)
  ultimately show ?thesis by (simp add: consistent_def st')
qed

text \<open>
  Well-typed stores: every stored machine has passed validation and is stored under its name, and
  every logged transition is an instance of a rule of a validated definition of its machine.
\<close>

definition conforms :: "transition_record \<Rightarrow> bool" where
  "conforms r \<longleftrightarrow> (\<exists>d rule. well_formed d \<and> md_name d = tr_machine r \<and> rule \<in> set (md_transitions d) \<and>
     rl_event rule = tr_event r \<and> tr_from_state r \<in> set (rl_from_states rule) \<and> tr_to_state r = rl_to_state rule)"

definition well_typed :: "store \<Rightarrow> bool" where
  "well_typed st \<longleftrightarrow>
     (\<forall>n d. st_machines st n = Some d \<longrightarrow> well_formed d \<and> md_name d = n) \<and> (\<forall>r \<in> set (st_log st). conforms r)"

lemma conforms_sequence [simp]: "conforms (r\<lparr>tr_sequence := q\<rparr>) \<longleftrightarrow> conforms r"
  by (simp add: conforms_def)

lemma well_typed_commit: "well_typed st \<Longrightarrow> conforms r \<Longrightarrow> well_typed (commit_store st r ns efs)"
  by (auto simp: well_typed_def commit_store_def)

lemma well_typed_machines:
  assumes "well_typed st" and "st_log st' = st_log st"
    and "st_machines st' = st_machines st \<or> validate d = Inr () \<and> st_machines st' = (st_machines st)(md_name d \<mapsto> d)"
  shows "well_typed st'"
  using assms by (auto simp: well_typed_def validate_iff_well_formed split: if_splits)

section \<open>Preparing a transition\<close>

text \<open>The identifiers the calls of a run draw: call \<open>j\<close> draws \<open>uuid (envs j) 0\<close>, \<open>uuid (envs j) 1\<close>, \<open>\<dots>\<close>\<close>

type_synonym uuid_supply = "nat \<Rightarrow> env"

definition good_supply :: "uuid_supply \<Rightarrow> bool" where
  "good_supply envs \<longleftrightarrow>
     (\<forall>j k j' k'. uuid (envs j) k = uuid (envs j') k' \<longrightarrow> j = j' \<and> k = k') \<and>
     (\<forall>j k. nul_free (uuid (envs j) k))"

definition drawn :: "uuid_supply \<Rightarrow> nat \<Rightarrow> string set" where
  "drawn envs n = {uuid (envs j) k |j k. j < n}"

definition from_supply :: "uuid_supply \<Rightarrow> nat \<Rightarrow> store \<Rightarrow> bool" where
  "from_supply envs n st \<longleftrightarrow>
     tr_id ` set (st_log st) \<subseteq> drawn envs n \<and> dom (st_effects st) \<subseteq> drawn envs n \<and> length (st_log st) \<le> n"

lemma drawn_fresh: "good_supply envs \<Longrightarrow> uuid (envs n) k \<notin> drawn envs n"
  by (force simp: good_supply_def drawn_def)

lemma drawn_mono: "drawn envs n \<subseteq> drawn envs (Suc n)"
  by (auto simp: drawn_def less_Suc_eq)

lemma drawn_now: "uuid (envs n) k \<in> drawn envs (Suc n)"
  by (auto simp: drawn_def)

lemma from_supply_mono: "from_supply envs n st \<Longrightarrow> from_supply envs (Suc n) st"
  using drawn_mono [of envs n] by (auto simp: from_supply_def)

lemma build_effects_ids: "map ef_id (build_effects env tid rules) = map (\<lambda>i. uuid env (Suc i)) [0..<length rules]"
  by (auto simp: build_effects_def effect_new_def enumerate_eq_zip comp_def case_prod_beta
      map_zip_map2 intro!: nth_equalityI)

lemma build_effects_tid: "ef \<in> set (build_effects env tid rules) \<Longrightarrow>
  ef_transition_id ef = tid \<and> ef_status ef = Pending"
  by (auto simp: build_effects_def effect_new_def)

text \<open>The state and version a transition starts from.\<close>

definition state_of :: "store \<Rightarrow> machine_definition \<Rightarrow> entity_id \<Rightarrow> machine_name \<Rightarrow> state_name" where
  "state_of st d e m = (case st_states st (e, m) of Some x \<Rightarrow> es_current_state x | None \<Rightarrow> md_initial_state d)"

definition version_of :: "store \<Rightarrow> entity_id \<Rightarrow> machine_name \<Rightarrow> version" where
  "version_of st e m = (case st_states st (e, m) of Some x \<Rightarrow> es_version x | None \<Rightarrow> 0)"

text \<open>What a call hands to the storage: it carries the identifiers the call has drawn.\<close>

definition prepared_by ::
  "env \<Rightarrow> entity_id \<Rightarrow> machine_name \<Rightarrow> transition_record \<Rightarrow> entity_state \<Rightarrow> effect list \<Rightarrow> bool" where
  "prepared_by env e m r ns efs \<longleftrightarrow>
     tr_id r = uuid env 0 \<and> tr_entity_id r = e \<and> tr_machine r = m \<and> es_entity_id ns = e \<and> es_machine ns = m \<and>
     map ef_id efs = map (\<lambda>i. uuid env (Suc i)) [0..<length efs] \<and>
     (\<forall>ef \<in> set efs. ef_transition_id ef = tr_id r)"

lemma prepared_by_ids:
  assumes "prepared_by env e m r ns efs"
  shows "ef_id ` set efs \<subseteq> range (\<lambda>i. uuid env (Suc i))"
    and "good_supply envs \<Longrightarrow> env = envs n \<Longrightarrow> distinct (map ef_id efs)"
proof -
  have ids: "map ef_id efs = map (\<lambda>i. uuid env (Suc i)) [0..<length efs]" using assms by (simp add: prepared_by_def)
  then show "ef_id ` set efs \<subseteq> range (\<lambda>i. uuid env (Suc i))"
    by (metis list.set_map image_mono subset_UNIV)
  show "distinct (map ef_id efs)" if "good_supply envs" "env = envs n"
    using that unfolding ids by (auto simp: distinct_map inj_on_def good_supply_def)
qed

lemma prepared_admissible:
  assumes prep: "prepared_by (envs n) e m r ns efs" and nul: "nul_free e" "nul_free m"
    and good: "good_supply envs" and len: "Suc (length (st_log st)) < 2 ^ 64"
    and fresh: "\<And>k. uuid (envs n) k \<notin> tr_id ` set (st_log st) \<union> dom (st_effects st)"
  shows "admissible st r ns efs"
proof -
  have "st_effects st (ef_id ef) = None" if "ef \<in> set efs" for ef
  proof -
    from that prepared_by_ids(1) [OF prep] obtain i where "ef_id ef = uuid (envs n) (Suc i)" by blast
    with fresh [of "Suc i"] show ?thesis by (simp add: domIff)
  qed
  then show ?thesis
    using prep nul len fresh [of 0] prepared_by_ids(2) [OF prep good refl] good
    by (auto simp: admissible_def prepared_by_def list_all_iff good_supply_def)
qed

context safe_storage
begin

lemma load_state_ok:
  assumes "rep s st" and "nul_free e" and "load_state ops s now d e m = Inr (cs, cv, ca)"
  shows "case st_states st (e, m) of
      Some x \<Rightarrow> cs = es_current_state x \<and> cv = es_version x \<and> ca = es_created_at x
    | None \<Rightarrow> cs = md_initial_state d \<and> cv = 0 \<and> ca = now"
  using assms get_entity_state_ok [OF assms(1,2), of m] get_entity_state_missing [OF assms(1,2), of m]
  by (auto simp: load_state_def split: sum.splits storage_error.splits)

text \<open>All that a successful preparation establishes about what it hands to the storage.\<close>

lemma prepare_with_ok:
  assumes rep: "rep s st" and nul: "nul_free e"
    and ok: "prepare_with ops env guards s e m ev actor ctx expected key d = Inr (r, ns, efs)"
  obtains rule where
    "plan_transition d (state_of st d e m) ev e = Inr rule"
    "\<And>v. expected = Some v \<Longrightarrow> v = version_of st e m"
    "r = (build_transition_record (uuid env 0) (clock env 3) e m (state_of st d e m) (rl_to_state rule)
            ev actor ctx key)\<lparr>tr_version := version_of st e m + 1\<rparr>"
    "ns = \<lparr>es_entity_id = e, es_machine = m, es_current_state = rl_to_state rule,
           es_version = version_of st e m + 1,
           es_updated_at = clock env 0,
           es_created_at = (case st_states st (e, m) of Some x \<Rightarrow> es_created_at x | None \<Rightarrow> clock env 0)\<rparr>"
    "efs = build_effects env (uuid env 0) (compute_effects d ev)"
    "\<forall>g \<in> set (rl_guards rule). registry_evaluate guards g
       \<lparr>es_entity_id = e, es_machine = m, es_current_state = state_of st d e m, es_version = version_of st e m,
        es_updated_at = clock env 1, es_created_at = clock env 2\<rparr> ctx"
proof -
  obtain cs cv ca rule where ld: "load_state ops s (clock env 0) d e m = Inr (cs, cv, ca)"
    and ex: "check_expected e m expected cv = Inr ()"
    and pl: "plan_transition d cs ev e = Inr rule"
    and gd: "validate_guards rule (guard_results guards rule \<lparr>es_entity_id = e, es_machine = m,
        es_current_state = cs, es_version = cv, es_updated_at = clock env 1, es_created_at = clock env 2\<rparr> ctx) = Inr ()"
    and r: "r = (build_transition_record (uuid env 0) (clock env 3) e m cs (rl_to_state rule) ev actor ctx key)
        \<lparr>tr_version := cv + 1\<rparr>"
    and ns: "ns = \<lparr>es_entity_id = e, es_machine = m, es_current_state = rl_to_state rule,
        es_version = cv + 1, es_updated_at = clock env 0, es_created_at = ca\<rparr>"
    and efs: "efs = build_effects env (uuid env 0) (compute_effects d ev)"
    using ok by (auto simp: prepare_with_def Let_def build_transition_record_def)
  have guards: "\<forall>g \<in> set (rl_guards rule). registry_evaluate guards g \<lparr>es_entity_id = e, es_machine = m,
        es_current_state = cs, es_version = cv, es_updated_at = clock env 1, es_created_at = clock env 2\<rparr> ctx"
    using gd by (auto simp: validate_guards_def check_guards_Inr_iff guard_results_def dest!: bspec map_of_SomeD)
  show ?thesis
    using load_state_ok [OF rep nul ld] ex pl guards r ns efs
    by (intro that [of rule])
      (auto simp: state_of_def version_of_def check_expected_def split: option.splits if_splits)
qed

lemma prepare_Inr:
  assumes "rep s st" and "prepare ops env guards s e m ev actor ctx expected key = Inr p"
  obtains d where "st_machines st m = Some d"
    "prepare_with ops env guards s e m ev actor ctx expected key d = Inr p"
  using assms by (auto simp: prepare_def dest!: get_machine_ok)

text \<open>It continues the stored state of the entity, with identifiers of its own.\<close>

lemma prepare_with_prepared:
  assumes rep: "rep s st" and nul: "nul_free e"
    and ok: "prepare_with ops env guards s e m ev actor ctx expected key d = Inr (r, ns, efs)"
  shows "prepared_by env e m r ns efs" and "continues st r ns efs"
proof -
  obtain rule :: transition_rule where r: "r = (build_transition_record (uuid env 0) (clock env 3) e m
        (state_of st d e m) (rl_to_state rule) ev actor ctx key)\<lparr>tr_version := version_of st e m + 1\<rparr>"
    and ns: "ns = \<lparr>es_entity_id = e, es_machine = m, es_current_state = rl_to_state rule,
        es_version = version_of st e m + 1, es_updated_at = clock env 0,
        es_created_at = (case st_states st (e, m) of Some x \<Rightarrow> es_created_at x | None \<Rightarrow> clock env 0)\<rparr>"
    and efs: "efs = build_effects env (uuid env 0) (compute_effects d ev)"
    by (rule prepare_with_ok [OF rep nul ok]) blast
  have "map ef_id efs = map (\<lambda>i. uuid env (Suc i)) [0..<length efs]"
    by (simp add: efs build_effects_ids) (simp add: build_effects_def)
  with r ns efs show "prepared_by env e m r ns efs"
    by (auto simp: prepared_by_def build_transition_record_def dest: build_effects_tid)
  show "continues st r ns efs"
    using r ns by (auto simp: continues_def efs build_transition_record_def state_of_def version_of_def
        dest: build_effects_tid split: option.splits)
qed

lemma prepare_with_conforms:
  assumes rep: "rep s st" and nul: "nul_free e" and d: "well_formed d" "md_name d = m"
    and ok: "prepare_with ops env guards s e m ev actor ctx expected key d = Inr (r, ns, efs)"
  shows "conforms r"
proof -
  obtain rule where "plan_transition d (state_of st d e m) ev e = Inr rule"
    and "r = (build_transition_record (uuid env 0) (clock env 3) e m (state_of st d e m) (rl_to_state rule)
            ev actor ctx key)\<lparr>tr_version := version_of st e m + 1\<rparr>"
    by (rule prepare_with_ok [OF rep nul ok]) blast
  with d plan_transition_sound show ?thesis
    by (fastforce simp: conforms_def build_transition_record_def rule_fires_def)
qed

lemma prepare_admissible:
  assumes rep: "rep s st" and cons: "consistent st" and nul: "nul_free e" "nul_free m"
    and good: "good_supply envs" and drw: "from_supply envs n st" and n: "Suc n < 2 ^ 64"
    and ok: "prepare ops (envs n) guards s e m ev actor ctx expected key = Inr (r, ns, efs)"
  shows "admissible st r ns efs" and "continues st r ns efs"
    and "tr_id r = uuid (envs n) 0" and "ef_id ` set efs \<subseteq> drawn envs (Suc n)"
proof -
  obtain d where p: "prepare_with ops (envs n) guards s e m ev actor ctx expected key d = Inr (r, ns, efs)"
    by (rule prepare_Inr [OF rep ok])
  note prep = prepare_with_prepared [OF rep nul(1) p]
  have "uuid (envs n) k \<notin> tr_id ` set (st_log st) \<union> dom (st_effects st)" for k
    using drawn_fresh [OF good, of n k] drw by (auto simp: from_supply_def)
  moreover have "Suc (length (st_log st)) < 2 ^ 64" using drw n by (simp add: from_supply_def)
  ultimately show "admissible st r ns efs" using prepared_admissible [OF prep(1) nul good] by blast
  show "continues st r ns efs" by (rule prep(2))
  show "tr_id r = uuid (envs n) 0" using prep(1) by (simp add: prepared_by_def)
  show "ef_id ` set efs \<subseteq> drawn envs (Suc n)"
    using prepared_by_ids(1) [OF prep(1)] by (auto simp: drawn_now)
qed

lemma transition_step:
  assumes rep: "rep (en_storage eng) st" and cons: "consistent st" and nul: "nul_free e" "nul_free m"
    and good: "good_supply envs" and drw: "from_supply envs n st" and n: "Suc n < 2 ^ 64"
    and step: "transition ops (envs n) eng e m ev actor ctx expected key = (res, eng')"
  shows "\<exists>st'. rep (en_storage eng') st' \<and> consistent st' \<and> from_supply envs (Suc n) st' \<and>
    (\<exists>rs. st_log st' = st_log st @ rs)"
proof (cases "eng' = eng")
  case True
  with rep cons from_supply_mono [OF drw] show ?thesis by auto
next
  case False
  then obtain r ns efs where p: "prepare ops (envs n) (en_guards eng) (en_storage eng) e m ev actor ctx expected key
      = Inr (r, ns, efs)"
    using step by (auto simp: transition_def commit_prepared_def split: if_splits option.splits sum.splits prod.splits)
  note adm = prepare_admissible [OF rep cons nul good drw n p]
  have "\<exists>x. op_execute_transition ops (en_storage eng) r ns efs = (Inr x, en_storage eng')"
    using step False p execute_transition_atomic [of "en_storage eng" r ns efs]
    by (auto simp: transition_def commit_prepared_def split: if_splits option.splits sum.splits prod.splits)
  then obtain x st' where "commit st r ns efs = Inr (x, st')" and rep': "rep (en_storage eng') st'"
    using execute_transition_ok [OF rep adm(1)] by blast
  moreover have "Suc (length (st_log st)) < 2 ^ 64" using adm(1) by (simp add: admissible_def)
  ultimately have cons': "consistent st'" and st': "st' = commit_store st r ns efs"
    using consistent_commit [OF cons adm(2)] by blast+
  have "dom (add_effects efs M) = dom M \<union> ef_id ` set efs" for M
    by (induction efs arbitrary: M) (auto simp: add_effects_def)
  then have "from_supply envs (Suc n) st'"
    using drw adm(3,4) drawn_mono [of envs n] drawn_now [of envs n 0]
    by (auto simp: from_supply_def st' commit_store_def)
  moreover have "\<exists>rs. st_log st' = st_log st @ rs" by (simp add: st' commit_store_def)
  ultimately show ?thesis using rep' cons' by blast
qed

lemma define_machine_step:
  assumes rep: "rep (en_storage eng) st" and cons: "consistent st"
    and step: "define_machine ops eng d = (res, eng')"
  shows "\<exists>st'. rep (en_storage eng') st' \<and> consistent st' \<and>
    st_log st' = st_log st \<and> st_effects st' = st_effects st \<and>
    (st_machines st' = st_machines st \<or> validate d = Inr () \<and> st_machines st' = (st_machines st)(md_name d \<mapsto> d))"
proof (cases "\<exists>u s'. op_store_machine ops (en_storage eng) d = (Inr u, s') \<and> validate d = Inr ()")
  case True
  then obtain u s' where s': "op_store_machine ops (en_storage eng) d = (Inr u, s')" "validate d = Inr ()"
    by blast
  let ?st = "st\<lparr>st_machines := (st_machines st)(md_name d \<mapsto> d)\<rparr>"
  have "rep s' ?st" using store_machine_ok [OF rep s'(1)] .
  moreover have "consistent ?st"
    using cons by (simp add: consistent_def projection_def [abs_def] history_of_def)
  ultimately show ?thesis
    using step s' by (intro exI [of _ ?st]) (auto simp: define_machine_def)
next
  case False
  obtain q s2 where q: "op_store_machine ops (en_storage eng) d = (q, s2)" by force
  with False step have "en_storage eng' = en_storage eng"
    by (cases q) (auto simp: define_machine_def dest: store_machine_atomic split: sum.splits)
  with rep cons show ?thesis by auto
qed

lemma consistent_set_status: "consistent st \<Longrightarrow> consistent (set_status st i v)"
  by (auto simp: consistent_def set_status_def projection_def [abs_def] history_of_def ran_def
      split: if_splits)

lemma dom_set_status: "dom (st_effects (set_status st i v)) = dom (st_effects st)"
  by (auto simp: set_status_def split: if_splits)

lemma publish_effects_step:
  assumes "rep s st" and "consistent st"
  shows "\<exists>st'. rep (publish_effects ops s es) st' \<and> consistent st' \<and>
    st_log st' = st_log st \<and> dom (st_effects st') = dom (st_effects st) \<and> st_machines st' = st_machines st"
  using assms
proof (induction es arbitrary: s st)
  case Nil
  then show ?case by auto
next
  case (Cons e es)
  obtain r s1 where p: "op_mark_effect_published ops s (ef_id e) = (r, s1)" by force
  obtain r' s2 where f: "op_mark_effect_failed ops s1 (ef_id e) = (r', s2)" by force
  have log: "st_log (set_status st i v) = st_log st" "st_machines (set_status st i v) = st_machines st" for i v
    by (simp_all add: set_status_def)
  have next_state: "\<exists>st'. rep (publish_effects ops t es) st' \<and> consistent st' \<and>
      st_log st' = st_log st \<and> dom (st_effects st') = dom (st_effects st) \<and> st_machines st' = st_machines st"
    if "rep t st \<or> (\<exists>v. rep t (set_status st (ef_id e) v))" for t
    using that Cons.IH [of t st] Cons.IH [of t "set_status st (ef_id e) _"] Cons.prems(2)
      consistent_set_status [of st "ef_id e"] log dom_set_status [of st "ef_id e"] by metis
  show ?case
  proof (cases r)
    case (Inr u)
    with p next_state [of s1] mark_effect_published_ok [OF Cons.prems(1)] show ?thesis by auto
  next
    case (Inl err)
    with p have "s1 = s" by (auto dest: mark_effect_published_atomic)
    with f mark_effect_failed_ok [OF Cons.prems(1), of "ef_id e"] have "rep s2 st \<or> (\<exists>v. rep s2 (set_status st (ef_id e) v))"
      by (cases r') (auto dest: mark_effect_failed_atomic simp: Cons.prems(1))
    with p f Inl next_state [of s2] show ?thesis by simp
  qed
qed

lemma dispatch_step:
  assumes rep: "rep (en_storage eng) st" and cons: "consistent st"
    and step: "dispatch ops eng = Some (k, eng')"
  shows "\<exists>st'. rep (en_storage eng') st' \<and> consistent st' \<and>
    st_log st' = st_log st \<and> dom (st_effects st') = dom (st_effects st) \<and> st_machines st' = st_machines st"
proof -
  obtain eng1 where "dispatch_pass ops eng = Some (k, eng1)" and
    eng': "eng' = (case op_get_pending_effects ops (en_storage eng1) 256 of
           Inr effects \<Rightarrow> eng1\<lparr>en_storage := publish_effects ops (en_storage eng1) effects\<rparr>
         | Inl _ \<Rightarrow> eng1)"
    using step by (auto simp: dispatch_def bind_eq_Some_conv split: prod.splits)
  then have "en_storage eng1 = en_storage eng"
    by (auto simp: dispatch_pass_def bind_eq_Some_conv split: prod.splits)
  with rep cons publish_effects_step [OF rep cons] show ?thesis
    unfolding eng' by (auto split: sum.splits)
qed

end

end
