(* ===== verification/Engine_Total.thy ===== *)
theory Engine_Total
  imports Engine_Spec
begin

text \<open>
  Total correctness of the engine over storage whose calls do not fail: \<open>transition\<close>
  returns exactly what the machine definition, the guards and the stored state
  prescribe, on every branch, and the dispatcher returns and delivers to each open
  subscriber exactly the records it is owed, in log order.
\<close>

section \<open>What a transition should do\<close>

text \<open>The entity as the guards see it.\<close>

definition guard_view :: "store \<Rightarrow> env \<Rightarrow> machine_definition \<Rightarrow> entity_id \<Rightarrow> machine_name \<Rightarrow> entity_state" where
  "guard_view st env d e m = \<lparr>es_entity_id = e, es_machine = m, es_current_state = state_of st d e m,
     es_version = version_of st e m, es_updated_at = clock env 1, es_created_at = clock env 2\<rparr>"

definition spec_record ::
  "store \<Rightarrow> env \<Rightarrow> machine_definition \<Rightarrow> entity_id \<Rightarrow> machine_name \<Rightarrow> event_name \<Rightarrow> actor_id \<Rightarrow> json
    \<Rightarrow> idempotency_key option \<Rightarrow> transition_rule \<Rightarrow> transition_record" where
  "spec_record st env d e m ev actor ctx key rule =
     \<lparr>tr_id = uuid env 0, tr_sequence = 0, tr_entity_id = e, tr_machine = m,
      tr_from_state = state_of st d e m, tr_to_state = rl_to_state rule, tr_event = ev,
      tr_actor = actor, tr_ctx = ctx, tr_idempotency_key = key,
      tr_version = version_of st e m + 1, tr_timestamp = clock env 3\<rparr>"

definition spec_state :: "store \<Rightarrow> env \<Rightarrow> entity_id \<Rightarrow> machine_name \<Rightarrow> transition_rule \<Rightarrow> entity_state" where
  "spec_state st env e m rule =
     \<lparr>es_entity_id = e, es_machine = m, es_current_state = rl_to_state rule,
      es_version = version_of st e m + 1, es_updated_at = clock env 0,
      es_created_at = (case st_states st (e, m) of Some x \<Rightarrow> es_created_at x | None \<Rightarrow> clock env 0)\<rparr>"

definition transition_spec ::
  "store \<Rightarrow> guard_registry \<Rightarrow> env \<Rightarrow> entity_id \<Rightarrow> machine_name \<Rightarrow> event_name \<Rightarrow> actor_id \<Rightarrow> json
    \<Rightarrow> version option \<Rightarrow> idempotency_key option \<Rightarrow> engine_error + transition_result \<times> store" where
  "transition_spec st guards env e m ev actor ctx expected key =
     (case Option.bind key (keyed_record st) of
        Some r \<Rightarrow> Inr (result_of_record r, st)
      | None \<Rightarrow>
     (case st_machines st m of
        None \<Rightarrow> Inl (Storage (NotFound (''machine '' @ quoted m)))
      | Some d \<Rightarrow>
      if expected \<noteq> None \<and> expected \<noteq> Some (version_of st e m)
      then Inl (Core (VersionConflict e m (the expected) (version_of st e m)))
      else
     (case find (\<lambda>r. rule_fires r (state_of st d e m) ev) (md_transitions d) of
        None \<Rightarrow> Inl (Core (IllegalTransition e (md_name d) ev (state_of st d e m)))
      | Some rule \<Rightarrow>
     (case find (\<lambda>g. \<not> registry_evaluate guards g (guard_view st env d e m) ctx) (rl_guards rule) of
        Some g \<Rightarrow> Inl (Core (GuardFailed g ''guard evaluated to false''))
      | None \<Rightarrow>
          let record = spec_record st env d e m ev actor ctx key rule
          in Inr (result_of_record (record\<lparr>tr_sequence := next_seq st\<rparr>),
                  commit_store st record (spec_state st env e m rule)
                    (build_effects env (uuid env 0) (compute_effects d ev)))))))"

section \<open>That a transition does it\<close>

lemma map_of_pairs: "g \<in> set gs \<Longrightarrow> map_of (map (\<lambda>g. (g, f g)) gs) g = Some (f g)"
  by (induction gs) auto

lemma guard_results_eval:
  "g \<in> set (rl_guards rule) \<Longrightarrow> guard_results reg rule x ctx g = Some (registry_evaluate reg g x ctx)"
  using map_of_pairs [of g "rev (rl_guards rule)"] by (simp add: guard_results_def rev_map)

lemma validate_guards_eval:
  "validate_guards rule (guard_results reg rule x ctx) =
     (case find (\<lambda>g. \<not> registry_evaluate reg g x ctx) (rl_guards rule) of
        None \<Rightarrow> Inr ()
      | Some g \<Rightarrow> Inl (GuardFailed g ''guard evaluated to false''))"
proof -
  have "find (\<lambda>g. guard_results reg rule x ctx g \<noteq> Some True) (rl_guards rule) =
      find (\<lambda>g. \<not> registry_evaluate reg g x ctx) (rl_guards rule)"
    by (intro find_cong) (auto simp: guard_results_eval)
  then show ?thesis by (simp add: validate_guards_def check_guards_find)
qed

lemma commit_continues:
  assumes "continues st r ns efs" and "es_version ns \<noteq> 0"
    and "Option.bind (tr_idempotency_key r) (keyed_record st) = None"
  shows "commit st r ns efs = Inr ((next_seq st, r\<lparr>tr_sequence := next_seq st\<rparr>), commit_store st r ns efs)"
  using assms
  by (auto simp: commit_def stale_version_def continues_def saturating_sub1_def split: option.splits)

context storage_contract
begin

lemma load_state_total:
  assumes "rep s st" and "nul_free e"
  shows "load_state ops s now d e m = Inr (state_of st d e m, version_of st e m,
    case st_states st (e, m) of Some x \<Rightarrow> es_created_at x | None \<Rightarrow> now)"
  by (cases "st_states st (e, m)")
    (simp_all add: load_state_def get_entity_state_total [OF assms] state_of_def version_of_def)

lemma prepare_total:
  assumes rep: "rep s st" and nul: "nul_free e"
  shows "prepare ops env guards s e m ev actor ctx expected key =
    (case st_machines st m of
       None \<Rightarrow> Inl (Storage (NotFound (''machine '' @ quoted m)))
     | Some d \<Rightarrow>
     if expected \<noteq> None \<and> expected \<noteq> Some (version_of st e m)
     then Inl (Core (VersionConflict e m (the expected) (version_of st e m)))
     else
    (case find (\<lambda>r. rule_fires r (state_of st d e m) ev) (md_transitions d) of
       None \<Rightarrow> Inl (Core (IllegalTransition e (md_name d) ev (state_of st d e m)))
     | Some rule \<Rightarrow>
    (case find (\<lambda>g. \<not> registry_evaluate guards g (guard_view st env d e m) ctx) (rl_guards rule) of
       Some g \<Rightarrow> Inl (Core (GuardFailed g ''guard evaluated to false''))
     | None \<Rightarrow> Inr (spec_record st env d e m ev actor ctx key rule, spec_state st env e m rule,
                   build_effects env (uuid env 0) (compute_effects d ev)))))"
  by (auto simp: prepare_def prepare_with_def get_machine_total [OF rep] load_state_total [OF rep nul] check_expected_def
      plan_transition_fires validate_guards_eval guard_view_def Let_def
      spec_record_def spec_state_def build_transition_record_def split: option.splits)

lemma prepare_fields:
  assumes "rep s st" and "nul_free e"
    and "prepare ops env guards s e m ev actor ctx expected key = Inr (r, ns, efs)"
  shows "tr_entity_id r = e" and "tr_machine r = m" and "tr_idempotency_key r = key"
    and "tr_version r = es_version ns"
  using assms(3) unfolding prepare_total [OF assms(1,2)]
  by (auto simp: spec_record_def spec_state_def split: option.splits if_splits)

lemma execute_prepared:
  assumes rep: "rep s st" and cons: "consistent st" and nul: "nul_free e" "nul_free m"
    and good: "good_supply envs" and drw: "from_supply envs n st" and n: "Suc n < 2 ^ 64"
    and p: "prepare ops (envs n) guards s e m ev actor ctx expected key = Inr (r, ns, efs)"
    and new: "Option.bind (tr_idempotency_key r) (keyed_record st) = None"
  shows "\<exists>s'. op_execute_transition ops s r ns efs =
      (Inr (next_seq st, r\<lparr>tr_sequence := next_seq st\<rparr>), s') \<and> rep s' (commit_store st r ns efs)"
proof -
  note adm = prepare_admissible [OF rep cons nul good drw n p]
  have "unat (tr_version r) \<noteq> 0" "tr_version r = es_version ns"
    using continues_version [OF cons adm(2)] adm(1,2) by (simp_all add: admissible_def continues_def)
  then have "es_version ns \<noteq> 0" by auto
  with commit_continues [OF adm(2)] new have ok: "commit st r ns efs =
      Inr ((next_seq st, r\<lparr>tr_sequence := next_seq st\<rparr>), commit_store st r ns efs)" by simp
  obtain q s' where ex: "op_execute_transition ops s r ns efs = (q, s')" by force
  with ok execute_transition_total [OF rep adm(1)] execute_transition_ok [OF rep adm(1)] show ?thesis
    by (cases q) fastforce+
qed

lemma transition_refines_spec:
  assumes rep: "rep (en_storage eng) st" and cons: "consistent st" and nul: "nul_free e" "nul_free m"
    and good: "good_supply envs" and drw: "from_supply envs n st" and n: "Suc n < 2 ^ 64"
    and up: "\<not> en_shutdown eng"
  shows "case transition_spec st (en_guards eng) (envs n) e m ev actor ctx expected key of
      Inl err \<Rightarrow> transition ops (envs n) eng e m ev actor ctx expected key = (Inl err, eng)
    | Inr (res, st') \<Rightarrow> \<exists>s'. rep s' st' \<and>
        (transition ops (envs n) eng e m ev actor ctx expected key = (Inr res, eng\<lparr>en_storage := s', en_notify := True\<rparr>) \<or>
         st' = st \<and> transition ops (envs n) eng e m ev actor ctx expected key = (Inr res, eng))"
proof (cases "Option.bind key (keyed_record st)")
  case (Some r)
  then have "idempotent_replay ops (en_storage eng) key = Some (result_of_record r)"
    by (auto simp: idempotent_replay_def check_idempotency_total [OF rep] bind_eq_Some_conv)
  with Some rep up show ?thesis by (auto simp: transition_spec_def transition_def commit_prepared_def)
next
  case None
  then have "idempotent_replay ops (en_storage eng) key = None"
    by (auto simp: idempotent_replay_def check_idempotency_total [OF rep] bind_eq_None_conv split: option.splits)
  then have tr: "transition ops (envs n) eng e m ev actor ctx expected key =
      (case prepare ops (envs n) (en_guards eng) (en_storage eng) e m ev actor ctx expected key of
         Inl err \<Rightarrow> (Inl err, eng)
       | Inr (r, ns, efs) \<Rightarrow>
           (case op_execute_transition ops (en_storage eng) r ns efs of
              (Inl err, s) \<Rightarrow> (Inl (Storage err), eng\<lparr>en_storage := s\<rparr>)
            | (Inr (q, r), s) \<Rightarrow>
                (Inr \<lparr>rs_entity_id = e, rs_machine = m, rs_from_state = tr_from_state r,
                   rs_to_state = tr_to_state r, rs_version = es_version ns, rs_transition_id = tr_id r,
                   rs_sequence = q, rs_timestamp = tr_timestamp r\<rparr>,
                 eng\<lparr>en_storage := s, en_notify := True\<rparr>)))"
    using up by (simp add: transition_def commit_prepared_def split: sum.split)
  have spec: "transition_spec st (en_guards eng) (envs n) e m ev actor ctx expected key =
      (case prepare ops (envs n) (en_guards eng) (en_storage eng) e m ev actor ctx expected key of
         Inl err \<Rightarrow> Inl err
       | Inr (r, ns, efs) \<Rightarrow> Inr (result_of_record (r\<lparr>tr_sequence := next_seq st\<rparr>), commit_store st r ns efs))"
    using None by (simp add: transition_spec_def prepare_total [OF rep nul(1)] Let_def split: option.splits)
  show ?thesis
  proof (cases "prepare ops (envs n) (en_guards eng) (en_storage eng) e m ev actor ctx expected key")
    case (Inl err)
    then show ?thesis by (simp add: spec tr)
  next
    case (Inr p)
    obtain r ns efs where p: "p = (r, ns, efs)" by (cases p)
    with Inr prepare_fields [OF rep nul(1), of "envs n" "en_guards eng" m ev actor ctx expected key r ns efs]
    have f: "tr_entity_id r = e" "tr_machine r = m" "tr_idempotency_key r = key" "tr_version r = es_version ns"
      by simp_all
    obtain s' where "op_execute_transition ops (en_storage eng) r ns efs =
        (Inr (next_seq st, r\<lparr>tr_sequence := next_seq st\<rparr>), s')" "rep s' (commit_store st r ns efs)"
      using execute_prepared [OF rep cons nul good drw n, of "en_guards eng" ev actor ctx expected key r ns efs]
        Inr p None f(3) by auto
    with Inr p f show ?thesis
      by (auto simp: spec tr result_of_record_def)
  qed
qed

lemma transition_spec_consistent:
  assumes rep: "rep s st" and cons: "consistent st" and nul: "nul_free e" "nul_free m"
    and good: "good_supply envs" and drw: "from_supply envs n st" and n: "Suc n < 2 ^ 64"
    and spec: "transition_spec st guards (envs n) e m ev actor ctx expected key = Inr (res, st')"
  shows "consistent st'"
proof (cases "Option.bind key (keyed_record st)")
  case (Some r)
  with spec cons show ?thesis by (simp add: transition_spec_def)
next
  case None
  obtain r ns efs where p: "prepare ops (envs n) guards s e m ev actor ctx expected key = Inr (r, ns, efs)"
    and st': "st' = commit_store st r ns efs"
    using spec None unfolding prepare_total [OF rep nul(1)]
    by (auto simp: transition_spec_def Let_def split: option.splits if_splits)
  have "tr_idempotency_key r = key" by (rule prepare_fields(3) [OF rep nul(1) p])
  with None have new: "Option.bind (tr_idempotency_key r) (keyed_record st) = None" by simp
  note adm = prepare_admissible [OF rep cons nul good drw n p]
  have len: "Suc (length (st_log st)) < 2 ^ 64" using adm(1) by (simp add: admissible_def)
  have "unat (tr_version r) \<noteq> 0" using continues_version [OF cons adm(2) len] by simp
  then have "es_version ns \<noteq> 0" using adm(2) by (auto simp: continues_def)
  from consistent_commit [OF cons adm(2) len commit_continues [OF adm(2) this new]] st'
  show ?thesis by simp
qed

text \<open>After a successful transition with a key, the key returns its result.\<close>

lemma keyed_record_commit:
  assumes "tr_idempotency_key r = Some k" and "keyed_record st k = None"
  shows "keyed_record (commit_store st r ns efs) k = Some (r\<lparr>tr_sequence := next_seq st\<rparr>)"
proof -
  have "find P (xs @ [x]) = Some x" if "find P xs = None" "P x" for P xs and x :: transition_record
    using that by (induction xs) (auto split: if_splits)
  with assms show ?thesis by (simp add: keyed_record_def commit_store_def)
qed

lemma transition_keyed:
  assumes rep: "rep (en_storage eng) st" and cons: "consistent st" and nul: "nul_free e" "nul_free m"
    and good: "good_supply envs" and drw: "from_supply envs n st" and n: "Suc n < 2 ^ 64"
    and up: "\<not> en_shutdown eng"
    and ok: "transition ops (envs n) eng e m ev actor ctx expected (Some k) = (Inr res, eng')"
  shows "\<exists>st' r. rep (en_storage eng') st' \<and> keyed_record st' k = Some r \<and> res = result_of_record r \<and>
    en_shutdown eng' = en_shutdown eng"
proof -
  note ref = transition_refines_spec [OF rep cons nul good drw n up, of ev actor ctx expected "Some k"]
  then obtain st' where sp: "transition_spec st (en_guards eng) (envs n) e m ev actor ctx expected (Some k) = Inr (res, st')"
    and st': "rep (en_storage eng') st'" "en_shutdown eng' = en_shutdown eng"
    using ok rep by (fastforce split: sum.splits)
  have "\<exists>r. keyed_record st' k = Some r \<and> res = result_of_record r"
  proof (cases "keyed_record st k")
    case (Some r)
    with sp show ?thesis by (auto simp: transition_spec_def)
  next
    case None
    with sp show ?thesis
      by (auto simp: transition_spec_def Let_def spec_record_def keyed_record_commit split: option.splits if_splits)
  qed
  with st' show ?thesis by blast
qed

end

end
