(* ===== verification/Dispatch_Total.thy ===== *)
theory Dispatch_Total
  imports Engine_Total
begin

text \<open>
  Delivery over storage whose calls do not fail: the drain loop of every subscriber
  returns, an open subscriber receives exactly the records after its cursor that pass
  its filter, in log order, and a pass leaves nobody owed anything.
\<close>

section \<open>Batches of the log\<close>

lemma log_after_last:
  assumes sorted: "sorted_wrt (<) (map tr_sequence (st_log st))"
    and ne: "take k (log_after st a) \<noteq> []"
  shows "log_after st (tr_sequence (last (take k (log_after st a)))) = drop k (log_after st a)"
proof -
  define c where "c = tr_sequence (last (take k (log_after st a)))"
  have "last (take k (log_after st a)) \<in> set (log_after st a)"
    using last_in_set [OF ne] by (rule in_set_takeD)
  then have "a < c" by (simp add: log_after_def c_def)
  then have "log_after st c = filter (\<lambda>r. c < tr_sequence r) (log_after st a)"
    by (auto simp: log_after_def intro!: filter_cong)
  also have "\<dots> = filter (\<lambda>r. c < tr_sequence r) (take k (log_after st a) @ drop k (log_after st a))"
    by simp
  also have "\<dots> = drop k (log_after st a)"
    unfolding c_def using sorted ne
    by (intro filter_after_last) (simp_all add: log_after_def sorted_wrt_map sorted_wrt_filter)
  finally show ?thesis by (simp add: c_def)
qed

section \<open>One subscriber\<close>

lemma deliver_batch_closed:
  assumes "\<not> sb_open sub"
  shows "\<exists>c. deliver_batch ops s sub cursor n rs =
      (sub, c, n, list_ex (passes_filter (sb_machine_filter sub)) rs) \<and>
    (list_ex (passes_filter (sb_machine_filter sub)) rs \<or> c = last_seq cursor rs)"
proof (induction rs arbitrary: cursor)
  case Nil
  then show ?case by simp
next
  case (Cons r rs)
  from Cons.IH [of "tr_sequence r"] obtain c where
    "deliver_batch ops s sub (tr_sequence r) n rs = (sub, c, n, list_ex (passes_filter (sb_machine_filter sub)) rs)"
    "list_ex (passes_filter (sb_machine_filter sub)) rs \<or> c = last_seq (tr_sequence r) rs"
    by blast
  with assms show ?case by (simp add: Let_def)
qed

text \<open>The subscriber after a pass that sends it the changes \<open>cs\<close>.\<close>

definition served :: "store \<Rightarrow> change_record list \<Rightarrow> subscriber \<Rightarrow> subscriber" where
  "served st cs sub = sub\<lparr>sb_queue := sb_queue sub @ cs,
     sb_delivered_through := last_seq (sb_delivered_through sub) (log_after st (sb_delivered_through sub))\<rparr>"

lemma served_id [simp]: "sb_id (served st cs sub) = sb_id sub"
  by (simp add: served_def)

abbreviation change_for :: "'s storage_engine \<Rightarrow> 's \<Rightarrow> transition_record \<Rightarrow> change_record" where
  "change_for ops s r \<equiv> change_record_of r (effects_or_default ops s (tr_id r))"

context storage_contract
begin

lemma change_for_is_change:
  assumes "rep s st" and "nul_free (tr_id r)"
  shows "is_change st r (change_for ops s r)"
  using get_effects_total [OF assms] get_effects_ok [OF assms]
  by (auto simp: is_change_def effects_or_default_def)

lemma rep_sorted: "rep s st \<Longrightarrow> sorted_wrt (<) (map tr_sequence (st_log st))"
  using rep_sequences [of s st] sorted_wrt_upt [of 1 "Suc (length (st_log st))"]
  by (metis (no_types, lifting) sorted_wrt_map sorted_wrt_mono_rel word_less_nat_alt)

lemma rep_next_sequence:
  assumes "rep s st" and "Suc (length (st_log st)) < 2 ^ 64" and "r \<in> set (st_log st)"
  shows "tr_sequence r + 1 \<noteq> 0"
proof -
  have "unat (tr_sequence r) \<in> set (map (\<lambda>r. unat (tr_sequence r)) (st_log st))"
    using assms(3) by simp
  then have "unat (tr_sequence r) \<le> length (st_log st)"
    unfolding rep_sequences [OF assms(1)] by auto
  with assms(2) have "unat (tr_sequence r + 1) = unat (tr_sequence r) + 1"
    by (intro unat_plus_one) simp
  then show ?thesis by (metis add_is_0 one_neq_zero unat_0)
qed

lemma get_batch:
  assumes "rep s st" and "a + 1 \<noteq> 0"
  shows "op_get_transitions_after ops s a BATCH = Inr (take 256 (log_after st a))"
proof -
  obtain rs where rs: "op_get_transitions_after ops s a BATCH = Inr rs"
    using get_transitions_after_total [OF assms] by blast
  with get_transitions_after_ok [OF assms rs] show ?thesis by (simp add: BATCH_def)
qed

text \<open>The log after a batch has been inspected.\<close>

lemma batch_rest:
  assumes rep: "rep s st" and len: "Suc (length (st_log st)) < 2 ^ 64"
    and rs: "rs = take 256 (log_after st a)" and ne: "rs \<noteq> []"
  shows "log_after st a = rs @ log_after st (last_seq a rs)"
    and "last_seq a rs + 1 \<noteq> 0"
    and "length (log_after st (last_seq a rs)) < length (log_after st a)"
    and "length rs < 256 \<Longrightarrow> log_after st (last_seq a rs) = []"
proof -
  have rest: "log_after st (last_seq a rs) = drop 256 (log_after st a)"
    using log_after_last [OF rep_sorted [OF rep]] ne by (simp add: rs last_seq_last)
  show "log_after st a = rs @ log_after st (last_seq a rs)"
    unfolding rest by (simp add: rs)
  show "length (log_after st (last_seq a rs)) < length (log_after st a)"
    using ne unfolding rest by (simp add: rs)
  show "length rs < 256 \<Longrightarrow> log_after st (last_seq a rs) = []"
    unfolding rest by (simp add: rs)
  have "last rs \<in> set (st_log st)"
    using last_in_set [OF ne] unfolding rs log_after_def by (auto dest: in_set_takeD)
  then show "last_seq a rs + 1 \<noteq> 0"
    using rep_next_sequence [OF rep len] ne by (simp add: last_seq_last)
qed

lemma drain_open:
  assumes rep: "rep s st" and len: "Suc (length (st_log st)) < 2 ^ 64" and "sb_open sub"
    and "sb_delivered_through sub + 1 \<noteq> 0"
  shows "drain ops s sub n = Some (served st (map (change_for ops s) (owed st sub)) sub, n + length (owed st sub), False)"
  using assms(3,4)
proof (induction "length (log_after st (sb_delivered_through sub))" arbitrary: sub n rule: less_induct)
  case less
  define a rs where "a = sb_delivered_through sub" and rs: "rs = take 256 (log_after st a)"
  let ?f = "passes_filter (sb_machine_filter sub)"
  have get: "op_get_transitions_after ops s a BATCH = Inr rs"
    using less.prems(2) by (simp add: a_def rs get_batch [OF rep])
  show ?case
  proof (cases "rs = []")
    case True
    then have "log_after st a = []" by (simp add: rs)
    with get True show ?thesis
      by (subst drain.simps) (simp add: a_def [symmetric] owed_def served_def)
  next
    case False
    note rest = batch_rest [OF rep len rs False]
    define sub' where "sub' = sub\<lparr>sb_queue := sb_queue sub @ map (change_for ops s) (filter ?f rs),
      sb_delivered_through := last_seq a rs\<rparr>"
    have step: "drain ops s sub n =
        (if length rs < 256 then Some (sub', n + length (filter ?f rs), False)
         else drain ops s sub' (n + length (filter ?f rs)))"
      using get False less.prems(1)
      by (subst drain.simps) (simp add: a_def [symmetric] deliver_batch_open BATCH_def sub'_def)
    have owed: "owed st sub = filter ?f rs @ owed st sub'"
      unfolding owed_def a_def [symmetric] by (subst rest(1)) (simp add: sub'_def)
    have "last_seq a (log_after st a) = last_seq (last_seq a rs) (log_after st (last_seq a rs))"
      by (subst rest(1)) simp
    then have served: "served st (map (change_for ops s) (owed st sub)) sub =
        served st (map (change_for ops s) (owed st sub')) sub'"
      by (simp add: served_def owed a_def [symmetric]) (simp add: sub'_def)
    have "drain ops s sub' k = Some (served st (map (change_for ops s) (owed st sub')) sub', k + length (owed st sub'), False)" for k
      using less.hyps [of sub'] less.prems(1) rest(2,3) by (simp add: sub'_def a_def)
    moreover have "owed st sub' = [] \<and> served st [] sub' = sub'" if "length rs < 256"
      using rest(4) [OF that] by (simp add: owed_def served_def sub'_def)
    ultimately show ?thesis using step owed served by auto
  qed
qed

lemma drain_closed:
  assumes rep: "rep s st" and len: "Suc (length (st_log st)) < 2 ^ 64" and "\<not> sb_open sub"
    and "sb_delivered_through sub + 1 \<noteq> 0"
  shows "\<exists>c. drain ops s sub n = Some (sub\<lparr>sb_delivered_through := c\<rparr>, n, owed st sub \<noteq> []) \<and>
    (owed st sub = [] \<longrightarrow> sub\<lparr>sb_delivered_through := c\<rparr> = served st [] sub)"
  using assms(3,4)
proof (induction "length (log_after st (sb_delivered_through sub))" arbitrary: sub rule: less_induct)
  case less
  define a rs where "a = sb_delivered_through sub" and rs: "rs = take 256 (log_after st a)"
  let ?f = "passes_filter (sb_machine_filter sub)"
  have get: "op_get_transitions_after ops s a BATCH = Inr rs"
    using less.prems(2) by (simp add: a_def rs get_batch [OF rep])
  obtain c where c: "deliver_batch ops s sub a n rs = (sub, c, n, list_ex ?f rs)"
    "list_ex ?f rs \<or> c = last_seq a rs"
    using deliver_batch_closed [OF less.prems(1), of ops s a n rs] by auto
  have step: "drain ops s sub n =
      (if rs = [] then Some (sub, n, False)
       else if list_ex ?f rs then Some (sub\<lparr>sb_delivered_through := c\<rparr>, n, True)
       else if length rs < 256 then Some (sub\<lparr>sb_delivered_through := c\<rparr>, n, False)
       else drain ops s (sub\<lparr>sb_delivered_through := c\<rparr>) n)"
    using get c(1) by (subst drain.simps) (simp add: a_def [symmetric] BATCH_def)
  show ?case
  proof (cases "rs = []")
    case True
    then have "log_after st a = []" by (simp add: rs)
    with True step show ?thesis by (intro exI [of _ a]) (simp add: owed_def served_def a_def)
  next
    case False
    note rest = batch_rest [OF rep len rs False]
    let ?sub' = "sub\<lparr>sb_delivered_through := last_seq a rs\<rparr>"
    have owed: "owed st sub = filter ?f rs @ owed st ?sub'"
      unfolding owed_def a_def [symmetric] by (subst rest(1)) simp
    have "last_seq a (log_after st a) = last_seq (last_seq a rs) (log_after st (last_seq a rs))"
      by (subst rest(1)) simp
    then have served: "served st [] sub = served st [] ?sub'"
      by (simp add: served_def a_def [symmetric])
    from less.hyps [of ?sub'] less.prems(1) rest(2,3) obtain c' where
      c': "drain ops s ?sub' n = Some (?sub'\<lparr>sb_delivered_through := c'\<rparr>, n, owed st ?sub' \<noteq> [])"
      "owed st ?sub' = [] \<longrightarrow> ?sub'\<lparr>sb_delivered_through := c'\<rparr> = served st [] ?sub'"
      by (auto simp: a_def)
    have fin: "owed st ?sub' = [] \<and> served st [] ?sub' = ?sub'" if "length rs < 256"
      using rest(4) [OF that] by (simp add: owed_def served_def)
    have dead: "filter ?f rs = [] \<longleftrightarrow> \<not> list_ex ?f rs" by (auto simp: list_ex_iff filter_empty_conv)
    consider (gone) "list_ex ?f rs" | (last) "\<not> list_ex ?f rs" "length rs < 256"
      | (more) "\<not> list_ex ?f rs" "\<not> length rs < 256" by blast
    then show ?thesis
    proof cases
      case gone
      with step False dead owed show ?thesis by (intro exI [of _ c]) simp
    next
      case last
      with step False dead owed served c(2) fin show ?thesis by (intro exI [of _ c]) simp
    next
      case more
      with step False dead owed served c(2) c' show ?thesis by (intro exI [of _ c']) simp
    qed
  qed
qed

end

section \<open>A pass\<close>

text \<open>A subscriber that a pass finds gone: its receiver was dropped and it is owed something.\<close>

definition lost :: "store \<Rightarrow> subscriber \<Rightarrow> bool" where
  "lost st sub \<longleftrightarrow> \<not> sb_open sub \<and> owed st sub \<noteq> []"

definition lost_ids :: "store \<Rightarrow> subscriber list \<Rightarrow> string list" where
  "lost_ids st subs = map sb_id (filter (lost st) subs)"

definition sent :: "store \<Rightarrow> (transition_record \<Rightarrow> change_record) \<Rightarrow> subscriber \<Rightarrow> change_record list" where
  "sent st chg sub = (if sb_open sub then map chg (owed st sub) else [])"

context storage_contract
begin

text \<open>Every subscriber is served, except that a lost one keeps no promise about its cursor.\<close>

lemma drain_total:
  assumes "rep s st" and "Suc (length (st_log st)) < 2 ^ 64" and "sb_delivered_through sub + 1 \<noteq> 0"
  shows "\<exists>sub'. drain ops s sub n = Some (sub', n + length (sent st (change_for ops s) sub), lost st sub) \<and>
    sb_id sub' = sb_id sub \<and> (lost st sub \<or> sub' = served st (sent st (change_for ops s) sub) sub)"
proof (cases "sb_open sub")
  case True
  with drain_open [OF assms(1,2) True assms(3)] show ?thesis
    by (simp add: sent_def lost_def)
next
  case False
  with drain_closed [OF assms(1,2) False assms(3), of n] show ?thesis
    by (auto simp: sent_def lost_def)
qed

lemma dispatch_subs_total:
  assumes rep: "rep s st" and len: "Suc (length (st_log st)) < 2 ^ 64"
    and "list_all (\<lambda>sub. sb_delivered_through sub + 1 \<noteq> 0) subs"
  shows "\<exists>subs'. dispatch_subs ops s subs n dead =
      Some (subs', n + sum_list (map (\<lambda>sub. length (sent st (change_for ops s) sub)) subs), dead @ lost_ids st subs) \<and>
    list_all2 (\<lambda>sub sub'. sb_id sub' = sb_id sub \<and>
      (lost st sub \<or> sub' = served st (sent st (change_for ops s) sub) sub)) subs subs'"
  using assms(3)
proof (induction subs arbitrary: n dead)
  case Nil
  then show ?case by (simp add: lost_ids_def)
next
  case (Cons sub subs)
  obtain sub' where "drain ops s sub n = Some (sub', n + length (sent st (change_for ops s) sub), lost st sub)"
    "sb_id sub' = sb_id sub" "lost st sub \<or> sub' = served st (sent st (change_for ops s) sub) sub"
    using drain_total [OF rep len, of sub n] Cons.prems by auto
  moreover obtain subs' where
    "dispatch_subs ops s subs (n + length (sent st (change_for ops s) sub))
        (if lost st sub then dead @ [sb_id sub'] else dead) =
      Some (subs', n + length (sent st (change_for ops s) sub) +
        sum_list (map (\<lambda>sub. length (sent st (change_for ops s) sub)) subs),
        (if lost st sub then dead @ [sb_id sub'] else dead) @ lost_ids st subs)"
    "list_all2 (\<lambda>sub sub'. sb_id sub' = sb_id sub \<and>
      (lost st sub \<or> sub' = served st (sent st (change_for ops s) sub) sub)) subs subs'"
    using Cons by fastforce
  ultimately show ?case by (auto simp: lost_ids_def)
qed

text \<open>
  The pass returns; who stays is served; who shares an identifier with a lost subscriber
  is removed.
\<close>

lemma dispatch_pass_total:
  assumes rep: "rep (en_storage eng) st" and len: "Suc (length (st_log st)) < 2 ^ 64"
    and cursors: "list_all (\<lambda>sub. sb_delivered_through sub + 1 \<noteq> 0) (en_subscribers eng)"
  shows "dispatch_pass ops eng =
    Some (sum_list (map (\<lambda>sub. length (sent st (change_for ops (en_storage eng)) sub)) (en_subscribers eng)),
      eng\<lparr>en_subscribers :=
        map (\<lambda>sub. served st (sent st (change_for ops (en_storage eng)) sub) sub)
          (filter (\<lambda>sub. sb_id sub \<notin> set (lost_ids st (en_subscribers eng))) (en_subscribers eng))\<rparr>)"
proof -
  let ?s = "en_storage eng" and ?subs = "en_subscribers eng"
  obtain subs' where d: "dispatch_subs ops ?s ?subs 0 [] =
      Some (subs', sum_list (map (\<lambda>sub. length (sent st (change_for ops ?s) sub)) ?subs), lost_ids st ?subs)"
    and all: "list_all2 (\<lambda>sub sub'. sb_id sub' = sb_id sub \<and>
      (lost st sub \<or> sub' = served st (sent st (change_for ops ?s) sub) sub)) ?subs subs'"
    using dispatch_subs_total [OF rep len cursors, of 0 "[]"] by auto
  have keep: "filter (\<lambda>sub. sb_id sub \<notin> ids) subs'' =
      map (\<lambda>sub. served st (sent st (change_for ops ?s) sub) sub) (filter (\<lambda>sub. sb_id sub \<notin> ids) subs0)"
    if "list_all2 (\<lambda>sub sub'. sb_id sub' = sb_id sub \<and>
        (lost st sub \<or> sub' = served st (sent st (change_for ops ?s) sub) sub)) subs0 subs''"
      and "sb_id ` {sub \<in> set subs0. lost st sub} \<subseteq> ids" for subs0 subs'' ids
    using that by (induction rule: list_all2_induct) (auto simp: image_subset_iff)
  have "filter (\<lambda>sub. sb_id sub \<notin> set (lost_ids st ?subs)) subs' =
      map (\<lambda>sub. served st (sent st (change_for ops ?s) sub) sub)
        (filter (\<lambda>sub. sb_id sub \<notin> set (lost_ids st ?subs)) ?subs)"
    by (rule keep [OF all]) (auto simp: lost_ids_def)
  with d show ?thesis
    by (cases "lost_ids st ?subs = []") (simp_all add: dispatch_pass_def)
qed

end

end
