(* ===== verification/Storage_Refine.thy ===== *)
theory Storage_Refine
  imports Storage_Spec Dispatch_Total
begin

text \<open>
  \<open>RedbEngine\<close> implements the storage contract: on tables that represent a store, every
  method returns what the abstract store prescribes and leaves tables that represent
  the prescribed store; and under arbitrary failures of the database a write that
  returns an error has changed nothing.
\<close>

section \<open>The atomic transition\<close>

lemma represents_codec: "represents cd db st \<Longrightarrow> codec_ok cd"
  by (simp add: represents_def)

lemma next_seq_stored:
  assumes "represents cd db st"
  shows "stored_sequence db + 1 = next_seq st"
proof -
  have "stored_sequence db = of_nat (length (st_log st))"
    using assms by (intro unat_eq_of_nat) (simp add: represents_def rep_log_def)
  then show ?thesis by (simp add: next_seq_def)
qed

lemma put_entity_state_rep:
  assumes codec: "codec_ok cd" and rep: "rep_states cd (t_entity_states tx) (st_states st)"
    and nul: "nul_free (es_entity_id ns)"
  shows "case stale_version st ns of
           Some v \<Rightarrow> put_entity_state cd no_fault ns tx =
             Inl (StoredVersionConflict (es_entity_id ns) (saturating_sub1 (es_version ns)) v)
         | None \<Rightarrow> (\<exists>t. put_entity_state cd no_fault ns tx = Inr (tx\<lparr>t_entity_states := t\<rparr>) \<and>
             rep_states cd t ((st_states st)(state_id ns \<mapsto> ns)))"
proof -
  have holds: "holds (from_slice_state cd) state_key (t_entity_states tx) (ran (st_states st))"
    and kd: "keyed state_id (st_states st)"
    using rep by (simp_all add: rep_states_def)
  obtain b where b: "enc (to_vec_state cd) ns = Inr b" "from_slice_state cd b = Inr ns"
    using codec unfolding codec_ok_def by (blast elim: enc_obtain)
  note upd = rep_states_upd [OF rep b(2) nul]
  show ?thesis
  proof (cases "st_states st (state_id ns)")
    case None
    then have "tbl_get (t_entity_states tx) (state_key ns) = None"
      using rep nul kd by (auto simp: holds_None [OF holds] rep_states_def state_key_inject keyed_ran_iff)
    with None b upd show ?thesis
      by (auto simp: stale_version_def put_entity_state_def Let_def)
  next
    case (Some s)
    then have s: "s \<in> ran (st_states st)" "state_key s = state_key ns"
      using kd by (auto simp: keyed_def ran_def)
    obtain c where c: "tbl_get (t_entity_states tx) (state_key ns) = Some c" "from_slice_state cd c = Inr s"
      using holds_Some [OF holds s] .
    then have "dec (from_slice_state cd) c = Inr s" by simp
    with Some b c upd show ?thesis
      by (auto simp: stale_version_def put_entity_state_def Let_def)
  qed
qed

lemma log_transition_rep:
  assumes rep: "represents cd db st" and seq: "tr_sequence r = next_seq st"
    and len: "Suc (length (st_log st)) < 2 ^ 64"
    and nul: "nul_free (tr_entity_id r)" "nul_free (tr_machine r)"
    and new: "tr_id r \<notin> tr_id ` set (st_log st)"
  shows "\<exists>t i x. log_transition cd no_fault r (next_seq st) (db\<lparr>t_meta := mt\<rparr>) =
            Inr (db\<lparr>t_transitions := t, t_transitions_by_id := i, t_entity_transitions := x, t_meta := mt\<rparr>) \<and>
          rep_log cd t (next_seq st) (st_log st @ [r]) \<and>
          rep_ids i (st_log st @ [r]) \<and> rep_index x (st_log st @ [r])"
proof -
  obtain b where b: "enc (to_vec_record cd) r = Inr b" "from_slice_record cd b = Inr r"
    using represents_codec [OF rep] unfolding codec_ok_def by (blast elim: enc_obtain)
  have log: "rep_log cd (t_transitions db) (stored_sequence db) (st_log st)"
    using rep by (simp add: represents_def)
  have fresh: "tr_sequence x \<noteq> tr_sequence r" if "x \<in> set (st_log st)" for x
    using rep_log_bound [OF log that] rep_log_next [OF log len] log seq next_seq_stored [OF rep]
    by (auto simp: rep_log_def word_le_nat_alt)
  let ?t = "tbl_insert (t_transitions db) (next_seq st) b"
  let ?i = "tbl_insert (t_transitions_by_id db) (tr_id r) (next_seq st)"
  let ?x = "tbl_insert (t_entity_transitions db)
      (entity_transition_key (tr_entity_id r) (tr_machine r) (next_seq st)) (next_seq st)"
  have "rep_log cd ?t (next_seq st) (st_log st @ [r])"
    using rep_log_snoc [OF log len b(2)] seq next_seq_stored [OF rep] by simp
  moreover have "rep_ids ?i (st_log st @ [r])"
    using rep_ids_snoc [OF _ new] rep seq by (simp add: represents_def)
  moreover have "rep_index ?x (st_log st @ [r])"
    using rep_index_snoc [of "t_entity_transitions db" "st_log st" r] fresh nul rep seq
    by (simp add: represents_def)
  moreover have "log_transition cd no_fault r (next_seq st) (db\<lparr>t_meta := mt\<rparr>) =
      Inr (db\<lparr>t_transitions := ?t, t_transitions_by_id := ?i, t_entity_transitions := ?x, t_meta := mt\<rparr>)"
    using b by (simp add: log_transition_def Let_def)
  ultimately show ?thesis by blast
qed

lemma put_idempotency_rep:
  assumes "rep_keys (t_idempotency tx) log" and "tr_sequence r = seq"
  shows "case tr_idempotency_key r of
           Some k \<Rightarrow>
             if find (\<lambda>r. tr_idempotency_key r = Some k) log \<noteq> None
             then put_idempotency no_fault (Some k) seq tx = Inl (AlreadyExists (''idempotency key '' @ quoted k))
             else \<exists>t. put_idempotency no_fault (Some k) seq tx = Inr (tx\<lparr>t_idempotency := t\<rparr>) \<and> rep_keys t (log @ [r])
         | None \<Rightarrow> \<exists>t. put_idempotency no_fault None seq tx = Inr (tx\<lparr>t_idempotency := t\<rparr>) \<and> rep_keys t (log @ [r])"
proof (cases "tr_idempotency_key r")
  case None
  with rep_keys_snoc(1) [OF assms(1)] show ?thesis
    by (auto simp: put_idempotency_def intro!: exI [of _ "t_idempotency tx"])
next
  case (Some k)
  have "tbl_get (t_idempotency tx) k = None \<longleftrightarrow> find (\<lambda>r. tr_idempotency_key r = Some k) log = None"
    using assms by (simp add: rep_keys_def)
  with Some rep_keys_snoc(2) [OF assms(1) Some] assms(2) show ?thesis
    by (auto simp: put_idempotency_def)
qed

lemma execute_transition_rep:
  assumes rep: "represents cd db st" and adm: "admissible st r ns efs"
  shows "case commit st r ns efs of
           Inl e \<Rightarrow> execute_transition cd no_fault db r ns efs = (Inl e, db)
         | Inr (x, st') \<Rightarrow> \<exists>db'. execute_transition cd no_fault db r ns efs = (Inr x, db') \<and> represents cd db' st'"
proof -
  define q where "q = next_seq st"
  define r' where "r' = r\<lparr>tr_sequence := q\<rparr>"
  define mt where "mt = tbl_insert (t_meta db) META_SEQUENCE q"
  have next_q: "next_sequence_in_tx no_fault db = Inr (q, db\<lparr>t_meta := mt\<rparr>)"
    using next_seq_stored [OF rep] by (simp add: next_sequence_in_tx_def Let_def q_def mt_def)
  obtain t i x where log: "log_transition cd no_fault r' q (db\<lparr>t_meta := mt\<rparr>) =
      Inr (db\<lparr>t_transitions := t, t_transitions_by_id := i, t_entity_transitions := x, t_meta := mt\<rparr>)"
    and reps: "rep_log cd t q (st_log st @ [r'])" "rep_ids i (st_log st @ [r'])" "rep_index x (st_log st @ [r'])"
    using log_transition_rep [OF rep, of r' mt] adm by (auto simp: admissible_def r'_def q_def)
  define tx where "tx = db\<lparr>t_transitions := t, t_transitions_by_id := i, t_entity_transitions := x, t_meta := mt\<rparr>"
  have exec: "execute_transition cd no_fault db r ns efs = write_tx no_fault db (\<lambda>_.
      rbind (put_entity_state cd no_fault ns tx) (\<lambda>tx.
      rbind (put_effects cd no_fault 0 efs tx) (\<lambda>tx.
      rbind (put_idempotency no_fault (tr_idempotency_key r) q tx) (\<lambda>tx. Inr ((q, r'), tx)))))"
    by (simp add: execute_transition_def write_tx_no_fault next_q log r'_def [symmetric] tx_def)
  have st: "case stale_version st ns of
      Some v \<Rightarrow> put_entity_state cd no_fault ns tx =
        Inl (StoredVersionConflict (es_entity_id ns) (saturating_sub1 (es_version ns)) v)
    | None \<Rightarrow> (\<exists>t. put_entity_state cd no_fault ns tx = Inr (tx\<lparr>t_entity_states := t\<rparr>) \<and>
        rep_states cd t ((st_states st)(state_id ns \<mapsto> ns)))"
    using rep adm by (intro put_entity_state_rep) (simp_all add: represents_def admissible_def tx_def)
  show ?thesis
  proof (cases "stale_version st ns")
    case (Some v)
    with st show ?thesis by (simp add: commit_def exec write_tx_no_fault)
  next
    case None
    with st obtain s where s: "put_entity_state cd no_fault ns tx = Inr (tx\<lparr>t_entity_states := s\<rparr>)"
      "rep_states cd s ((st_states st)(state_id ns \<mapsto> ns))" by auto
    obtain ef bt where ef: "put_effects cd no_fault 0 efs (tx\<lparr>t_entity_states := s\<rparr>) =
        Inr (tx\<lparr>t_entity_states := s, t_effects := ef, t_effects_by_txn := bt\<rparr>)"
      "rep_effects cd ef bt (add_effects efs (st_effects st))"
      using put_effects_rep [of cd "tx\<lparr>t_entity_states := s\<rparr>" "st_effects st" efs 0] rep adm
      by (auto simp: represents_def admissible_def tx_def)
    define tx3 where "tx3 = tx\<lparr>t_entity_states := s, t_effects := ef, t_effects_by_txn := bt\<rparr>"
    have fin: "represents cd (tx3\<lparr>t_idempotency := k\<rparr>) (commit_store st r ns efs)"
      if "rep_keys k (st_log st @ [r'])" for k
      using that rep reps s ef
      by (simp add: represents_def commit_store_def tx3_def tx_def stored_sequence_def mt_def r'_def q_def)
    have "rep_keys (t_idempotency tx3) (st_log st)"
      using rep by (simp add: represents_def tx3_def tx_def)
    note keys = put_idempotency_rep [OF this, of r' q]
    have exec3: "execute_transition cd no_fault db r ns efs = write_tx no_fault db (\<lambda>_.
        rbind (put_idempotency no_fault (tr_idempotency_key r') q tx3) (\<lambda>tx. Inr ((q, r'), tx)))"
      by (simp add: exec write_tx_no_fault s(1) ef(1) tx3_def r'_def)
    show ?thesis
      using keys fin None
      by (auto simp: commit_def exec3 write_tx_no_fault keyed_record_def r'_def q_def
          split: option.splits if_splits)
  qed
qed

section \<open>The other writes\<close>

lemma store_machine_rep:
  assumes rep: "represents cd db st"
  shows "\<exists>db'. store_machine cd no_fault db d = (Inr (), db') \<and>
    represents cd db' (st\<lparr>st_machines := (st_machines st)(md_name d \<mapsto> d)\<rparr>)"
proof -
  obtain b where b: "to_vec_machine cd d = Inr b" "from_slice_machine cd b = Inr d"
    using represents_codec [OF rep] unfolding codec_ok_def by (blast elim: enc_obtain)
  then have "store_machine cd no_fault db d =
      (Inr (), db\<lparr>t_machines := tbl_insert (t_machines db) (md_name d) b\<rparr>)"
    by (simp add: store_machine_def write_tx_no_fault)
  moreover have "represents cd (db\<lparr>t_machines := tbl_insert (t_machines db) (md_name d) b\<rparr>)
      (st\<lparr>st_machines := (st_machines st)(md_name d \<mapsto> d)\<rparr>)"
    using rep rep_machines_upd [OF _ b(2), of "t_machines db" "st_machines st"]
    by (simp add: represents_def stored_sequence_def)
  ultimately show ?thesis by blast
qed

lemma update_effect_status_rep:
  assumes rep: "represents cd db st" and e: "st_effects st i = Some e"
  shows "\<exists>db'. update_effect_status cd no_fault db i v = (Inr (), db') \<and>
    represents cd db' (st\<lparr>st_effects := (st_effects st)(i \<mapsto> e\<lparr>ef_status := v\<rparr>)\<rparr>)"
proof -
  have eff: "rep_effects cd (t_effects db) (t_effects_by_txn db) (st_effects st)"
    using rep by (simp add: represents_def)
  then have "e \<in> ran (st_effects st)" "ef_id e = i"
    using e by (auto simp: rep_effects_def keyed_def ran_def)
  then obtain c where c: "tbl_get (t_effects db) i = Some c" "from_slice_effect cd c = Inr e"
    using eff by (auto simp: rep_effects_def elim: holds_Some)
  obtain b where b: "to_vec_effect cd (e\<lparr>ef_status := v\<rparr>) = Inr b"
      "from_slice_effect cd b = Inr (e\<lparr>ef_status := v\<rparr>)"
    using represents_codec [OF rep] unfolding codec_ok_def by (blast elim: enc_obtain)
  have "update_effect_status cd no_fault db i v = (Inr (), db\<lparr>t_effects := tbl_insert (t_effects db) i b\<rparr>)"
    using b c by (simp add: update_effect_status_def write_tx_no_fault)
  moreover have "represents cd (db\<lparr>t_effects := tbl_insert (t_effects db) i b\<rparr>)
      (st\<lparr>st_effects := (st_effects st)(i \<mapsto> e\<lparr>ef_status := v\<rparr>)\<rparr>)"
    using rep rep_effects_status [OF eff b(2) e] by (simp add: represents_def stored_sequence_def)
  ultimately show ?thesis by blast
qed

section \<open>Lookups\<close>

lemma get_machine_rep:
  assumes "represents cd db st"
  shows "get_machine cd no_fault db n v = ok_or (NotFound (''machine '' @ quoted n)) (st_machines st n)"
  using assms unfolding get_machine_def redb_do_no_fault
  by (intro holds_lookup) (auto simp: represents_def rep_machines_def)

lemma get_entity_state_rep:
  assumes "represents cd db st" and "nul_free e"
  shows "get_entity_state cd no_fault db e m =
    ok_or (NotFound (''entity '' @ quoted e @ '' in machine '' @ quoted m)) (st_states st (e, m))"
  using assms unfolding get_entity_state_def redb_do_no_fault Let_def
  by (intro holds_lookup [where kf = state_id and key = state_key])
    (auto simp: represents_def rep_states_def state_key_inject)

lemma log_table_get:
  assumes "represents cd db st" and "r \<in> set (st_log st)"
  obtains b where "tbl_get (t_transitions db) (tr_sequence r) = Some b" "from_slice_record cd b = Inr r"
  using assms by (auto simp: represents_def rep_log_def elim: holds_Some)

lemma check_idempotency_rep:
  assumes rep: "represents cd db st"
  shows "check_idempotency cd no_fault db k = Inr (keyed_record st k)"
proof (cases "keyed_record st k")
  case None
  with rep show ?thesis
    by (simp add: check_idempotency_def represents_def rep_keys_def keyed_record_def)
next
  case (Some r)
  then have "r \<in> set (st_log st)"
    by (auto simp: keyed_record_def find_Some_iff)
  with rep obtain b where "tbl_get (t_transitions db) (tr_sequence r) = Some b" "from_slice_record cd b = Inr r"
    by (rule log_table_get)
  moreover have "tbl_get (t_idempotency db) k = Some (tr_sequence r)"
    using rep Some by (simp add: represents_def rep_keys_def keyed_record_def)
  ultimately show ?thesis
    using Some by (simp add: check_idempotency_def)
qed

lemma get_transition_rep:
  assumes rep: "represents cd db st"
  shows "get_transition cd no_fault db i =
    ok_or (NotFound (''transition '' @ quoted i)) (find (\<lambda>r. tr_id r = i) (st_log st))"
proof (cases "find (\<lambda>r. tr_id r = i) (st_log st)")
  case None
  with rep show ?thesis
    by (simp add: get_transition_def represents_def rep_ids_def)
next
  case (Some r)
  then have "r \<in> set (st_log st)"
    by (auto simp: find_Some_iff)
  with rep obtain b where "tbl_get (t_transitions db) (tr_sequence r) = Some b" "from_slice_record cd b = Inr r"
    by (rule log_table_get)
  with rep Some show ?thesis
    by (simp add: get_transition_def represents_def rep_ids_def)
qed

lemma current_sequence_rep:
  assumes "represents cd db st"
  shows "current_sequence no_fault db = Inr (of_nat (length (st_log st)))"
proof -
  have "stored_sequence db = of_nat (length (st_log st))"
    using assms by (intro unat_eq_of_nat) (simp add: represents_def rep_log_def)
  then show ?thesis by (simp add: current_sequence_def)
qed

section \<open>Scans\<close>

lemma list_machines_loop_decodes:
  "list_all2 (decodes (from_slice_machine cd) key) es vs \<Longrightarrow>
   list_machines_loop cd no_fault i es results = Inr (results @ vs)"
  by (induction arbitrary: i results rule: list_all2_induct) auto

lemma list_machines_rep:
  assumes "represents cd db st"
  shows "\<exists>ds. list_machines cd no_fault db = Inr ds \<and> set ds = ran (st_machines st) \<and>
    sorted_wrt (<) (map md_name ds)"
proof -
  have "holds (from_slice_machine cd) md_name (t_machines db) (ran (st_machines st))"
    using assms by (simp add: represents_def rep_machines_def)
  then obtain ds where "list_all2 (decodes (from_slice_machine cd) md_name) (tbl_iter (t_machines db)) ds"
    "set ds = ran (st_machines st)" "sorted_wrt (<) (map md_name ds)"
    by (rule holds_iter)
  then show ?thesis
    by (intro exI [of _ ds]) (simp add: list_machines_def list_machines_loop_decodes)
qed

lemma list_entities_loop_decodes:
  "list_all2 (decodes (from_slice_state cd) state_key) es vs \<Longrightarrow>
   list_entities_loop cd no_fault m sn i es results =
     Inr (results @ filter (\<lambda>s. es_machine s = m \<and> es_current_state s = sn) vs)"
proof (induction arbitrary: i results rule: list_all2_induct)
  case Nil
  then show ?case by simp
next
  case (Cons e es v vs)
  obtain k b where e: "e = (k, b)" by (cases e)
  have "sublist (NUL # m) k" if "es_machine v = m"
    using Cons.hyps that e sublist_appendI [of "NUL # m" "es_entity_id v" "[]"]
    by (simp add: entity_state_key_def)
  with Cons e show ?case by auto
qed

lemma list_entities_in_state_rep:
  assumes "represents cd db st"
  shows "\<exists>ss. list_entities_in_state cd no_fault db m sn = Inr ss \<and>
    set ss = {s \<in> ran (st_states st). es_machine s = m \<and> es_current_state s = sn} \<and> distinct ss"
proof -
  have "holds (from_slice_state cd) state_key (t_entity_states db) (ran (st_states st))"
    using assms by (simp add: represents_def rep_states_def)
  then obtain ss where ss: "list_all2 (decodes (from_slice_state cd) state_key) (tbl_iter (t_entity_states db)) ss"
    "set ss = ran (st_states st)" "sorted_wrt (<) (map state_key ss)"
    by (rule holds_iter)
  then have "distinct ss" by (auto simp: strict_sorted_iff distinct_map)
  with ss show ?thesis
    by (simp add: list_entities_in_state_def list_entities_loop_decodes)
qed

lemma get_transitions_after_loop_decodes:
  "list_all2 (decodes (from_slice_record cd) key) es rs \<Longrightarrow> length results \<le> limit \<Longrightarrow>
   get_transitions_after_loop cd no_fault limit i es results = Inr (take limit (results @ rs))"
proof (induction arbitrary: i results rule: list_all2_induct)
  case Nil
  then show ?case by simp
next
  case (Cons e es r rs)
  then show ?case by (cases e) (auto simp: take_Cons')
qed

lemma log_iter:
  assumes "rep_log cd t q log"
  shows "list_all2 (decodes (from_slice_record cd) tr_sequence) (tbl_iter t) log"
proof -
  have seqs: "map (\<lambda>r. unat (tr_sequence r)) log = [1..<Suc (length log)]"
    and "holds (from_slice_record cd) tr_sequence t (set log)"
    using assms by (simp_all add: rep_log_def)
  then obtain rs where rs: "list_all2 (decodes (from_slice_record cd) tr_sequence) (tbl_iter t) rs"
    "set rs = set log" "sorted_wrt (<) (map tr_sequence rs)"
    by - (erule holds_iter)
  have "inj_on tr_sequence (set rs \<union> set log)"
    using rs rep_log_sorted [OF seqs] by (auto simp: strict_sorted_iff distinct_map)
  then have "rs = log"
    using rs rep_log_sorted [OF seqs] by (intro map_sorted_distinct_set_unique [of tr_sequence])
      (auto simp: strict_sorted_iff distinct_map)
  with rs show ?thesis by simp
qed

lemma get_transitions_after_rep:
  assumes rep: "represents cd db st" and "a + 1 \<noteq> 0"
  shows "get_transitions_after cd no_fault db a l = Inr (take (unat l) (log_after st a))"
proof -
  have "list_all2 (decodes (from_slice_record cd) tr_sequence) (tbl_iter (t_transitions db)) (st_log st)"
    using rep by (intro log_iter [of cd _ "stored_sequence db"]) (simp add: represents_def)
  then have "list_all2 (decodes (from_slice_record cd) tr_sequence)
      (tbl_range (t_transitions db) (a + 1)) (log_after st a)"
    unfolding tbl_range_def log_after_def le_iff_lt_plus_one [OF assms(2)] by (rule list_all2_filter_fst)
  then show ?thesis
    by (simp add: get_transitions_after_def Let_def get_transitions_after_loop_decodes)
qed

lemma history_key_prefix:
  assumes "nul_free e" "nul_free m" "nul_free (tr_entity_id r)" "nul_free (tr_machine r)"
  shows "prefix (entity_transition_prefix e m) (fst (index_entry r)) \<longleftrightarrow> tr_entity_id r = e \<and> tr_machine r = m"
  using assms nul_sep_prefix [of m "tr_machine r" "[]" "fmt_020 (tr_sequence r)"]
  by (auto simp: entity_transition_prefix_def entity_transition_key_def nul_sep_prefix)

lemma list_of_image:
  assumes "set xs = f ` V" and "inj_on f V"
  obtains vs where "xs = map f vs" "set vs = V"
proof
  show "xs = map f (map (inv_into V f) xs)"
    using assms(1) by (auto simp: f_inv_into_f intro!: map_idI [symmetric])
  show "set (map (inv_into V f) xs) = V"
    using assms by (auto simp: inv_into_f_f image_iff)
qed

text \<open>The index lists the records of one entity in log order.\<close>

lemma index_entity_order:
  assumes iter: "tbl_iter t = map index_entry rs"
    and eq: "set rs = set log" and log: "sorted_wrt (<) (map tr_sequence log)"
  shows "filter (\<lambda>r. tr_entity_id r = e \<and> tr_machine r = m) rs =
         filter (\<lambda>r. tr_entity_id r = e \<and> tr_machine r = m) log"
proof (rule map_sorted_distinct_set_unique [of tr_sequence])
  let ?P = "\<lambda>r. tr_entity_id r = e \<and> tr_machine r = m"
  have "sorted_wrt (\<lambda>a b. fst (index_entry a) < fst (index_entry b)) rs"
    using tb.iter_sorted [of t] by (simp add: iter sorted_wrt_map)
  then have "sorted_wrt (\<lambda>a b. fst (index_entry a) < fst (index_entry b)) (filter ?P rs)"
    by (rule sorted_wrt_filter)
  then have "sorted_wrt (\<lambda>a b. tr_sequence a < tr_sequence b) (filter ?P rs)"
    by (rule sorted_wrt_mono_rel [rotated])
      (auto simp: entity_transition_key_def append_less_iff fmt_020_less_iff)
  then have "sorted_wrt (<) (map tr_sequence (filter ?P rs))" by (simp add: sorted_wrt_map)
  then show "sorted (map tr_sequence (filter ?P rs))" "distinct (map tr_sequence (filter ?P rs))"
    by (simp_all add: strict_sorted_iff)
  have "sorted_wrt (<) (map tr_sequence (filter ?P log))"
    using log by (simp add: sorted_wrt_map sorted_wrt_filter)
  then show "sorted (map tr_sequence (filter ?P log))" "distinct (map tr_sequence (filter ?P log))"
    by (simp_all add: strict_sorted_iff)
  show "inj_on tr_sequence (set (filter ?P rs) \<union> set (filter ?P log))"
    using log eq by (auto simp: strict_sorted_iff distinct_map intro: inj_on_subset)
  show "set (filter ?P rs) = set (filter ?P log)" using eq by auto
qed

lemma index_iter:
  assumes idx: "rep_index t log" and seqs: "map (\<lambda>r. unat (tr_sequence r)) log = [1..<Suc n]"
  obtains rs where "tbl_iter t = map index_entry rs" "set rs = set log"
    "\<And>e m. filter (\<lambda>r. tr_entity_id r = e \<and> tr_machine r = m) rs =
            filter (\<lambda>r. tr_entity_id r = e \<and> tr_machine r = m) log"
proof -
  have "inj_on tr_sequence (set log)"
    using rep_log_sorted [OF seqs] by (auto simp: strict_sorted_iff distinct_map)
  then have inj: "inj_on index_entry (set log)" by (auto simp: inj_on_def)
  have "set (tbl_iter t) = index_entry ` set log" using idx by (simp add: rep_index_def)
  then obtain rs where "tbl_iter t = map index_entry rs" "set rs = set log"
    using inj by (rule list_of_image)
  with that index_entity_order [OF _ _ rep_log_sorted [OF seqs]] show ?thesis by blast
qed

lemma get_history_loop_decodes:
  assumes "\<And>r. r \<in> set rs \<Longrightarrow> \<exists>b. tbl_get t (tr_sequence r) = Some b \<and> from_slice_record cd b = Inr r"
    and "\<And>r. r \<in> set rs \<Longrightarrow> prefix p (fst (index_entry r)) \<longleftrightarrow> P r" and "length results \<le> limit"
  shows "get_history_loop cd no_fault t p limit after i (map index_entry rs) results =
    Inr (take limit (results @ filter (\<lambda>r. after < tr_sequence r) (filter P rs)))"
  using assms
proof (induction rs arbitrary: i results)
  case Nil
  then show ?case by simp
next
  case (Cons r rs)
  from Cons.prems(1) obtain b where "tbl_get t (tr_sequence r) = Some b" "from_slice_record cd b = Inr r"
    by auto
  with Cons show ?case by (auto simp: not_le take_Cons')
qed

lemma get_history_rep:
  assumes rep: "represents cd db st" and nul: "nul_free e" "nul_free m"
  shows "get_history cd no_fault db e m limit after =
    Inr (take (unat (case limit of Some l \<Rightarrow> l | None \<Rightarrow> - 1))
      (filter (\<lambda>r. (case after of Some a \<Rightarrow> a | None \<Rightarrow> 0) < tr_sequence r) (history_of st e m)))"
proof -
  have idx: "rep_index (t_entity_transitions db) (st_log st)"
    and "map (\<lambda>r. unat (tr_sequence r)) (st_log st) = [1..<Suc (length (st_log st))]"
    using rep by (simp_all add: represents_def rep_log_def)
  then obtain rs where rs: "tbl_iter (t_entity_transitions db) = map index_entry rs" "set rs = set (st_log st)"
    "filter (\<lambda>r. tr_entity_id r = e \<and> tr_machine r = m) rs = history_of st e m"
    unfolding history_of_def by (rule index_iter) blast
  have "\<exists>b. tbl_get (t_transitions db) (tr_sequence r) = Some b \<and> from_slice_record cd b = Inr r"
    if "r \<in> set rs" for r
    using that rs(2) log_table_get [OF rep, of r] by blast
  moreover have "prefix (entity_transition_prefix e m) (fst (index_entry r)) \<longleftrightarrow>
      tr_entity_id r = e \<and> tr_machine r = m" if "r \<in> set rs" for r
    using that rs(2) nul idx by (intro history_key_prefix) (auto simp: rep_index_def)
  ultimately show ?thesis
    unfolding get_history_def Let_def rs(1)
    by (simp only: redb_do_no_fault open_tables_no_fault)
      (subst get_history_loop_decodes [where P = "\<lambda>r. tr_entity_id r = e \<and> tr_machine r = m"],
        auto simp: rs(3))
qed

lemma get_pending_loop_decodes:
  "list_all2 (decodes (from_slice_effect cd) key) es vs \<Longrightarrow> length results \<le> limit \<Longrightarrow>
   get_pending_loop cd no_fault limit i es results =
     Inr (take limit (results @ filter (\<lambda>e. ef_status e = Pending) vs))"
proof (induction arbitrary: i results rule: list_all2_induct)
  case Nil
  then show ?case by simp
next
  case (Cons e es v vs)
  then show ?case by (cases e) (auto simp: take_Cons')
qed

lemma get_pending_effects_rep:
  assumes "represents cd db st"
  shows "\<exists>es. get_pending_effects cd no_fault db l = Inr (take (unat l) es) \<and>
    effects_listing st (\<lambda>e. ef_status e = Pending) es"
proof -
  have "holds (from_slice_effect cd) ef_id (t_effects db) (ran (st_effects st))"
    using assms by (simp add: represents_def rep_effects_def)
  then obtain es where es: "list_all2 (decodes (from_slice_effect cd) ef_id) (tbl_iter (t_effects db)) es"
    "set es = ran (st_effects st)" "sorted_wrt (<) (map ef_id es)"
    by (rule holds_iter)
  then have "effects_listing st (\<lambda>e. ef_status e = Pending) (filter (\<lambda>e. ef_status e = Pending) es)"
    by (auto simp: effects_listing_def sorted_wrt_map sorted_wrt_filter)
  with es show ?thesis
    by (intro exI [of _ "filter (\<lambda>e. ef_status e = Pending) es"])
      (simp add: get_pending_effects_def get_pending_loop_decodes)
qed

lemma get_effects_loop_decodes:
  assumes "\<And>e. e \<in> set es \<Longrightarrow> \<exists>b. tbl_get t (ef_id e) = Some b \<and> from_slice_effect cd b = Inr e"
  shows "get_effects_loop cd no_fault t p i (map txn_entry es) results =
    Inr (results @ takeWhile (\<lambda>e. prefix p (fst (txn_entry e))) es)"
  using assms
proof (induction es arbitrary: i results)
  case Nil
  then show ?case by simp
next
  case (Cons e es)
  from Cons.prems obtain b where "tbl_get t (ef_id e) = Some b" "from_slice_effect cd b = Inr e"
    by auto
  with Cons show ?case by auto
qed

lemma txn_key_prefix:
  assumes "nul_free t" "nul_free (ef_transition_id e)"
  shows "prefix (effect_by_txn_prefix t) (fst (txn_entry e)) \<longleftrightarrow> ef_transition_id e = t"
  using assms nul_sep_prefix [of t "ef_transition_id e" "[]" "ef_id e"]
  by (auto simp: effect_by_txn_prefix_def effect_by_txn_key_def)

lemma get_effects_for_transition_rep:
  assumes rep: "represents cd db st" and nul: "nul_free t"
  shows "\<exists>es. get_effects_for_transition cd no_fault db t = Inr es \<and>
    effects_listing st (\<lambda>e. ef_transition_id e = t) es"
proof -
  let ?p = "effect_by_txn_prefix t" and ?key = "\<lambda>e. fst (txn_entry e)"
  have eff: "rep_effects cd (t_effects db) (t_effects_by_txn db) (st_effects st)"
    using rep by (simp add: represents_def)
  then have "keyed ef_id (st_effects st)" and set: "set (tbl_iter (t_effects_by_txn db)) = txn_entry ` ran (st_effects st)"
    by (simp_all add: rep_effects_def)
  then have "inj_on txn_entry (ran (st_effects st))"
    by (auto simp: inj_on_def keyed_ran_iff)
  with set obtain es where es: "tbl_iter (t_effects_by_txn db) = map txn_entry es" "set es = ran (st_effects st)"
    by (rule list_of_image)
  have sorted: "sorted_wrt (<) (map ?key es)"
    using tb.iter_sorted [of "t_effects_by_txn db"] by (simp add: es(1) comp_def)
  have pre: "prefix ?p (?key e) \<longleftrightarrow> ef_transition_id e = t" if "e \<in> set es" for e
    using that es(2) eff nul by (intro txn_key_prefix) (auto simp: rep_effects_def)
  have range: "tbl_range (t_effects_by_txn db) ?p = map txn_entry (filter (\<lambda>e. ?p \<le> ?key e) es)"
    by (simp add: tbl_range_def es(1) filter_map comp_def)
  have "\<exists>b. tbl_get (t_effects db) (ef_id e) = Some b \<and> from_slice_effect cd b = Inr e" if "e \<in> set es" for e
    using that es(2) eff by (auto simp: rep_effects_def elim: holds_Some)
  then have "get_effects_for_transition cd no_fault db t =
      Inr (takeWhile (\<lambda>e. prefix ?p (?key e)) (filter (\<lambda>e. ?p \<le> ?key e) es))"
    unfolding get_effects_for_transition_def Let_def range
    by (simp only: redb_do_no_fault open_tables_no_fault) (subst get_effects_loop_decodes, auto)
  also have "\<dots> = Inr (filter (\<lambda>e. ef_transition_id e = t) es)"
    unfolding takeWhile_prefix [OF sorted] using pre by (auto intro: filter_cong)
  finally have get: "get_effects_for_transition cd no_fault db t = Inr (filter (\<lambda>e. ef_transition_id e = t) es)" .
  have "sorted_wrt (\<lambda>a b. ?key a < ?key b) (filter (\<lambda>e. ef_transition_id e = t) es)"
    using sorted by (simp add: sorted_wrt_map sorted_wrt_filter)
  then have "sorted_wrt (\<lambda>a b. ef_id a < ef_id b) (filter (\<lambda>e. ef_transition_id e = t) es)"
    by (rule sorted_wrt_mono_rel [rotated]) (auto simp: effect_by_txn_key_def append_less_iff)
  then have "effects_listing st (\<lambda>e. ef_transition_id e = t) (filter (\<lambda>e. ef_transition_id e = t) es)"
    using es(2) by (auto simp: effects_listing_def sorted_wrt_map)
  with get show ?thesis by blast
qed

section \<open>The method table and its contracts\<close>

text \<open>\<open>impl StorageEngine for RedbEngine\<close>.\<close>

definition redb_storage :: "'b codec \<Rightarrow> fault \<Rightarrow> 'b db storage_engine" where
  "redb_storage cd flt = \<lparr>
     op_store_machine = store_machine cd flt,
     op_get_machine = get_machine cd flt,
     op_list_machines = list_machines cd flt,
     op_get_entity_state = get_entity_state cd flt,
     op_upsert_entity_state = upsert_entity_state cd flt,
     op_list_entities_in_state = list_entities_in_state cd flt,
     op_append_transition = append_transition cd flt,
     op_get_transition = get_transition cd flt,
     op_get_history = get_history cd flt,
     op_get_transitions_after = get_transitions_after cd flt,
     op_insert_effects = insert_effects cd flt,
     op_get_pending_effects = get_pending_effects cd flt,
     op_get_effects_for_transition = get_effects_for_transition cd flt,
     op_mark_effect_published = mark_effect_published cd flt,
     op_mark_effect_failed = mark_effect_failed cd flt,
     op_check_idempotency = check_idempotency cd flt,
     op_execute_transition = execute_transition cd flt,
     op_current_sequence = current_sequence flt\<rparr>"

lemma redb_storage_simps [simp]:
  "op_store_machine (redb_storage cd flt) = store_machine cd flt"
  "op_get_machine (redb_storage cd flt) = get_machine cd flt"
  "op_list_machines (redb_storage cd flt) = list_machines cd flt"
  "op_get_entity_state (redb_storage cd flt) = get_entity_state cd flt"
  "op_get_history (redb_storage cd flt) = get_history cd flt"
  "op_get_transitions_after (redb_storage cd flt) = get_transitions_after cd flt"
  "op_get_pending_effects (redb_storage cd flt) = get_pending_effects cd flt"
  "op_get_effects_for_transition (redb_storage cd flt) = get_effects_for_transition cd flt"
  "op_mark_effect_published (redb_storage cd flt) = mark_effect_published cd flt"
  "op_mark_effect_failed (redb_storage cd flt) = mark_effect_failed cd flt"
  "op_check_idempotency (redb_storage cd flt) = check_idempotency cd flt"
  "op_execute_transition (redb_storage cd flt) = execute_transition cd flt"
  "op_current_sequence (redb_storage cd flt) = current_sequence flt"
  by (simp_all add: redb_storage_def)

interpretation redb_atomic: atomic_storage "redb_storage cd flt" for cd flt
  by unfold_locales
    (auto simp: store_machine_def execute_transition_def mark_effect_published_def
      mark_effect_failed_def update_effect_status_def dest: write_tx_Inl)

text \<open>A method that returns \<open>Ok\<close> under failures returns what it does without them.\<close>

lemma degrades_Inr: "degrades flt a b \<Longrightarrow> a = Inr x \<Longrightarrow> b = Inr x"
  by (auto simp: degrades_def)

lemma degrades_NotFound: "degrades flt a b \<Longrightarrow> a = Inl (NotFound s) \<Longrightarrow> b = Inl (NotFound s)"
  by (auto simp: degrades_def from_redb_def split: if_splits)

lemma get_history_loop_degrades [degrades_intros]:
  "degrades flt (get_history_loop cd flt t p l a i es rs) (get_history_loop cd no_fault t p l a i es rs)"
proof (induction es arbitrary: i rs)
  case Nil
  show ?case unfolding get_history_loop.simps by (intro degrades_intros)
next
  case (Cons e es)
  show ?case
    by (cases e, hypsubst) (unfold get_history_loop.simps, intro degrades_intros Cons.IH)
qed

lemma get_transitions_after_loop_degrades [degrades_intros]:
  "degrades flt (get_transitions_after_loop cd flt l i es rs) (get_transitions_after_loop cd no_fault l i es rs)"
proof (induction es arbitrary: i rs)
  case Nil
  show ?case unfolding get_transitions_after_loop.simps by (intro degrades_intros)
next
  case (Cons e es)
  show ?case
    by (cases e, hypsubst) (unfold get_transitions_after_loop.simps, intro degrades_intros Cons.IH)
qed

lemma get_pending_loop_degrades [degrades_intros]:
  "degrades flt (get_pending_loop cd flt l i es rs) (get_pending_loop cd no_fault l i es rs)"
proof (induction es arbitrary: i rs)
  case Nil
  show ?case unfolding get_pending_loop.simps by (intro degrades_intros)
next
  case (Cons e es)
  show ?case
    by (cases e, hypsubst) (unfold get_pending_loop.simps, intro degrades_intros Cons.IH)
qed

lemma get_effects_loop_degrades [degrades_intros]:
  "degrades flt (get_effects_loop cd flt t p i es rs) (get_effects_loop cd no_fault t p i es rs)"
proof (induction es arbitrary: i rs)
  case Nil
  show ?case unfolding get_effects_loop.simps by (intro degrades_intros)
next
  case (Cons e es)
  show ?case
    by (cases e, hypsubst) (unfold get_effects_loop.simps, intro degrades_intros Cons.IH)
qed

lemma reads_degrade:
  "degrades flt (get_machine cd flt db n v) (get_machine cd no_fault db n v)"
  "degrades flt (get_entity_state cd flt db e m) (get_entity_state cd no_fault db e m)"
  "degrades flt (get_history cd flt db e m l a) (get_history cd no_fault db e m l a)"
  "degrades flt (get_transitions_after cd flt db s k) (get_transitions_after cd no_fault db s k)"
  "degrades flt (check_idempotency cd flt db ik) (check_idempotency cd no_fault db ik)"
  "degrades flt (get_effects_for_transition cd flt db t) (get_effects_for_transition cd no_fault db t)"
  "degrades flt (get_pending_effects cd flt db k) (get_pending_effects cd no_fault db k)"
  unfolding get_machine_def get_entity_state_def get_history_def get_transitions_after_def
    check_idempotency_def get_effects_for_transition_def get_pending_effects_def Let_def
  by (intro degrades_intros)+

lemma execute_transition_body_degrades:
  "execute_transition cd flt db r ns efs = execute_transition cd no_fault db r ns efs \<or>
   (\<exists>c e. flt c = Some e \<and> execute_transition cd flt db r ns efs = (Inl (from_redb c e), db))"
  unfolding execute_transition_def Let_def by (rule write_tx_degrades) (intro degrades_intros)

lemma update_effect_status_body_degrades:
  "update_effect_status cd flt db i v = update_effect_status cd no_fault db i v \<or>
   (\<exists>c e. flt c = Some e \<and> update_effect_status cd flt db i v = (Inl (from_redb c e), db))"
  unfolding update_effect_status_def by (rule write_tx_degrades) (intro degrades_intros)

lemma store_machine_body_degrades:
  "store_machine cd flt db d = store_machine cd no_fault db d \<or>
   (\<exists>c e. flt c = Some e \<and> store_machine cd flt db d = (Inl (from_redb c e), db))"
  unfolding store_machine_def by (rule write_tx_degrades) (intro degrades_intros)

lemma update_effect_status_ok:
  assumes rep: "represents cd db st" and ok: "update_effect_status cd flt db i v = (Inr u, db')"
  shows "represents cd db' (set_status st i v)"
proof -
  have ok: "update_effect_status cd no_fault db i v = (Inr u, db')"
    using update_effect_status_body_degrades [of cd flt db i v] ok by auto
  then obtain b where "tbl_get (t_effects db) i = Some b"
    by (auto simp: update_effect_status_def write_tx_Inr_iff)
  moreover have holds: "holds (from_slice_effect cd) ef_id (t_effects db) (ran (st_effects st))"
    and kd: "keyed ef_id (st_effects st)"
    using rep by (simp_all add: represents_def rep_effects_def)
  ultimately obtain e where "st_effects st i = Some e"
    using holds_None [OF holds, of i] by (auto simp: keyed_ran_iff [OF kd])
  with update_effect_status_rep [OF rep this, of v] ok show ?thesis
    by (simp add: set_status_def)
qed

interpretation redb_safe: safe_storage "redb_storage cd flt" "represents cd" for cd flt
proof unfold_locales
  fix db st
  assume rep: "represents cd db st"
  note reads = reads_degrade [THEN degrades_Inr]
  show "map (\<lambda>r. unat (tr_sequence r)) (st_log st) = [1..<Suc (length (st_log st))]"
    using rep by (simp add: represents_def rep_log_def)
  show "represents cd db' (st\<lparr>st_machines := (st_machines st)(md_name d \<mapsto> d)\<rparr>)"
    if "op_store_machine (redb_storage cd flt) db d = (Inr u, db')" for d u db'
    using that store_machine_rep [OF rep, of d] store_machine_body_degrades [of cd flt db d] by auto
  show "st_machines st n = Some d" if "op_get_machine (redb_storage cd flt) db n v = Inr d" for n v d
    using reads(1) [OF that [simplified]] get_machine_rep [OF rep] by simp
  show "st_states st (e, m) = Some ns"
    if "nul_free e" and "op_get_entity_state (redb_storage cd flt) db e m = Inr ns" for e m ns
    using reads(2) [OF that(2) [simplified]] get_entity_state_rep [OF rep that(1)] by simp
  show "st_states st (e, m) = None"
    if "nul_free e" and "op_get_entity_state (redb_storage cd flt) db e m = Inl (NotFound s)" for e m s
    using degrades_NotFound [OF reads_degrade(2) that(2) [simplified]] get_entity_state_rep [OF rep that(1)] by simp
  show "rs = history_page st e m limit after"
    if "nul_free e" "nul_free m" and "op_get_history (redb_storage cd flt) db e m limit after = Inr rs"
    for e m limit after rs
    using reads(3) [OF that(3) [simplified]] get_history_rep [OF rep that(1,2)] by (simp add: history_page_def)
  show "rs = take (unat l) (log_after st a)"
    if "a + 1 \<noteq> 0" and "op_get_transitions_after (redb_storage cd flt) db a l = Inr rs" for a l rs
    using reads(4) [OF that(2) [simplified]] get_transitions_after_rep [OF rep that(1)] by simp
  show "found = keyed_record st k" if "op_check_idempotency (redb_storage cd flt) db k = Inr found" for k found
    using reads(5) [OF that [simplified]] check_idempotency_rep [OF rep] by simp
  show "effects_listing st (\<lambda>e. ef_transition_id e = t) es"
    if "nul_free t" and "op_get_effects_for_transition (redb_storage cd flt) db t = Inr es" for t es
    using reads(6) [OF that(2) [simplified]] get_effects_for_transition_rep [OF rep that(1)] by simp
  show "\<exists>all. es = take (unat l) all \<and> effects_listing st (\<lambda>e. ef_status e = Pending) all"
    if "op_get_pending_effects (redb_storage cd flt) db l = Inr es" for l es
    using reads(7) [OF that [simplified]] get_pending_effects_rep [OF rep, of l] by auto
  show "\<exists>st'. commit st r ns efs = Inr (x, st') \<and> represents cd db' st'"
    if "admissible st r ns efs" and "op_execute_transition (redb_storage cd flt) db r ns efs = (Inr x, db')"
    for r ns efs x db'
    using that execute_transition_rep [OF rep that(1)] execute_transition_body_degrades [of cd flt db r ns efs]
    by (auto split: sum.splits)
qed (simp_all add: mark_effect_published_def mark_effect_failed_def update_effect_status_ok)

interpretation redb: storage_contract "redb_storage cd no_fault" "represents cd" for cd
proof unfold_locales
  fix db :: "'a db" and st :: store
  assume rep: "represents cd db st"
  show "\<exists>db'. op_mark_effect_published (redb_storage cd no_fault) db i = (Inr (), db')"
    if "st_effects st i \<noteq> None" for i
    using that update_effect_status_rep [OF rep, of i _ Published] by (auto simp: mark_effect_published_def)
  show "\<exists>es. op_get_effects_for_transition (redb_storage cd no_fault) db t = Inr es" if "nul_free t" for t
    using get_effects_for_transition_rep [OF rep that] by auto
  show "\<exists>es. op_get_pending_effects (redb_storage cd no_fault) db l = Inr es" for l
    using get_pending_effects_rep [OF rep, of l] by auto
  show "\<exists>db'. op_store_machine (redb_storage cd no_fault) db d = (Inr (), db')" for d
    using store_machine_rep [OF rep, of d] by auto
  show "commit st r ns efs = Inl err"
    if "admissible st r ns efs" "op_execute_transition (redb_storage cd no_fault) db r ns efs = (Inl err, db')"
    for r ns efs err db'
    using that execute_transition_rep [OF rep that(1)] by (auto split: sum.splits)
qed (simp_all add: get_machine_rep get_entity_state_rep get_history_rep
  get_transitions_after_rep check_idempotency_rep)

end
