(* ===== verification/Storage_Props.thy ===== *)
theory Storage_Props
  imports Storage_Refine
begin

text \<open>
  The properties of \<open>RedbEngine\<close>: a transition is committed completely or not at all,
  whatever database call fails; it does what the abstract store prescribes; what is
  written is read back; pages of a history join up; and the exact behaviour in the corner
  cases where the code and its documentation differ.
\<close>

section \<open>A serialiser\<close>

text \<open>
  The assumption on the serialiser can hold: tagged values instead of bytes.
\<close>

datatype blob = BMachine machine_definition | BState entity_state | BRecord transition_record | BEffect effect

definition blob_codec :: "blob codec" where
  "blob_codec = \<lparr>
     to_vec_machine = Inr \<circ> BMachine,
     from_slice_machine = (\<lambda>b. case b of BMachine d \<Rightarrow> Inr d | _ \<Rightarrow> Inl ''invalid type''),
     to_vec_state = Inr \<circ> BState,
     from_slice_state = (\<lambda>b. case b of BState s \<Rightarrow> Inr s | _ \<Rightarrow> Inl ''invalid type''),
     to_vec_record = Inr \<circ> BRecord,
     from_slice_record = (\<lambda>b. case b of BRecord r \<Rightarrow> Inr r | _ \<Rightarrow> Inl ''invalid type''),
     to_vec_effect = Inr \<circ> BEffect,
     from_slice_effect = (\<lambda>b. case b of BEffect e \<Rightarrow> Inr e | _ \<Rightarrow> Inl ''invalid type'')\<rparr>"

lemma blob_codec_ok: "codec_ok blob_codec"
  by (simp add: codec_ok_def round_trips_def blob_codec_def)

section \<open>A database with one transition\<close>

definition demo_record :: transition_record where
  "demo_record = \<lparr>tr_id = ''t1'', tr_sequence = 0, tr_entity_id = ''gate'', tr_machine = ''turnstile'',
     tr_from_state = ''locked'', tr_to_state = ''open'', tr_event = ''coin'', tr_actor = ''alice'',
     tr_ctx = JNull, tr_idempotency_key = Some ''k1'', tr_version = 1, tr_timestamp = 5\<rparr>"

definition demo_state :: entity_state where
  "demo_state = \<lparr>es_entity_id = ''gate'', es_machine = ''turnstile'', es_current_state = ''open'',
     es_version = 1, es_updated_at = 5, es_created_at = 5\<rparr>"

definition demo_effect :: effect where
  "demo_effect = effect_new ''e1'' 5 ''t1'' ''beep'' JNull"

definition demo_db :: "blob db" where
  "demo_db = snd (execute_transition blob_codec no_fault empty_db demo_record demo_state [demo_effect])"

definition demo_store :: store where
  "demo_store = commit_store empty_store demo_record demo_state [demo_effect]"

lemma empty_represents: "represents blob_codec empty_db empty_store"
  by (rule represents_empty [OF blob_codec_ok])

lemma demo_admissible: "admissible empty_store demo_record demo_state [demo_effect]"
  by (simp add: admissible_def empty_store_def demo_record_def demo_state_def demo_effect_def
      effect_new_def nul_free_def)

lemma demo_commit: "commit empty_store demo_record demo_state [demo_effect] =
    Inr ((1, demo_record\<lparr>tr_sequence := 1\<rparr>), demo_store)"
  by (simp add: commit_def stale_version_def empty_store_def demo_record_def demo_store_def keyed_record_def
      next_seq_def)

lemma demo_execute: "execute_transition blob_codec no_fault empty_db demo_record demo_state [demo_effect] =
    (Inr (1, demo_record\<lparr>tr_sequence := 1\<rparr>), demo_db)"
  and demo_represents: "represents blob_codec demo_db demo_store"
  using execute_transition_rep [OF empty_represents demo_admissible] by (auto simp: demo_commit demo_db_def)

lemma demo_log: "st_log demo_store = [demo_record\<lparr>tr_sequence := 1\<rparr>]"
  by (simp add: demo_store_def commit_store_def empty_store_def next_seq_def)

section \<open>Properties\<close>

lemma log_after_new:
  assumes rep: "represents cd db st" and len: "Suc (length (st_log st)) < 2 ^ 64"
  shows "filter (\<lambda>x. next_seq st - 1 < tr_sequence x) (st_log st) = []"
    and "next_seq st - 1 < next_seq st" and "unat (next_seq st) = Suc (length (st_log st))"
proof -
  have rl: "rep_log cd (t_transitions db) (stored_sequence db) (st_log st)"
    using rep by (simp add: represents_def)
  show u: "unat (next_seq st) = Suc (length (st_log st))"
    using rep_log_next [OF rl len] next_seq_stored [OF rep] by simp
  have q: "next_seq st - 1 = stored_sequence db"
    using next_seq_stored [OF rep] by (metis add_diff_cancel_right')
  show "filter (\<lambda>x. next_seq st - 1 < tr_sequence x) (st_log st) = []"
    using rep_log_bound [OF rl] by (auto simp: q filter_empty_conv not_less)
  show "next_seq st - 1 < next_seq st"
    using u rl by (simp add: q rep_log_def word_less_nat_alt)
qed

text \<open>
  C15. Atomicity of \<open>execute_transition\<close> under any pattern of failing database calls and
  serialisation errors: if it returns an error the committed tables are untouched, and
  the error is the one of the failure-free run or that of a call that failed; if it
  succeeds, result and tables are those of the failure-free run.
\<close>

theorem execute_transition_all_or_nothing:
  "case execute_transition cd flt db r ns efs of
     (Inl e, db') \<Rightarrow> db' = db \<and>
       (execute_transition cd no_fault db r ns efs = (Inl e, db) \<or> (\<exists>c m. flt c = Some m \<and> e = from_redb c m))
   | (Inr x, db') \<Rightarrow> execute_transition cd no_fault db r ns efs = (Inr x, db')"
proof -
  obtain q db' where ex: "execute_transition cd flt db r ns efs = (q, db')" by force
  have "db' = db" if "q = Inl e" for e
    using redb_atomic.execute_transition_atomic [of cd flt db r ns efs] ex that by auto
  with ex execute_transition_body_degrades [of cd flt db r ns efs] show ?thesis
    by (cases q) auto
qed

text \<open>
  C14. \<open>execute_transition\<close> implements the abstract commit: on tables that represent a store,
  for a record with fresh identifiers and NUL-free names, it refuses a state whose version
  does not follow the stored one and a used idempotency key with the documented errors and
  no change; otherwise it returns the next sequence number and leaves tables that
  represent the store with the record appended to the log, the projection replaced and
  the effects added.
\<close>

theorem execute_transition_refines:
  assumes "represents cd db st" and "admissible st r ns efs"
  shows "case commit st r ns efs of
           Inl e \<Rightarrow> execute_transition cd no_fault db r ns efs = (Inl e, db)
         | Inr (x, st') \<Rightarrow>
             \<exists>db'. execute_transition cd no_fault db r ns efs = (Inr x, db') \<and> represents cd db' st'"
  by (rule execute_transition_rep [OF assms])

theorem execute_transition_refines_witness:
  "represents blob_codec empty_db empty_store \<and>
   admissible empty_store demo_record demo_state [demo_effect] \<and>
   (\<exists>db'. execute_transition blob_codec no_fault empty_db demo_record demo_state [demo_effect] =
       (Inr (1, demo_record\<lparr>tr_sequence := 1\<rparr>), db') \<and> represents blob_codec db' demo_store)"
  using execute_transition_refines [OF empty_represents demo_admissible]
  by (simp add: demo_commit empty_represents demo_admissible)

text \<open>
  C20. Read your writes: after a successful \<open>execute_transition\<close> the transition is found by its
  identifier, is the last one of the log, is what its idempotency key returns, and the
  entity's state is the state written; the sequence returned is the next one.
\<close>

theorem execute_transition_read_back:
  assumes rep: "represents cd db st" and adm: "admissible st r ns efs"
    and ok: "execute_transition cd no_fault db r ns efs = (Inr (seq, r'), db')"
  shows "r' = r\<lparr>tr_sequence := seq\<rparr> \<and> unat seq = Suc (length (st_log st)) \<and>
    get_transition cd no_fault db' (tr_id r) = Inr r' \<and>
    get_entity_state cd no_fault db' (es_entity_id ns) (es_machine ns) = Inr ns \<and>
    current_sequence no_fault db' = Inr seq \<and>
    get_transitions_after cd no_fault db' (seq - 1) 1 = Inr [r'] \<and>
    (case tr_idempotency_key r of None \<Rightarrow> True
     | Some k \<Rightarrow> check_idempotency cd no_fault db' k = Inr (Some r'))"
proof -
  obtain st' where c: "commit st r ns efs = Inr ((seq, r'), st')" and rep': "represents cd db' st'"
    using execute_transition_rep [OF rep adm] ok by (auto split: sum.splits)
  then have st': "st' = commit_store st r ns efs" and seq: "seq = next_seq st" and r': "r' = r\<lparr>tr_sequence := seq\<rparr>"
    and key: "\<And>k. tr_idempotency_key r = Some k \<Longrightarrow> keyed_record st k = None"
    by (auto simp: commit_def split: option.splits if_splits)
  have log: "st_log st' = st_log st @ [r']" by (simp add: st' commit_store_def r' seq)
  have len: "Suc (length (st_log st)) < 2 ^ 64" using adm by (simp add: admissible_def)
  have useq: "unat seq = Suc (length (st_log st))"
    using log_after_new(3) [OF rep len] seq by simp
  have "find (\<lambda>x. tr_id x = tr_id r) (st_log st) = None"
    using adm by (simp add: admissible_def find_None_image)
  then have t: "get_transition cd no_fault db' (tr_id r) = Inr r'"
    by (simp add: get_transition_rep [OF rep'] log find_snoc r')
  have s: "get_entity_state cd no_fault db' (es_entity_id ns) (es_machine ns) = Inr ns"
    using adm by (simp add: get_entity_state_rep [OF rep'] admissible_def st' commit_store_def)
  have q: "current_sequence no_fault db' = Inr seq"
    by (simp add: current_sequence_rep [OF rep'] log seq next_seq_def)
  have "log_after st' (seq - 1) = [r']"
    using log_after_new [OF rep len] by (simp add: log log_after_def r' seq)
  moreover have "seq - 1 + 1 \<noteq> 0" using useq by auto
  ultimately have a: "get_transitions_after cd no_fault db' (seq - 1) 1 = Inr [r']"
    by (subst get_transitions_after_rep [OF rep']) simp_all
  have "check_idempotency cd no_fault db' k = Inr (Some r')" if "tr_idempotency_key r = Some k" for k
    using key [OF that] that by (simp add: check_idempotency_rep [OF rep'] keyed_record_def log find_snoc r')
  with r' useq t s q a show ?thesis by (auto split: option.splits)
qed

theorem execute_transition_read_back_witness:
  "execute_transition blob_codec no_fault empty_db demo_record demo_state [demo_effect] =
     (Inr (1, demo_record\<lparr>tr_sequence := 1\<rparr>), demo_db) \<and>
   get_transition blob_codec no_fault demo_db ''t1'' = Inr (demo_record\<lparr>tr_sequence := 1\<rparr>) \<and>
   check_idempotency blob_codec no_fault demo_db ''k1'' = Inr (Some (demo_record\<lparr>tr_sequence := 1\<rparr>))"
  using execute_transition_read_back [OF empty_represents demo_admissible demo_execute] demo_execute
  by (simp add: demo_record_def)

text \<open>
  C21. Pagination is complete: a page of a history followed by the rest, fetched from the
  cursor at the end of that page, is the whole history after the original cursor; nothing
  is lost or repeated at the seam.
\<close>

theorem history_pages_join:
  assumes rep: "represents cd db st" and nul: "nul_free e" "nul_free m" and len: "length (st_log st) < 2 ^ 32"
  shows "\<exists>p q. get_history cd no_fault db e m (Some l) a = Inr p \<and>
    get_history cd no_fault db e m None (if p = [] then a else Some (tr_sequence (last p))) = Inr q \<and>
    (l = 0 \<or> get_history cd no_fault db e m None a = Inr (p @ q))"
proof -
  define h where "h = filter (\<lambda>r. (case a of Some a \<Rightarrow> a | None \<Rightarrow> 0) < tr_sequence r) (history_of st e m)"
  define p where "p = take (unat l) h"
  have "map (\<lambda>r. unat (tr_sequence r)) (st_log st) = [1..<Suc (length (st_log st))]"
    using rep by (simp add: represents_def rep_log_def)
  from rep_log_sorted [OF this]
  have sorted: "sorted_wrt (\<lambda>x y. tr_sequence x < tr_sequence y) (take (unat l) h @ drop (unat l) h)"
    by (simp add: h_def history_of_def sorted_wrt_map sorted_wrt_filter)
  have short: "length (filter P (history_of st e m)) \<le> unat (- 1 :: u32)" for P
  proof -
    have "length (filter P (history_of st e m)) \<le> length (st_log st)"
      by (metis history_of_def length_filter_le order_trans)
    moreover have "unat (- 1 :: u32) = 2 ^ 32 - 1"
      by (simp add: unsigned_minus_1_eq_mask mask_eq_exp_minus_1)
    ultimately show ?thesis using len by linarith
  qed
  have all: "get_history cd no_fault db e m None c =
      Inr (filter (\<lambda>r. (case c of Some c \<Rightarrow> c | None \<Rightarrow> 0) < tr_sequence r) (history_of st e m))" for c
    by (subst get_history_rep [OF rep nul]) (simp only: option.case short take_all)
  have p_page: "get_history cd no_fault db e m (Some l) a = Inr p"
    by (simp add: get_history_rep [OF rep nul] p_def h_def)
  have "get_history cd no_fault db e m None a = Inr (p @ q)"
    if "l \<noteq> 0" and "get_history cd no_fault db e m None (if p = [] then a else Some (tr_sequence (last p))) = Inr q" for q
  proof (cases "p = []")
    case True
    with that show ?thesis by simp
  next
    case False
    then have "filter (\<lambda>r. tr_sequence (last p) < tr_sequence r) (p @ drop (unat l) h) = drop (unat l) h"
      using sorted unfolding p_def by (rule filter_after_last [rotated])
    then have h: "filter (\<lambda>r. tr_sequence (last p) < tr_sequence r) h = drop (unat l) h" by (simp add: p_def)
    have "last p \<in> set h" using last_in_set [OF False] by (auto simp: p_def dest: in_set_takeD)
    then have "filter (\<lambda>r. tr_sequence (last p) < tr_sequence r) (history_of st e m) =
        filter (\<lambda>r. tr_sequence (last p) < tr_sequence r) h"
      by (auto simp: h_def intro!: filter_cong)
    with that(2) False h have "q = drop (unat l) h" by (simp add: all)
    then show ?thesis by (simp add: all h_def [symmetric] p_def)
  qed
  with p_page all show ?thesis by blast
qed

theorem history_pages_join_witness:
  "represents blob_codec demo_db demo_store \<and>
   (\<exists>p q. get_history blob_codec no_fault demo_db ''gate'' ''turnstile'' (Some 1) None = Inr p \<and>
      get_history blob_codec no_fault demo_db ''gate'' ''turnstile'' None
        (if p = [] then None else Some (tr_sequence (last p))) = Inr q \<and>
      get_history blob_codec no_fault demo_db ''gate'' ''turnstile'' None None = Inr (p @ q))"
  using history_pages_join [OF demo_represents, of "''gate''" "''turnstile''" 1 None] demo_represents
  by (simp add: nul_free_def demo_log)

text \<open>
  C32. Reading the log: for a cursor below the last \<open>u64\<close> value the result is the records
  after the cursor, in order, at most \<open>limit\<close> of them. The cursor \<open>u64::MAX\<close> wraps to
  zero: nothing is after it, yet the log is returned from its start.
\<close>

theorem transitions_after_cursor:
  assumes "represents cd db st"
  shows "get_transitions_after cd no_fault db a l =
    Inr (take (unat l) (if a = - 1 then st_log st else filter (\<lambda>r. a < tr_sequence r) (st_log st)))"
proof (cases "a = - 1")
  case True
  have "list_all2 (decodes (from_slice_record cd) tr_sequence) (tbl_iter (t_transitions db)) (st_log st)"
    using assms by (intro log_iter [of cd _ "stored_sequence db"]) (simp add: represents_def)
  with True show ?thesis
    by (simp add: get_transitions_after_def tbl_range_def get_transitions_after_loop_decodes)
next
  case False
  then have "a + 1 \<noteq> 0" by (metis add_eq_0_iff2 add.commute)
  with False show ?thesis by (simp add: get_transitions_after_rep [OF assms] log_after_def)
qed

theorem transitions_after_cursor_witness:
  "get_transitions_after blob_codec no_fault demo_db (- 1) 10 = Inr [demo_record\<lparr>tr_sequence := 1\<rparr>] \<and>
   get_transitions_after blob_codec no_fault demo_db 1 10 = Inr []"
  using transitions_after_cursor [OF demo_represents, of "- 1" 10]
    transitions_after_cursor [OF demo_represents, of 1 10]
  by (simp add: demo_log)

text \<open>
  \<open>store_machine\<close> never returns \<open>AlreadyExists\<close>: it replaces whatever is stored under the
  machine's name, also for an equal version, and \<open>get_machine\<close> returns the definition
  stored last whatever version is asked for.
\<close>

lemma store_machine_overwrites:
  assumes rep: "represents cd db st"
  shows "\<exists>db'. store_machine cd no_fault db d = (Inr (), db') \<and> get_machine cd no_fault db' (md_name d) v = Inr d"
proof -
  obtain db' where "store_machine cd no_fault db d = (Inr (), db')"
    "represents cd db' (st\<lparr>st_machines := (st_machines st)(md_name d \<mapsto> d)\<rparr>)"
    using store_machine_rep [OF rep] by blast
  then show ?thesis by (auto simp: get_machine_rep)
qed

text \<open>
  C33. \<open>upsert_entity_state\<close> on every branch: a state that follows the stored one, or the
  first state of an entity, is written; a version above 1 that does not follow is a
  \<open>VersionConflict\<close> and changes nothing; but version 1 (and 0) is written over whatever is
  stored, without the documented check.
\<close>

theorem upsert_entity_state_checks:
  assumes rep: "represents cd db st" and nul: "nul_free (es_entity_id s)"
  shows "case st_states st (es_entity_id s, es_machine s) of
      Some x \<Rightarrow>
        if 1 < es_version s \<and> es_version x \<noteq> es_version s - 1
        then upsert_entity_state cd no_fault db s =
               (Inl (StoredVersionConflict (es_entity_id s) (es_version s - 1) (es_version x)), db)
        else \<exists>db'. upsert_entity_state cd no_fault db s = (Inr (), db') \<and>
               represents cd db' (st\<lparr>st_states := (st_states st)((es_entity_id s, es_machine s) \<mapsto> s)\<rparr>)
    | None \<Rightarrow> \<exists>db'. upsert_entity_state cd no_fault db s = (Inr (), db') \<and>
               represents cd db' (st\<lparr>st_states := (st_states st)((es_entity_id s, es_machine s) \<mapsto> s)\<rparr>)"
proof -
  have states: "rep_states cd (t_entity_states db) (st_states st)" using rep by (simp add: represents_def)
  obtain b where b: "to_vec_state cd s = Inr b" "from_slice_state cd b = Inr s"
    using represents_codec [OF rep] unfolding codec_ok_def by (blast elim: enc_obtain)
  let ?db' = "db\<lparr>t_entity_states := tbl_insert (t_entity_states db) (state_key s) b\<rparr>"
  have rep': "represents cd ?db' (st\<lparr>st_states := (st_states st)(state_id s \<mapsto> s)\<rparr>)"
    using rep rep_states_upd [OF states b(2) nul] by (simp add: represents_def stored_sequence_def)
  have look: "(case tbl_get (t_entity_states db) (state_key s) of
      Some v \<Rightarrow> dec (from_slice_state cd) v | None \<Rightarrow> Inl err) = ok_or err (st_states st (state_id s))" for err
    using states nul by (intro holds_lookup [where kf = state_id and key = state_key])
      (auto simp: rep_states_def state_key_inject)
  show ?thesis
  proof (cases "tbl_get (t_entity_states db) (state_key s)")
    case None
    with look [of "Io []"] have "st_states st (state_id s) = None"
      by (cases "st_states st (state_id s)") auto
    with None b rep' show ?thesis
      by (auto simp: upsert_entity_state_def Let_def write_tx_no_fault)
  next
    case (Some v)
    with look [of "Io []"] obtain x where x: "st_states st (state_id s) = Some x \<and> dec (from_slice_state cd) v = Inr x \<or>
        st_states st (state_id s) = None \<and> dec (from_slice_state cd) v = Inl (Io [])"
      by (cases "st_states st (state_id s)") auto
    moreover have "dec (from_slice_state cd) v \<noteq> Inl (Io [])"
      by (auto simp: dec_def map_err_Inl_iff)
    ultimately show ?thesis
      using Some b rep' by (auto simp: upsert_entity_state_def Let_def write_tx_no_fault)
  qed
qed

theorem upsert_entity_state_checks_witness:
  "\<exists>db'. upsert_entity_state blob_codec no_fault demo_db (demo_state\<lparr>es_current_state := ''locked''\<rparr>) = (Inr (), db') \<and>
     represents blob_codec db' (demo_store\<lparr>st_states := (st_states demo_store)
       ((''gate'', ''turnstile'') \<mapsto> demo_state\<lparr>es_current_state := ''locked''\<rparr>)\<rparr>)"
proof -
  have "nul_free (es_entity_id (demo_state\<lparr>es_current_state := ''locked''\<rparr>))"
    by (simp add: demo_state_def nul_free_def)
  from upsert_entity_state_checks [OF demo_represents this] show ?thesis
    by (simp add: demo_state_def demo_store_def commit_store_def)
qed

text \<open>
  C34. Names that contain NUL collide: what is stored for entity \<open>a NUL b\<close> of machine \<open>c\<close> is
  returned for entity \<open>a\<close> of machine \<open>b NUL c\<close>.
\<close>

theorem nul_names_collide:
  assumes "codec_ok cd" and "upsert_entity_state cd no_fault db s = (Inr (), db')"
    and "es_entity_id s = a @ NUL # b" and "es_machine s = c"
  shows "get_entity_state cd no_fault db' a (b @ NUL # c) = Inr s"
proof -
  obtain v where v: "to_vec_state cd s = Inr v" "from_slice_state cd v = Inr s"
    using assms(1) unfolding codec_ok_def by (blast elim: enc_obtain)
  have "db' = db\<lparr>t_entity_states := tbl_insert (t_entity_states db) (state_key s) v\<rparr>"
    using assms(2) v by (auto simp: upsert_entity_state_def Let_def write_tx_Inr_iff)
  with v assms(3,4) show ?thesis by (simp add: get_entity_state_def entity_state_key_def)
qed

definition nul_state :: entity_state where
  "nul_state = demo_state\<lparr>es_entity_id := [CHR ''a'', NUL, CHR ''b''], es_machine := ''c''\<rparr>"

theorem nul_names_collide_witness:
  "\<exists>db'. upsert_entity_state blob_codec no_fault empty_db nul_state = (Inr (), db') \<and>
     get_entity_state blob_codec no_fault db' ''a'' [CHR ''b'', NUL, CHR ''c''] = Inr nul_state"
proof -
  have ok: "upsert_entity_state blob_codec no_fault empty_db nul_state =
      (Inr (), empty_db\<lparr>t_entity_states := tbl_insert tbl_empty (state_key nul_state) (BState nul_state)\<rparr>)"
    by (simp add: upsert_entity_state_def Let_def write_tx_no_fault empty_db_def blob_codec_def)
  from nul_names_collide [OF blob_codec_ok ok, of "''a''" "''b''" "''c''"] ok show ?thesis
    by (simp add: nul_state_def)
qed

end
