(* ===== verification/Database.thy ===== *)
theory Database
  imports Storage_Props
begin

text \<open>
  The engine running on \<open>RedbEngine\<close>, as \<open>smdbd\<close> assembles it: arbitrary sequences of
  engine calls, in which any database call may fail, as the inductive predicate
  \<open>engine_run\<close>; and the properties of storage and engine together.
\<close>

section \<open>Runs\<close>

text \<open>
  One call of the engine. A read (\<open>current\<close>, \<open>history\<close>, the machine look-ups) leaves the engine as
  it is; a client that goes away drops its receiver. A restart (after a crash or an
  orderly end) keeps the tables and nothing else.
\<close>

inductive engine_step :: "'s storage_engine \<Rightarrow> env \<Rightarrow> 's engine \<Rightarrow> 's engine \<Rightarrow> bool" for ops env e1 where
  step_define: "define_machine ops e1 d = (res, e2) \<Longrightarrow> engine_step ops env e1 e2"
| step_transition: "nul_free e \<Longrightarrow> nul_free m \<Longrightarrow>
    transition ops env e1 e m ev actor ctx expected key = (res, e2) \<Longrightarrow> engine_step ops env e1 e2"
| step_dispatch: "dispatch ops e1 = Some (k, e2) \<Longrightarrow> engine_step ops env e1 e2"
| step_guard: "engine_step ops env e1 (register_guard e1 g f)"
| step_subscribe: "engine_step ops env e1 (subscribe e1 sid flt a)"
| step_unsubscribe: "engine_step ops env e1 (unsubscribe e1 sid)"
| step_shutdown: "engine_step ops env e1 (shutdown e1)"
| step_dropped: "engine_step ops env e1 (receiver_dropped e1 i)"
| step_read: "engine_step ops env e1 e1"
| step_restart: "engine_step ops env e1 (engine_new (en_storage e1))"

text \<open>
  \<open>engine_run opss envs eng n eng'\<close>: \<open>n\<close> calls lead from \<open>eng\<close> to \<open>eng'\<close>; call number \<open>i\<close>
  uses the storage methods \<open>opss i\<close> (whose failures may differ from call to call) and draws
  clock readings and identifiers from \<open>envs i\<close>.
\<close>

inductive engine_run ::
  "(nat \<Rightarrow> 's storage_engine) \<Rightarrow> uuid_supply \<Rightarrow> 's engine \<Rightarrow> nat \<Rightarrow> 's engine \<Rightarrow> bool"
  for opss envs eng where
  run_start: "engine_run opss envs eng 0 eng"
| run_step: "engine_run opss envs eng n e1 \<Longrightarrow> engine_step (opss n) (envs n) e1 e2 \<Longrightarrow>
    engine_run opss envs eng (Suc n) e2"

lemmas run_define = run_step [OF _ step_define]
lemmas run_transition = run_step [OF _ step_transition]
lemmas run_dispatch = run_step [OF _ step_dispatch]
lemmas run_subscribe = run_step [OF _ step_subscribe]
lemmas run_dropped = run_step [OF _ step_dropped]
lemmas run_read = run_step [OF _ step_read]
lemmas run_restart = run_step [OF _ step_restart]
lemmas engine_run_intros = run_start run_define run_transition run_dispatch run_subscribe run_dropped run_read
  run_restart run_step [OF _ step_guard] run_step [OF _ step_unsubscribe] run_step [OF _ step_shutdown]

lemma sequences_positive:
  assumes "represents cd db st" and "r \<in> set (st_log st)"
  shows "0 < tr_sequence r"
proof -
  have "unat (tr_sequence r) \<in> set (map (\<lambda>r. unat (tr_sequence r)) (st_log st))" using assms(2) by simp
  then have "unat (tr_sequence r) \<noteq> 0" using redb_safe.rep_sequences [OF assms(1)] by auto
  then show ?thesis by (auto simp: word_gt_0)
qed

lemma from_supply_same:
  assumes "from_supply envs n st" and "st_log st' = st_log st" and "dom (st_effects st') = dom (st_effects st)"
  shows "from_supply envs (Suc n) st'"
  using from_supply_mono [OF assms(1)] assms(2,3) by (simp add: from_supply_def)

lemma from_supply_empty: "from_supply envs 0 empty_store"
  by (simp add: from_supply_def empty_store_def)

text \<open>The invariant of a run: the tables represent a consistent store built from the identifiers drawn.\<close>

lemma engine_step_invariant:
  assumes "engine_step (redb_storage cd flt) (envs n) e1 e2"
    and st: "represents cd (en_storage e1) st" "consistent st" "from_supply envs n st"
    and "good_supply envs" and "Suc n < 2 ^ 64"
  shows "\<exists>st'. represents cd (en_storage e2) st' \<and> consistent st' \<and> from_supply envs (Suc n) st' \<and>
    (\<exists>rs. st_log st' = st_log st @ rs)"
  using assms(1)
proof cases
  case (step_define d res)
  from redb_safe.define_machine_step [OF st(1,2) step_define] st(3) show ?thesis
    by (metis from_supply_same append_Nil2)
next
  case (step_transition e m ev actor ctx expected key res)
  from redb_safe.transition_step [OF st(1,2) step_transition(1,2) assms(5) st(3) assms(6) step_transition(3)]
  show ?thesis .
next
  case (step_dispatch k)
  from redb_safe.dispatch_step [OF st(1,2) step_dispatch] st(3) show ?thesis
    by (metis from_supply_same append_Nil2)
qed (use st(1,2) from_supply_mono [OF st(3)] in \<open>auto simp: register_guard_def subscribe_def unsubscribe_def
  shutdown_def receiver_dropped_def engine_new_def\<close>)

lemma engine_run_invariant:
  assumes "engine_run (\<lambda>i. redb_storage cd (flts i)) envs (engine_new db0) n eng"
    and "represents cd db0 empty_store" and "good_supply envs" and "Suc n < 2 ^ 64"
  shows "\<exists>st. represents cd (en_storage eng) st \<and> consistent st \<and> from_supply envs n st"
  using assms(1,4)
proof (induction rule: engine_run.induct)
  case run_start
  with assms(2) consistent_empty from_supply_empty show ?case by (auto simp: engine_new_def)
next
  case (run_step n e1 e2)
  then obtain st where st: "represents cd (en_storage e1) st" "consistent st" "from_supply envs n st" by auto
  from engine_step_invariant [OF run_step.hyps(2) st assms(3)] run_step.prems show ?case by auto
qed

lemma transition_frame:
  "case transition (redb_storage cd flt) env eng e m ev actor ctx expected key of
     (Inl err, eng') \<Rightarrow> eng' = eng
   | (Inr res, eng') \<Rightarrow> en_guards eng' = en_guards eng \<and> en_subscribers eng' = en_subscribers eng \<and>
       en_shutdown eng' = en_shutdown eng"
  using redb_atomic.execute_transition_atomic [of cd flt]
  by (auto simp: transition_def commit_prepared_def split: sum.splits prod.splits option.splits)

section \<open>An identifier supply\<close>

definition demo_envs :: uuid_supply where
  "demo_envs j = \<lparr>clock = (\<lambda>k. int j), uuid = (\<lambda>k. replicate j CHR ''a'' @ CHR ''-'' # replicate k CHR ''b'')\<rparr>"

lemma demo_uuid_inject:
  assumes "uuid (demo_envs j) k = uuid (demo_envs j') k'"
  shows "j = j' \<and> k = k'"
proof -
  have eq: "replicate j CHR ''a'' @ CHR ''-'' # replicate k CHR ''b'' =
      replicate j' CHR ''a'' @ CHR ''-'' # replicate k' CHR ''b''"
    using assms by (simp add: demo_envs_def)
  have "takeWhile (\<lambda>c. c = CHR ''a'') (replicate i CHR ''a'' @ CHR ''-'' # replicate l CHR ''b'') =
      replicate i CHR ''a''" for i l
    by (induction i) auto
  with arg_cong [OF eq, of "takeWhile (\<lambda>c. c = CHR ''a'')"] have "j = j'" by simp
  with eq show ?thesis by simp
qed

lemma demo_envs_good: "good_supply demo_envs"
  unfolding good_supply_def
proof (intro conjI allI impI)
  fix j k j' k'
  assume "uuid (demo_envs j) k = uuid (demo_envs j') k'"
  from demo_uuid_inject [OF this] show "j = j'" and "k = k'" by simp_all
qed (simp add: demo_envs_def nul_free_def)

section \<open>Properties\<close>

text \<open>
  C1. Consistency of every reachable state. Take any sequence of engine calls (defining
  machines, transitions, guards, subscriptions, dispatching, shutdown, restarts) on an empty
  database, in which any database call may fail, with a serialiser that round-trips,
  identifiers that are distinct and NUL-free, and NUL-free entity and machine names.
  Then the nine tables represent a store whose projection is the replay of the log, in
  which the history of every entity is a chain of transitions with versions 1, 2, \<open>\<dots>\<close>
  without gaps, no idempotency key occurs twice, and every outbox effect belongs to a
  logged transition.
\<close>

theorem engine_run_consistent:
  assumes "codec_ok cd" and "good_supply envs" and "Suc n < 2 ^ 64"
    and "engine_run (\<lambda>i. redb_storage cd (flts i)) envs (engine_new empty_db) n eng"
  shows "\<exists>st. represents cd (en_storage eng) st \<and> length (st_log st) \<le> n \<and>
    projection st = replay (st_log st) \<and>
    (\<forall>e m. map (\<lambda>r. unat (tr_version r)) (history_of st e m) = [1..<Suc (length (history_of st e m))] \<and>
           successively (\<lambda>a b. tr_to_state a = tr_from_state b) (history_of st e m)) \<and>
    distinct (used_keys (st_log st)) \<and>
    (\<forall>i ef. st_effects st i = Some ef \<longrightarrow> ef_transition_id ef \<in> tr_id ` set (st_log st))"
proof -
  obtain st where "represents cd (en_storage eng) st" "consistent st" "from_supply envs n st"
    using engine_run_invariant [OF assms(4) represents_empty [OF assms(1)] assms(2,3)] by blast
  then show ?thesis
    by (intro exI [of _ st]) (auto simp: consistent_def chain_def from_supply_def intro: ranI)
qed

text \<open>The engine after defining a machine and one transition, both with a failing-free database.\<close>

definition demo_eng1 :: "blob db engine" where
  "demo_eng1 = snd (define_machine (redb_storage blob_codec no_fault) (engine_new empty_db) turnstile)"

definition demo_eng2 :: "blob db engine" where
  "demo_eng2 = snd (transition (redb_storage blob_codec no_fault) (demo_envs 1) demo_eng1
     ''gate'' ''turnstile'' ''coin'' ''alice'' JNull None (Some ''k1''))"

lemma demo_run1: "engine_run (\<lambda>i. redb_storage blob_codec no_fault) demo_envs (engine_new empty_db) 1 demo_eng1"
  using run_define [OF run_start] by (metis demo_eng1_def One_nat_def prod.collapse)

lemma demo_run2: "engine_run (\<lambda>i. redb_storage blob_codec no_fault) demo_envs (engine_new empty_db) 2 demo_eng2"
proof -
  have "nul_free ''gate''" "nul_free ''turnstile''" by (simp_all add: nul_free_def)
  from run_transition [OF demo_run1 this] show ?thesis
    by (metis demo_eng2_def One_nat_def Suc_1 prod.collapse)
qed

text \<open>What the two calls return and what is stored after them.\<close>

definition demo_store1 :: store where
  "demo_store1 = empty_store\<lparr>st_machines := [''turnstile'' \<mapsto> turnstile]\<rparr>"

definition demo_result :: transition_result where
  "demo_result = \<lparr>rs_entity_id = ''gate'', rs_machine = ''turnstile'', rs_from_state = ''locked'',
     rs_to_state = ''open'', rs_version = 1, rs_transition_id = ''a-'', rs_sequence = 1, rs_timestamp = 1\<rparr>"

lemma demo_store1_rep: "represents blob_codec (en_storage demo_eng1) demo_store1"
  and demo_eng1_fields: "en_guards demo_eng1 = registry_new" "\<not> en_shutdown demo_eng1" "en_subscribers demo_eng1 = []"
proof -
  obtain db' where "store_machine blob_codec no_fault empty_db turnstile = (Inr (), db')"
    "represents blob_codec db' (empty_store\<lparr>st_machines := (st_machines empty_store)(md_name turnstile \<mapsto> turnstile)\<rparr>)"
    using store_machine_rep [OF empty_represents] by blast
  then show "represents blob_codec (en_storage demo_eng1) demo_store1"
    "en_guards demo_eng1 = registry_new" "\<not> en_shutdown demo_eng1" "en_subscribers demo_eng1 = []"
    by (simp_all add: demo_eng1_def define_machine_def turnstile_valid engine_new_def demo_store1_def empty_store_def)
      (simp add: turnstile_def)
qed

lemma demo_store1_consistent: "consistent demo_store1"
  using consistent_empty by (simp add: consistent_def demo_store1_def projection_def [abs_def] history_of_def)

lemma demo_store1_drawn: "from_supply demo_envs 1 demo_store1"
  by (simp add: from_supply_def demo_store1_def empty_store_def)

lemma demo_spec: "\<exists>st. transition_spec demo_store1 registry_new (demo_envs 1) ''gate'' ''turnstile'' ''coin''
    ''alice'' JNull None (Some ''k1'') = Inr (demo_result, st)"
  by (simp add: transition_spec_def demo_store1_def empty_store_def keyed_record_def turnstile_def state_of_def
      version_of_def rule_fires_def registry_evaluate_def registry_new_def Let_def spec_record_def
      result_of_record_def demo_result_def next_seq_def demo_envs_def)

lemma demo_first: "transition (redb_storage blob_codec no_fault) (demo_envs 1) demo_eng1
    ''gate'' ''turnstile'' ''coin'' ''alice'' JNull None (Some ''k1'') = (Inr demo_result, demo_eng2)"
proof -
  have nul: "nul_free ''gate''" "nul_free ''turnstile''" by (simp_all add: nul_free_def)
  have "\<exists>eng'. transition (redb_storage blob_codec no_fault) (demo_envs 1) demo_eng1
      ''gate'' ''turnstile'' ''coin'' ''alice'' JNull None (Some ''k1'') = (Inr demo_result, eng')"
    using redb.transition_refines_spec [OF demo_store1_rep demo_store1_consistent nul demo_envs_good
        demo_store1_drawn _ demo_eng1_fields(2), of "''coin''" "''alice''" JNull None "Some ''k1''"] demo_spec
    by (auto simp: demo_eng1_fields(1))
  then show ?thesis by (auto simp: demo_eng2_def)
qed

theorem engine_run_consistent_witness:
  "engine_run (\<lambda>i. redb_storage blob_codec ((\<lambda>_. no_fault) i)) demo_envs (engine_new empty_db) 2 demo_eng2 \<and>
   (\<exists>st. represents blob_codec (en_storage demo_eng2) st \<and> projection st = replay (st_log st) \<and>
     distinct (used_keys (st_log st)))"
  using engine_run_consistent [OF blob_codec_ok demo_envs_good, of 2 "\<lambda>_. no_fault" demo_eng2] demo_run2
  by auto

text \<open>
  C2. \<open>transition\<close> is correct on every branch. In any state reached as above (also past
  failures), with the engine not shutting down and database calls that now succeed, the
  call returns exactly what \<open>transition_spec\<close> prescribes from the stored data: the
  original result for a used idempotency key; otherwise an error for an unknown machine,
  an expected version that is not the current one, an event without a rule in the current
  state, or the first guard of the rule that evaluates to false, each leaving the engine
  unchanged; otherwise the transition, whose record, projection and effects are the ones
  the store then holds.
\<close>

theorem transition_total_correctness:
  assumes "codec_ok cd" and "good_supply envs" and "Suc n < 2 ^ 64"
    and "engine_run (\<lambda>i. redb_storage cd (flts i)) envs (engine_new empty_db) n eng"
    and "\<not> en_shutdown eng" and "nul_free e" and "nul_free m"
  shows "\<exists>st. represents cd (en_storage eng) st \<and> consistent st \<and>
    (case transition_spec st (en_guards eng) (envs n) e m ev actor ctx expected key of
       Inl err \<Rightarrow>
         transition (redb_storage cd no_fault) (envs n) eng e m ev actor ctx expected key = (Inl err, eng)
     | Inr (res, st') \<Rightarrow> \<exists>eng'.
         transition (redb_storage cd no_fault) (envs n) eng e m ev actor ctx expected key = (Inr res, eng') \<and>
         represents cd (en_storage eng') st' \<and> consistent st' \<and> en_guards eng' = en_guards eng \<and>
         en_subscribers eng' = en_subscribers eng)"
proof -
  obtain st where st: "represents cd (en_storage eng) st" "consistent st" "from_supply envs n st"
    using engine_run_invariant [OF assms(4) represents_empty [OF assms(1)] assms(2,3)] by blast
  note spec = redb.transition_refines_spec [OF st(1,2) assms(6,7) assms(2) st(3) assms(3,5),
      of ev actor ctx expected key]
  have cons: "consistent st'" if "transition_spec st (en_guards eng) (envs n) e m ev actor ctx expected key = Inr (res, st')"
    for res st'
    by (rule redb.transition_spec_consistent [OF st(1,2) assms(6,7) assms(2) st(3) assms(3) that])
  show ?thesis
    using st spec cons by (intro exI [of _ st]) (fastforce split: sum.splits)
qed

theorem transition_total_correctness_witness:
  "\<exists>st. represents blob_codec (en_storage demo_eng2) st \<and> consistent st \<and>
    (case transition_spec st (en_guards demo_eng2) (demo_envs 2) ''gate'' ''turnstile'' ''push'' ''bob'' JNull None None of
       Inl err \<Rightarrow>
         transition (redb_storage blob_codec no_fault) (demo_envs 2) demo_eng2
           ''gate'' ''turnstile'' ''push'' ''bob'' JNull None None = (Inl err, demo_eng2)
     | Inr (res, st') \<Rightarrow> \<exists>eng'.
         transition (redb_storage blob_codec no_fault) (demo_envs 2) demo_eng2
           ''gate'' ''turnstile'' ''push'' ''bob'' JNull None None = (Inr res, eng') \<and>
         represents blob_codec (en_storage eng') st' \<and> consistent st' \<and> en_guards eng' = en_guards demo_eng2 \<and>
         en_subscribers eng' = en_subscribers demo_eng2)"
proof -
  have up: "\<not> en_shutdown demo_eng2"
    by (simp add: demo_eng2_def demo_eng1_def define_machine_def engine_new_def transition_def commit_prepared_def
        split: sum.splits prod.splits option.splits)
  have "nul_free ''gate''" "nul_free ''turnstile''" by (simp_all add: nul_free_def)
  from transition_total_correctness [OF blob_codec_ok demo_envs_good _ demo_run2 up this,
      of "''push''" "''bob''" JNull None None]
  show ?thesis by simp
qed



text \<open>
  C17. The projection agrees with the history: in every reachable state (also past
  failures, with fewer than \<open>2^32\<close> calls, the default page size) the history of an entity is
  returned in full; if it is empty the entity is reported as not found; otherwise its
  current state is the target of its last transition and its version is the length of
  its history, whose versions count from 1 and whose transitions follow one another.
\<close>

theorem current_is_end_of_history:
  assumes "codec_ok cd" and "good_supply envs" and n: "n < 2 ^ 32"
    and run: "engine_run (\<lambda>i. redb_storage cd (flts i)) envs (engine_new empty_db) n eng"
    and nul: "nul_free e" "nul_free m"
  shows "\<exists>h. history (redb_storage cd no_fault) eng e m None None = Inr h \<and>
    map (\<lambda>r. unat (tr_version r)) h = [1..<Suc (length h)] \<and>
    successively (\<lambda>a b. tr_to_state a = tr_from_state b) h \<and>
    (if h = [] then current (redb_storage cd no_fault) eng e m =
         Inl (Storage (NotFound (''entity '' @ quoted e @ '' in machine '' @ quoted m)))
     else \<exists>s. current (redb_storage cd no_fault) eng e m = Inr s \<and>
         es_current_state s = tr_to_state (last h) \<and> unat (es_version s) = length h)"
proof -
  obtain st where st: "represents cd (en_storage eng) st" "consistent st" "from_supply envs n st"
    using engine_run_invariant [OF run represents_empty [OF assms(1)] assms(2)] n by auto
  let ?h = "history_of st e m"
  have all: "get_history cd no_fault (en_storage eng) e m None None = Inr ?h"
  proof -
    have "length ?h \<le> unat (- 1 :: u32)"
      using length_history [of st e m] st(3) n
      by (simp add: from_supply_def unsigned_minus_1_eq_mask mask_eq_exp_minus_1)
    moreover have "filter (\<lambda>r. 0 < tr_sequence r) ?h = ?h"
      unfolding filter_id_conv using sequences_positive [OF st(1)] by (simp add: history_of_def)
    ultimately show ?thesis by (simp add: get_history_rep [OF st(1) nul])
  qed
  have "chain ?h" using st(2) by (simp add: consistent_def)
  moreover have "get_entity_state cd no_fault (en_storage eng) e m =
      ok_or (NotFound (''entity '' @ quoted e @ '' in machine '' @ quoted m)) (st_states st (e, m))"
    by (rule get_entity_state_rep [OF st(1) nul(1)])
  ultimately show ?thesis
    using all consistent_state [OF st(2)] consistent_no_state [OF st(2)]
    by (cases "st_states st (e, m)") (auto simp: history_def current_def chain_def)
qed

theorem current_is_end_of_history_witness:
  "\<exists>h. history (redb_storage blob_codec no_fault) demo_eng2 ''gate'' ''turnstile'' None None = Inr h \<and>
    map (\<lambda>r. unat (tr_version r)) h = [1..<Suc (length h)]"
proof -
  have nul: "nul_free ''gate''" "nul_free ''turnstile''" by (simp_all add: nul_free_def)
  from current_is_end_of_history [OF blob_codec_ok demo_envs_good _ demo_run2 nul] show ?thesis by auto
qed

lemma dispatch_pass_sent:
  assumes "codec_ok cd" and good: "good_supply envs" and n: "Suc n < 2 ^ 64"
    and run: "engine_run (\<lambda>i. redb_storage cd (flts i)) envs (engine_new empty_db) n eng"
    and cursors: "\<forall>sub \<in> set (en_subscribers eng). sb_delivered_through sub \<noteq> - 1"
  shows "\<exists>st chg. represents cd (en_storage eng) st \<and>
    (\<forall>r \<in> set (st_log st). is_change st r (chg r)) \<and>
    dispatch_pass (redb_storage cd no_fault) eng =
      Some (sum_list (map (\<lambda>sub. length (sent st chg sub)) (en_subscribers eng)),
        eng\<lparr>en_subscribers :=
          map (\<lambda>sub. sub\<lparr>sb_queue := sb_queue sub @ sent st chg sub,
                 sb_delivered_through := last_seq (sb_delivered_through sub) (log_after st (sb_delivered_through sub))\<rparr>)
            (filter (\<lambda>sub. sb_id sub \<notin> set (lost_ids st (en_subscribers eng))) (en_subscribers eng))\<rparr>)"
proof -
  obtain st where st: "represents cd (en_storage eng) st" "consistent st" "from_supply envs n st"
    using engine_run_invariant [OF run represents_empty [OF assms(1)] good n] by blast
  let ?chg = "change_for (redb_storage cd no_fault) (en_storage eng)"
  have "Suc (length (st_log st)) < 2 ^ 64" using st(3) n by (simp add: from_supply_def)
  moreover have "list_all (\<lambda>sub. sb_delivered_through sub + 1 \<noteq> 0) (en_subscribers eng)"
    using cursors by (auto simp: list_all_iff eq_neg_iff_add_eq_0)
  ultimately have pass: "dispatch_pass (redb_storage cd no_fault) eng =
      Some (sum_list (map (\<lambda>sub. length (sent st ?chg sub)) (en_subscribers eng)),
        eng\<lparr>en_subscribers := map (\<lambda>sub. served st (sent st ?chg sub) sub)
          (filter (\<lambda>sub. sb_id sub \<notin> set (lost_ids st (en_subscribers eng))) (en_subscribers eng))\<rparr>)"
    by (rule redb.dispatch_pass_total [OF st(1)])
  have "is_change st r (?chg r)" if "r \<in> set (st_log st)" for r
  proof (rule redb.change_for_is_change [OF st(1)])
    from that st(3) have "tr_id r \<in> drawn envs n" by (auto simp: from_supply_def)
    then show "nul_free (tr_id r)" using good by (auto simp: drawn_def good_supply_def)
  qed
  with st(1) pass show ?thesis by (intro exI [of _ st] exI [of _ ?chg]) (simp add: served_def)
qed

text \<open>
  C3. Delivery: a dispatch pass on a reachable state returns, whatever the length of the
  log. Every open subscriber (not sharing its identifier with a lost one) then has in its
  channel, after what it had, exactly the change records of the logged transitions after
  its cursor that pass its machine filter, in log order, each once and with the effects
  stored for it; its cursor is at the end of the log. A subscriber whose receiver is gone
  is removed once something is due to it, and the count returned is the number sent.
\<close>

theorem dispatch_pass_delivers:
  assumes "codec_ok cd" and good: "good_supply envs" and n: "Suc n < 2 ^ 64"
    and run: "engine_run (\<lambda>i. redb_storage cd (flts i)) envs (engine_new empty_db) n eng"
    and cursors: "\<forall>sub \<in> set (en_subscribers eng). sb_delivered_through sub \<noteq> - 1"
  shows "\<exists>st chg. represents cd (en_storage eng) st \<and>
    (\<forall>r \<in> set (st_log st). is_change st r (chg r)) \<and>
    dispatch_pass (redb_storage cd no_fault) eng =
      Some (sum_list (map (\<lambda>sub. length (sent st chg sub)) (en_subscribers eng)),
        eng\<lparr>en_subscribers :=
          map (\<lambda>sub. sub\<lparr>sb_queue := sb_queue sub @ sent st chg sub,
                 sb_delivered_through := last_seq (sb_delivered_through sub) (log_after st (sb_delivered_through sub))\<rparr>)
            (filter (\<lambda>sub. sb_id sub \<notin> set (lost_ids st (en_subscribers eng))) (en_subscribers eng))\<rparr>)"
  by (rule dispatch_pass_sent [OF assms])

definition demo_eng3 :: "blob db engine" where
  "demo_eng3 = subscribe demo_eng2 ''s1'' None 0"

lemma demo_run3: "engine_run (\<lambda>i. redb_storage blob_codec no_fault) demo_envs (engine_new empty_db) 3 demo_eng3"
  using run_subscribe [OF demo_run2, of "''s1''" None 0] by (simp add: demo_eng3_def eval_nat_numeral)

lemma demo_eng2_fields: "en_subscribers demo_eng2 = []"
  using transition_frame [where cd = blob_codec and flt = no_fault and env = "demo_envs 1" and eng = demo_eng1
      and e = "''gate''" and m = "''turnstile''" and ev = "''coin''" and actor = "''alice''" and ctx = JNull
      and expected = None and key = "Some ''k1''"]
  unfolding demo_first by (simp add: demo_eng1_fields)

theorem dispatch_pass_delivers_witness:
  "en_subscribers demo_eng3 = [\<lparr>sb_id = ''s1'', sb_machine_filter = None, sb_queue = [], sb_open = True,
      sb_delivered_through = 0\<rparr>] \<and>
   (\<exists>st chg. represents blob_codec (en_storage demo_eng3) st \<and>
      map sb_queue (en_subscribers (snd (the (dispatch_pass (redb_storage blob_codec no_fault) demo_eng3)))) =
        [map chg (log_after st 0)])"
proof -
  have subs: "en_subscribers demo_eng3 = [\<lparr>sb_id = ''s1'', sb_machine_filter = None, sb_queue = [], sb_open = True,
      sb_delivered_through = 0\<rparr>]"
    by (simp add: demo_eng3_def subscribe_def demo_eng2_fields)
  then have cursors: "\<forall>sub \<in> set (en_subscribers demo_eng3). sb_delivered_through sub \<noteq> - 1" by simp
  have n: "Suc 3 < 2 ^ 64" by simp
  from dispatch_pass_delivers [OF blob_codec_ok demo_envs_good n demo_run3 cursors] show ?thesis
    by (elim exE conjE, intro conjI exI)
      (rule subs, assumption, simp add: subs lost_ids_def lost_def sent_def owed_def passes_filter_def,
        rule ballI, rule refl)
qed

end
