(* ===== verification/Concurrency.thy ===== *)
theory Concurrency
  imports Database
begin

text \<open>
  Concurrent calls of \<open>Engine::transition\<close> (\<open>crates/smdb-engine/src/engine.rs\<close>). The server runs
  every request on a thread of its own; what keeps two transitions of one entity apart is the
  lock stripe of the entity. Here a call of \<open>transition\<close> is a sequence of steps, cut at every
  point where another thread can change what it sees: before and after taking the lock, and at
  every storage call. Any number of calls interleave with each other and with the other
  operations of the engine. Run without interruption, the steps are \<open>transition\<close> of theory \<open>Engine\<close>.
\<close>

section \<open>Lock stripes\<close>

definition ENTITY_LOCK_STRIPES :: nat where
  "ENTITY_LOCK_STRIPES = 1024"

text \<open>The hasher is a parameter: all that matters is that it is a function.\<close>

definition entity_lock :: "(entity_id \<Rightarrow> machine_name \<Rightarrow> u64) \<Rightarrow> entity_id \<Rightarrow> machine_name \<Rightarrow> nat" where
  "entity_lock hash entity_id machine = unat (hash entity_id machine) mod ENTITY_LOCK_STRIPES"

section \<open>Threads\<close>

record call =
  rq_entity_id :: entity_id
  rq_machine :: machine_name
  rq_event :: event_name
  rq_actor :: actor_id
  rq_ctx :: json
  rq_expected_version :: "version option"
  rq_idempotency_key :: "idempotency_key option"

text \<open>
  Where a call stands: called; past the check for shutdown and waiting for its stripe; holding it; past
  the idempotency check; with the definition read; ready to commit; returned.
\<close>

datatype thread_state =
  Called
| Waiting
| Locked
| Checked
| Defined machine_definition
| Prepared transition_record entity_state "effect list"
| Returned "engine_error + transition_result"

record thread =
  th_call :: call
  th_state :: thread_state

definition holds_lock :: "thread_state \<Rightarrow> bool" where
  "holds_lock state = (case state of
     Locked \<Rightarrow> True | Checked \<Rightarrow> True | Defined _ \<Rightarrow> True | Prepared _ _ _ \<Rightarrow> True | _ \<Rightarrow> False)"

text \<open>
  One step; \<open>None\<close> means that the thread waits for a stripe that is taken, or has returned. The guard
  of the lock is dropped on every return.
\<close>

definition thread_step ::
  "(entity_id \<Rightarrow> machine_name \<Rightarrow> u64) \<Rightarrow> 's storage_engine \<Rightarrow> env \<Rightarrow> call \<Rightarrow> thread_state
    \<Rightarrow> 's engine \<times> nat set \<Rightarrow> (thread_state \<times> 's engine \<times> nat set) option" where
  "thread_step hash ops env c state = (\<lambda>(eng, locks).
     let i = entity_lock hash (rq_entity_id c) (rq_machine c) in
     case state of
       Called \<Rightarrow> Some (if en_shutdown eng then Returned (Inl ShuttingDown) else Waiting, eng, locks)
     | Waiting \<Rightarrow> if i \<in> locks then None else Some (Locked, eng, insert i locks)
     | Locked \<Rightarrow>
         Some (case idempotent_replay ops (en_storage eng) (rq_idempotency_key c) of
                 Some existing \<Rightarrow> (Returned (Inr existing), eng, locks - {i})
               | None \<Rightarrow> (Checked, eng, locks))
     | Checked \<Rightarrow>
         Some (case map_err Storage (op_get_machine ops (en_storage eng) (rq_machine c) None) of
                 Inl e \<Rightarrow> (Returned (Inl e), eng, locks - {i})
               | Inr definition \<Rightarrow> (Defined definition, eng, locks))
     | Defined definition \<Rightarrow>
         Some (case prepare_with ops env (en_guards eng) (en_storage eng) (rq_entity_id c) (rq_machine c)
                      (rq_event c) (rq_actor c) (rq_ctx c) (rq_expected_version c) (rq_idempotency_key c)
                      definition of
                 Inl e \<Rightarrow> (Returned (Inl e), eng, locks - {i})
               | Inr (record, new_state, effects) \<Rightarrow> (Prepared record new_state effects, eng, locks))
     | Prepared record new_state effects \<Rightarrow>
         Some (case commit_prepared ops eng (rq_entity_id c) (rq_machine c) record new_state effects of
                 (res, eng') \<Rightarrow> (Returned res, eng', locks - {i}))
     | Returned _ \<Rightarrow> None)"

text \<open>At most \<open>n\<close> steps of one thread, with no other in between.\<close>

fun thread_steps ::
  "(entity_id \<Rightarrow> machine_name \<Rightarrow> u64) \<Rightarrow> 's storage_engine \<Rightarrow> env \<Rightarrow> call \<Rightarrow> nat
    \<Rightarrow> thread_state \<times> 's engine \<times> nat set \<Rightarrow> thread_state \<times> 's engine \<times> nat set" where
  "thread_steps hash ops env c 0 w = w"
| "thread_steps hash ops env c (Suc n) (state, eng, locks) =
     (case thread_step hash ops env c state (eng, locks) of
        None \<Rightarrow> (state, eng, locks)
      | Some w \<Rightarrow> thread_steps hash ops env c n w)"

lemma thread_steps_transition:
  assumes "entity_lock hash (rq_entity_id c) (rq_machine c) \<notin> locks"
  shows "thread_steps hash ops env c 6 (Called, eng, locks) =
    (case transition ops env eng (rq_entity_id c) (rq_machine c) (rq_event c) (rq_actor c) (rq_ctx c)
            (rq_expected_version c) (rq_idempotency_key c) of
       (res, eng') \<Rightarrow> (Returned res, eng', locks))"
  using assms
  by (auto simp: eval_nat_numeral thread_step_def transition_def prepare_def Let_def
      split: option.split sum.split prod.split)

section \<open>Interleavings\<close>

record 's world =
  wd_engine :: "'s engine"
  wd_locks :: "nat set"
  wd_threads :: "thread list"

text \<open>
  Thread \<open>j\<close> draws from \<open>envs j\<close>. In every step any database call may fail. A pass of the dispatcher
  and a definition are single steps; they do not take the lock.
\<close>

inductive world_run ::
  "(entity_id \<Rightarrow> machine_name \<Rightarrow> u64) \<Rightarrow> 'b codec \<Rightarrow> uuid_supply \<Rightarrow> 'b db \<Rightarrow> 'b db world \<Rightarrow> bool"
  for hash cd envs db0 where
  wd_start: "world_run hash cd envs db0 \<lparr>wd_engine = engine_new db0, wd_locks = {}, wd_threads = []\<rparr>"
| wd_call: "world_run hash cd envs db0 w \<Longrightarrow> nul_free (rq_entity_id c) \<Longrightarrow> nul_free (rq_machine c) \<Longrightarrow>
    world_run hash cd envs db0 (w\<lparr>wd_threads := wd_threads w @ [\<lparr>th_call = c, th_state = Called\<rparr>]\<rparr>)"
| wd_step: "world_run hash cd envs db0 w \<Longrightarrow> j < length (wd_threads w) \<Longrightarrow>
    thread_step hash (redb_storage cd flt) (envs j) (th_call (wd_threads w ! j)) (th_state (wd_threads w ! j))
      (wd_engine w, wd_locks w) = Some (state', eng', locks') \<Longrightarrow>
    world_run hash cd envs db0 \<lparr>wd_engine = eng', wd_locks = locks',
      wd_threads = (wd_threads w)[j := (wd_threads w ! j)\<lparr>th_state := state'\<rparr>]\<rparr>"
| wd_define: "world_run hash cd envs db0 w \<Longrightarrow> define_machine (redb_storage cd flt) (wd_engine w) d = (res, eng') \<Longrightarrow>
    world_run hash cd envs db0 (w\<lparr>wd_engine := eng'\<rparr>)"
| wd_dispatch: "world_run hash cd envs db0 w \<Longrightarrow> dispatch (redb_storage cd flt) (wd_engine w) = Some (k, eng') \<Longrightarrow>
    world_run hash cd envs db0 (w\<lparr>wd_engine := eng'\<rparr>)"
| wd_guard: "world_run hash cd envs db0 w \<Longrightarrow>
    world_run hash cd envs db0 (w\<lparr>wd_engine := register_guard (wd_engine w) g f\<rparr>)"
| wd_subscribe: "world_run hash cd envs db0 w \<Longrightarrow>
    world_run hash cd envs db0 (w\<lparr>wd_engine := subscribe (wd_engine w) sid flt a\<rparr>)"
| wd_unsubscribe: "world_run hash cd envs db0 w \<Longrightarrow>
    world_run hash cd envs db0 (w\<lparr>wd_engine := unsubscribe (wd_engine w) sid\<rparr>)"
| wd_dropped: "world_run hash cd envs db0 w \<Longrightarrow>
    world_run hash cd envs db0 (w\<lparr>wd_engine := receiver_dropped (wd_engine w) i\<rparr>)"
| wd_shutdown: "world_run hash cd envs db0 w \<Longrightarrow>
    world_run hash cd envs db0 (w\<lparr>wd_engine := shutdown (wd_engine w)\<rparr>)"

section \<open>The locks\<close>

definition stripe :: "(entity_id \<Rightarrow> machine_name \<Rightarrow> u64) \<Rightarrow> thread \<Rightarrow> nat" where
  "stripe hash th = entity_lock hash (rq_entity_id (th_call th)) (rq_machine (th_call th))"

definition holders :: "thread list \<Rightarrow> nat set" where
  "holders ths = {j. j < length ths \<and> holds_lock (th_state (ths ! j))}"

text \<open>The taken stripes are those of the threads that hold one, and no stripe has two holders.\<close>

definition locks_ok :: "(entity_id \<Rightarrow> machine_name \<Rightarrow> u64) \<Rightarrow> nat set \<Rightarrow> thread list \<Rightarrow> bool" where
  "locks_ok hash locks ths \<longleftrightarrow>
     locks = (\<lambda>j. stripe hash (ths ! j)) ` holders ths \<and> inj_on (\<lambda>j. stripe hash (ths ! j)) (holders ths)"

lemma thread_step_locks:
  assumes "thread_step hash ops env c state (eng, locks) = Some (state', eng', locks')"
  defines "i \<equiv> entity_lock hash (rq_entity_id c) (rq_machine c)"
  shows "(\<not> holds_lock state \<and> holds_lock state' \<and> i \<notin> locks \<and> locks' = insert i locks) \<or>
    (holds_lock state' = holds_lock state \<and> locks' = locks) \<or>
    (holds_lock state \<and> \<not> holds_lock state' \<and> locks' = locks - {i})"
  using assms
  by (auto simp: thread_step_def holds_lock_def Let_def
      split: thread_state.splits if_splits option.splits sum.splits prod.splits)

lemma holders_update:
  "j < length ths \<Longrightarrow> holders (ths[j := (ths ! j)\<lparr>th_state := s\<rparr>]) =
     (if holds_lock s then insert j (holders ths) else holders ths - {j})"
  by (auto simp: holders_def nth_list_update)

lemma stripe_update:
  "j < length ths \<Longrightarrow> stripe hash (ths[j := (ths ! j)\<lparr>th_state := s\<rparr>] ! k) = stripe hash (ths ! k)"
  by (simp add: stripe_def nth_list_update)

lemma locks_ok_step:
  assumes ok: "locks_ok hash locks ths" and j: "j < length ths"
    and step: "thread_step hash ops env (th_call (ths ! j)) (th_state (ths ! j)) (eng, locks) = Some (s, eng', locks')"
  shows "locks_ok hash locks' (ths[j := (ths ! j)\<lparr>th_state := s\<rparr>])"
proof -
  let ?f = "\<lambda>j. stripe hash (ths ! j)" and ?H = "holders ths"
  have img: "locks = ?f ` ?H" and inj: "inj_on ?f ?H" using ok by (simp_all add: locks_ok_def)
  have mem: "j \<in> ?H \<longleftrightarrow> holds_lock (th_state (ths ! j))" using j by (simp add: holders_def)
  from thread_step_locks [OF step]
  consider (acquire) "j \<notin> ?H" "holds_lock s" "?f j \<notin> locks" "locks' = insert (?f j) locks"
    | (keep) "holds_lock s = (j \<in> ?H)" "locks' = locks"
    | (release) "j \<in> ?H" "\<not> holds_lock s" "locks' = locks - {?f j}"
    by (auto simp: stripe_def mem)
  then show ?thesis
  proof cases
    case acquire
    with img inj show ?thesis
      by (auto simp: locks_ok_def stripe_update [OF j] holders_update [OF j])
  next
    case keep
    then have "holders (ths[j := (ths ! j)\<lparr>th_state := s\<rparr>]) = ?H"
      by (auto simp: holders_update [OF j])
    with keep img inj show ?thesis by (simp add: locks_ok_def stripe_update [OF j])
  next
    case release
    have "?f ` (?H - {j}) = ?f ` ?H - {?f j}"
      using inj release(1) by (auto dest: inj_onD)
    with release img inj show ?thesis
      by (simp add: locks_ok_def stripe_update [OF j] holders_update [OF j] inj_on_diff)
  qed
qed

lemma locks_ok_call:
  assumes "locks_ok hash locks ths"
  shows "locks_ok hash locks (ths @ [\<lparr>th_call = c, th_state = Called\<rparr>])"
proof -
  let ?ths = "ths @ [\<lparr>th_call = c, th_state = Called\<rparr>]"
  have "holders ?ths = holders ths"
    by (auto simp: holders_def holds_lock_def nth_append less_Suc_eq split: if_splits)
  moreover have "stripe hash (?ths ! j) = stripe hash (ths ! j)" if "j \<in> holders ths" for j
    using that by (simp add: holders_def nth_append)
  ultimately have "(\<lambda>j. stripe hash (?ths ! j)) ` holders ?ths = (\<lambda>j. stripe hash (ths ! j)) ` holders ths"
    and "inj_on (\<lambda>j. stripe hash (?ths ! j)) (holders ?ths) = inj_on (\<lambda>j. stripe hash (ths ! j)) (holders ths)"
    by (auto simp: inj_on_def cong: image_cong)
  with assms show ?thesis by (simp add: locks_ok_def)
qed

section \<open>The store\<close>

definition finished :: "thread list \<Rightarrow> nat set" where
  "finished ths = {j. j < length ths \<and> (\<exists>res. th_state (ths ! j) = Returned res)}"

definition ids :: "store \<Rightarrow> string set" where
  "ids st = tr_id ` set (st_log st) \<union> dom (st_effects st)"

text \<open>Every identifier in the store was drawn by a call that has returned, one transition for each.\<close>

definition ids_ok :: "uuid_supply \<Rightarrow> thread list \<Rightarrow> store \<Rightarrow> bool" where
  "ids_ok envs ths st \<longleftrightarrow>
     ids st \<subseteq> {uuid (envs j) k |j k. j \<in> finished ths} \<and> length (st_log st) \<le> card (finished ths)"

text \<open>What a thread that is ready to commit has prepared still continues the stored state.\<close>

definition threads_ok :: "uuid_supply \<Rightarrow> thread list \<Rightarrow> store \<Rightarrow> bool" where
  "threads_ok envs ths st \<longleftrightarrow>
     (\<forall>j < length ths. nul_free (rq_entity_id (th_call (ths ! j))) \<and> nul_free (rq_machine (th_call (ths ! j))) \<and>
        (\<forall>r ns efs. th_state (ths ! j) = Prepared r ns efs \<longrightarrow>
           prepared_by (envs j) (rq_entity_id (th_call (ths ! j))) (rq_machine (th_call (ths ! j))) r ns efs \<and>
           continues st r ns efs))"

text \<open>The definition a thread has read is valid, and what it has prepared is an instance of one of its rules.\<close>

definition typed_thread :: "thread \<Rightarrow> bool" where
  "typed_thread th \<longleftrightarrow>
     (case th_state th of
        Defined d \<Rightarrow> well_formed d \<and> md_name d = rq_machine (th_call th)
      | Prepared r _ _ \<Rightarrow> conforms r
      | _ \<Rightarrow> True)"

lemma finished_finite [simp]: "finite (finished ths)"
  by (simp add: finished_def)

lemma card_finished: "card (finished ths) \<le> length ths"
proof -
  have "finished ths \<subseteq> {..<length ths}" by (auto simp: finished_def)
  then show ?thesis using card_mono [of "{..<length ths}" "finished ths"] by simp
qed

lemma finished_update:
  assumes "j < length ths" and "j \<notin> finished ths"
  shows "finished (ths[j := (ths ! j)\<lparr>th_state := s\<rparr>]) =
    (if \<exists>res. s = Returned res then insert j (finished ths) else finished ths)"
  using assms by (auto simp: finished_def nth_list_update split: if_splits)

lemma finished_call: "finished (ths @ [\<lparr>th_call = c, th_state = Called\<rparr>]) = finished ths"
  by (auto simp: finished_def nth_append less_Suc_eq split: if_splits)

lemma ids_ok_mono:
  assumes "ids_ok envs ths st" and "finished ths \<subseteq> finished ths'" and "ids st' = ids st"
    and "length (st_log st') = length (st_log st)"
  shows "ids_ok envs ths' st'"
  using assms card_mono [OF finished_finite assms(2)] unfolding ids_ok_def by fastforce

lemma ids_ok_fresh:
  assumes "ids_ok envs ths st" and "good_supply envs" and "j \<notin> finished ths"
  shows "uuid (envs j) k \<notin> ids st"
  using assms by (force simp: ids_ok_def good_supply_def)

text \<open>Only the entity's own projection matters to \<open>continues\<close>.\<close>

lemma continues_same_log:
  assumes "consistent st" and "consistent st'" and "st_log st' = st_log st" and "continues st r ns efs"
  shows "continues st' r ns efs"
proof -
  have "projection st' = projection st" using assms(1-3) by (simp add: consistent_def)
  then have "map_option (\<lambda>s. (es_current_state s, es_version s)) (st_states st' k) =
      map_option (\<lambda>s. (es_current_state s, es_version s)) (st_states st k)" for k
    by (metis projection_def)
  from this [of "(es_entity_id ns, es_machine ns)"] assms(4) show ?thesis
    by (auto simp: continues_def split: option.splits)
qed

lemma continues_commit_other:
  assumes "continues st r ns efs" and "(es_entity_id ns, es_machine ns) \<noteq> (es_entity_id ns', es_machine ns')"
  shows "continues (commit_store st r' ns' efs') r ns efs"
  using assms by (auto simp: continues_def commit_store_def)

lemma threads_ok_same_log:
  assumes "threads_ok envs ths st" and "consistent st" and "consistent st'" and "st_log st' = st_log st"
  shows "threads_ok envs ths st'"
  using assms continues_same_log unfolding threads_ok_def by blast

lemma threads_ok_update:
  assumes "threads_ok envs ths st" and "j < length ths"
    and "\<And>r ns efs. s = Prepared r ns efs \<Longrightarrow>
      prepared_by (envs j) (rq_entity_id (th_call (ths ! j))) (rq_machine (th_call (ths ! j))) r ns efs \<and>
      continues st r ns efs"
  shows "threads_ok envs (ths[j := (ths ! j)\<lparr>th_state := s\<rparr>]) st"
  using assms by (auto simp: threads_ok_def nth_list_update)

lemma ids_commit: "ids (commit_store st r ns efs) = ids st \<union> {tr_id r} \<union> ef_id ` set efs"
proof -
  have "dom (add_effects efs M) = dom M \<union> ef_id ` set efs" for M
    by (induction efs arbitrary: M) (auto simp: add_effects_def)
  then show ?thesis by (auto simp: ids_def commit_store_def)
qed

text \<open>A commit and the other threads: their identifiers differ, and so do the entities of those that hold a stripe.\<close>

lemma ids_ok_commit:
  assumes "ids_ok envs ths st" and "prepared_by (envs j) e m r ns efs"
    and "j \<notin> finished ths" and "finished ths' = insert j (finished ths)"
  shows "ids_ok envs ths' (commit_store st r ns efs)"
proof -
  have "tr_id r = uuid (envs j) 0" using assms(2) by (simp add: prepared_by_def)
  with prepared_by_ids(1) [OF assms(2)] have "{tr_id r} \<union> ef_id ` set efs \<subseteq> range (uuid (envs j))" by auto
  also have "range (uuid (envs j)) \<subseteq> {uuid (envs j) k |j k. j \<in> finished ths'}" using assms(4) by auto
  finally have "{tr_id r} \<union> ef_id ` set efs \<subseteq> {uuid (envs j) k |j k. j \<in> finished ths'}" .
  moreover have "ids st \<subseteq> {uuid (envs j) k |j k. j \<in> finished ths'}"
  proof -
    have "ids st \<subseteq> {uuid (envs j) k |j k. j \<in> finished ths}" using assms(1) by (simp add: ids_ok_def)
    also have "\<dots> \<subseteq> {uuid (envs j) k |j k. j \<in> finished ths'}" using assms(4) by auto
    finally show ?thesis .
  qed
  moreover have "length (st_log (commit_store st r ns efs)) = Suc (length (st_log st))"
    by (simp add: commit_store_def)
  ultimately show ?thesis using assms(1,3,4) by (simp add: ids_ok_def ids_commit)
qed

lemma prepared_entities_differ:
  assumes "threads_ok envs ths st" and "locks_ok hash locks ths"
    and "j < length ths" and "th_state (ths ! j) = Prepared r ns efs"
    and "k < length ths" and "th_state (ths ! k) = Prepared r' ns' efs'" and "k \<noteq> j"
  shows "(es_entity_id ns', es_machine ns') \<noteq> (es_entity_id ns, es_machine ns)"
proof -
  have "stripe hash (ths ! k) \<noteq> stripe hash (ths ! j)"
    using assms by (auto simp: locks_ok_def holders_def holds_lock_def dest: inj_onD)
  moreover have "prepared_by (envs j) (rq_entity_id (th_call (ths ! j))) (rq_machine (th_call (ths ! j))) r ns efs"
    "prepared_by (envs k) (rq_entity_id (th_call (ths ! k))) (rq_machine (th_call (ths ! k))) r' ns' efs'"
    using assms by (simp_all add: threads_ok_def)
  ultimately show ?thesis by (auto simp: stripe_def prepared_by_def)
qed

lemma threads_ok_commit:
  assumes ok: "threads_ok envs ths st" and locks: "locks_ok hash locks ths"
    and j: "j < length ths" "th_state (ths ! j) = Prepared r ns efs"
  shows "threads_ok envs (ths[j := (ths ! j)\<lparr>th_state := Returned res\<rparr>]) (commit_store st r ns efs)"
proof -
  have "continues (commit_store st r ns efs) r' ns' efs'"
    if "k < length ths" "k \<noteq> j" "th_state (ths ! k) = Prepared r' ns' efs'" for k r' ns' efs'
    using continues_commit_other [OF _ prepared_entities_differ [OF ok locks j that(1,3,2)]] ok that
    by (simp add: threads_ok_def)
  with ok j(1) show ?thesis by (auto simp: threads_ok_def nth_list_update)
qed

section \<open>The steps of a thread\<close>

text \<open>A step that is not a commit leaves the storage alone; it may prepare.\<close>

lemma thread_step_storage:
  assumes "thread_step hash ops env c state (eng, locks) = Some (state', eng', locks')"
  shows "(\<forall>res. state \<noteq> Returned res) \<and>
    ((\<exists>r ns efs res. state = Prepared r ns efs \<and> state' = Returned res \<and>
        commit_prepared ops eng (rq_entity_id c) (rq_machine c) r ns efs = (res, eng')) \<or>
     eng' = eng \<and>
      (\<forall>d. state' = Defined d \<longrightarrow> op_get_machine ops (en_storage eng) (rq_machine c) None = Inr d) \<and>
      (\<forall>r ns efs. state' = Prepared r ns efs \<longrightarrow>
        (\<exists>d. state = Defined d \<and> prepare_with ops env (en_guards eng) (en_storage eng) (rq_entity_id c) (rq_machine c) (rq_event c)
           (rq_actor c) (rq_ctx c) (rq_expected_version c) (rq_idempotency_key c) d = Inr (r, ns, efs))))"
  using assms
  by (auto simp: thread_step_def Let_def map_err_Inr_iff
      split: thread_state.splits if_splits option.splits sum.splits prod.splits)

lemma thread_step_prepared:
  assumes rep: "represents cd (en_storage eng) st" and nul: "nul_free (rq_entity_id c)"
    and step: "thread_step hash (redb_storage cd flt) env c state (eng, locks) = Some (Prepared r ns efs, eng', locks')"
  shows "prepared_by env (rq_entity_id c) (rq_machine c) r ns efs \<and> continues st r ns efs"
proof -
  from thread_step_storage [OF step] obtain d where
    prep: "prepare_with (redb_storage cd flt) env (en_guards eng) (en_storage eng) (rq_entity_id c) (rq_machine c)
      (rq_event c) (rq_actor c) (rq_ctx c) (rq_expected_version c) (rq_idempotency_key c) d = Inr (r, ns, efs)" by auto
  show ?thesis using redb_safe.prepare_with_prepared [OF rep nul prep] by simp
qed

lemma thread_step_typed:
  assumes rep: "represents cd (en_storage eng) st" and st: "well_typed st" and th: "typed_thread th"
    and nul: "nul_free (rq_entity_id (th_call th))"
    and step: "thread_step hash (redb_storage cd flt) env (th_call th) (th_state th) (eng, locks) = Some (s, eng', locks')"
  shows "typed_thread (th\<lparr>th_state := s\<rparr>)"
proof (cases s)
  case (Defined d)
  with thread_step_storage [OF step]
  have "op_get_machine (redb_storage cd flt) (en_storage eng) (rq_machine (th_call th)) None = Inr d" by blast
  from redb_safe.get_machine_ok [OF rep this] st Defined show ?thesis by (simp add: well_typed_def typed_thread_def)
next
  case (Prepared r ns efs)
  with thread_step_storage [OF step] obtain d where d: "th_state th = Defined d"
    and prep: "prepare_with (redb_storage cd flt) env (en_guards eng) (en_storage eng) (rq_entity_id (th_call th))
      (rq_machine (th_call th)) (rq_event (th_call th)) (rq_actor (th_call th)) (rq_ctx (th_call th))
      (rq_expected_version (th_call th)) (rq_idempotency_key (th_call th)) d = Inr (r, ns, efs)" by blast
  have "well_formed d" "md_name d = rq_machine (th_call th)" using th d by (simp_all add: typed_thread_def)
  from redb_safe.prepare_with_conforms [OF rep nul this prep] Prepared show ?thesis by (simp add: typed_thread_def)
qed (simp_all add: typed_thread_def)

lemma commit_prepared_storage:
  assumes "commit_prepared (redb_storage cd flt) eng e m r ns efs = (res, eng')"
  shows "en_storage eng' = en_storage eng \<or>
    (\<exists>x. op_execute_transition (redb_storage cd flt) (en_storage eng) r ns efs = (Inr x, en_storage eng'))"
  using assms redb_atomic.execute_transition_atomic [of cd flt "en_storage eng" r ns efs]
  by (auto simp: commit_prepared_def split: sum.splits prod.splits)

section \<open>The invariant\<close>

definition world_ok ::
  "(entity_id \<Rightarrow> machine_name \<Rightarrow> u64) \<Rightarrow> 'b codec \<Rightarrow> uuid_supply \<Rightarrow> 'b db world \<Rightarrow> store \<Rightarrow> bool" where
  "world_ok hash cd envs w st \<longleftrightarrow>
     represents cd (en_storage (wd_engine w)) st \<and> consistent st \<and>
     locks_ok hash (wd_locks w) (wd_threads w) \<and>
     ids_ok envs (wd_threads w) st \<and> threads_ok envs (wd_threads w) st \<and>
     well_typed st \<and> (\<forall>th \<in> set (wd_threads w). typed_thread th)"

text \<open>The commit of a prepared transition, whatever was committed since it was prepared.\<close>

lemma world_ok_commit:
  assumes ok: "world_ok hash cd envs w st" and good: "good_supply envs"
    and len: "Suc (length (wd_threads w)) < 2 ^ 64" and j: "j < length (wd_threads w)"
    and state: "th_state (wd_threads w ! j) = Prepared r ns efs"
    and exec: "op_execute_transition (redb_storage cd flt) (en_storage (wd_engine w)) r ns efs = (Inr x, s')"
    and eng': "en_storage eng' = s'"
    and locks': "locks_ok hash locks' ((wd_threads w)[j := (wd_threads w ! j)\<lparr>th_state := Returned res\<rparr>])"
  shows "world_ok hash cd envs \<lparr>wd_engine = eng', wd_locks = locks',
    wd_threads = (wd_threads w)[j := (wd_threads w ! j)\<lparr>th_state := Returned res\<rparr>]\<rparr> (commit_store st r ns efs)"
proof -
  let ?ths = "wd_threads w" and ?st = "commit_store st r ns efs"
  let ?ths' = "?ths[j := (?ths ! j)\<lparr>th_state := Returned res\<rparr>]"
  have rep: "represents cd (en_storage (wd_engine w)) st" and cons: "consistent st"
    and locks: "locks_ok hash (wd_locks w) ?ths" and idok: "ids_ok envs ?ths st" and thok: "threads_ok envs ?ths st"
    using ok by (simp_all add: world_ok_def)
  have prep: "prepared_by (envs j) (rq_entity_id (th_call (?ths ! j))) (rq_machine (th_call (?ths ! j))) r ns efs"
    and cont: "continues st r ns efs"
    and nul: "nul_free (rq_entity_id (th_call (?ths ! j)))" "nul_free (rq_machine (th_call (?ths ! j)))"
    using thok j state by (simp_all add: threads_ok_def)
  have new: "j \<notin> finished ?ths" using state by (simp add: finished_def)
  have small: "Suc (length (st_log st)) < 2 ^ 64"
    using idok card_finished [of ?ths] len by (simp add: ids_ok_def)
  have adm: "admissible st r ns efs"
    using prepared_admissible [OF prep nul good small] ids_ok_fresh [OF idok good new] by (simp add: ids_def)
  obtain st' where "commit st r ns efs = Inr (x, st')" and rep': "represents cd s' st'"
    using redb_safe.execute_transition_ok [OF rep adm exec] by blast
  with consistent_commit [OF cons cont small] have cons': "consistent ?st" and rep'': "represents cd s' ?st" by auto
  have fin: "finished ?ths' = insert j (finished ?ths)" using finished_update [OF j new] by auto
  have "ids_ok envs ?ths' ?st" by (rule ids_ok_commit [OF idok prep new fin])
  moreover have "threads_ok envs ?ths' ?st" by (rule threads_ok_commit [OF thok locks j state])
  moreover have "well_typed ?st"
    using ok nth_mem [OF j] state by (intro well_typed_commit) (auto simp: world_ok_def typed_thread_def)
  moreover have "\<forall>th \<in> set ?ths'. typed_thread th"
    using ok by (auto simp: world_ok_def typed_thread_def dest!: subsetD [OF set_update_subset_insert])
  ultimately show ?thesis using rep'' cons' eng' locks' by (simp add: world_ok_def)
qed

lemma world_ok_step:
  assumes ok: "world_ok hash cd envs w st" and good: "good_supply envs"
    and len: "Suc (length (wd_threads w)) < 2 ^ 64" and j: "j < length (wd_threads w)"
    and step: "thread_step hash (redb_storage cd flt) (envs j) (th_call (wd_threads w ! j))
      (th_state (wd_threads w ! j)) (wd_engine w, wd_locks w) = Some (s, eng', locks')"
  shows "\<exists>st'. world_ok hash cd envs \<lparr>wd_engine = eng', wd_locks = locks',
    wd_threads = (wd_threads w)[j := (wd_threads w ! j)\<lparr>th_state := s\<rparr>]\<rparr> st'"
proof -
  let ?ths = "wd_threads w"
  let ?ths' = "?ths[j := (?ths ! j)\<lparr>th_state := s\<rparr>]"
  have rep: "represents cd (en_storage (wd_engine w)) st" and locks: "locks_ok hash (wd_locks w) ?ths"
    and idok: "ids_ok envs ?ths st" and thok: "threads_ok envs ?ths st"
    and nul: "nul_free (rq_entity_id (th_call (?ths ! j)))"
    using ok j by (simp_all add: world_ok_def threads_ok_def)
  note locks' = locks_ok_step [OF locks j step]
  note storage = thread_step_storage [OF step]
  have typed: "typed_thread ((?ths ! j)\<lparr>th_state := s\<rparr>)"
    using ok nth_mem [OF j] thread_step_typed [OF rep _ _ nul step] by (simp add: world_ok_def)
  have new: "j \<notin> finished ?ths" using storage by (auto simp: finished_def)
  have fin: "finished ?ths \<subseteq> finished ?ths'" using finished_update [OF j new, of s] by auto
  have same: "world_ok hash cd envs \<lparr>wd_engine = eng', wd_locks = locks', wd_threads = ?ths'\<rparr> st"
    if "en_storage eng' = en_storage (wd_engine w)"
      "\<And>r ns efs. s = Prepared r ns efs \<Longrightarrow>
        prepared_by (envs j) (rq_entity_id (th_call (?ths ! j))) (rq_machine (th_call (?ths ! j))) r ns efs \<and>
        continues st r ns efs" "typed_thread ((?ths ! j)\<lparr>th_state := s\<rparr>)"
    using ok that locks' ids_ok_mono [OF idok fin refl refl] threads_ok_update [OF thok j that(2)]
    by (auto simp: world_ok_def dest!: subsetD [OF set_update_subset_insert])
  from conjunct2 [OF storage] show ?thesis
  proof (elim disjE exE conjE)
    fix r ns efs res
    assume state: "th_state (?ths ! j) = Prepared r ns efs" and s: "s = Returned res"
      and commit: "commit_prepared (redb_storage cd flt) (wd_engine w) (rq_entity_id (th_call (?ths ! j)))
         (rq_machine (th_call (?ths ! j))) r ns efs = (res, eng')"
    from commit_prepared_storage [OF commit] show ?thesis
    proof (elim disjE exE)
      assume "en_storage eng' = en_storage (wd_engine w)"
      then show ?thesis using s typed by (intro exI [of _ st] same) simp_all
    next
      fix x
      assume "op_execute_transition (redb_storage cd flt) (en_storage (wd_engine w)) r ns efs = (Inr x, en_storage eng')"
      from world_ok_commit [OF ok good len j state this refl locks' [unfolded s]] s show ?thesis by blast
    qed
  next
    assume eng: "eng' = wd_engine w"
    have "prepared_by (envs j) (rq_entity_id (th_call (?ths ! j))) (rq_machine (th_call (?ths ! j))) r ns efs \<and>
        continues st r ns efs" if "s = Prepared r ns efs" for r ns efs
      by (rule thread_step_prepared [OF rep nul step [unfolded that]])
    then show ?thesis using eng typed by (intro exI [of _ st] same) simp_all
  qed
qed

lemma world_ok_engine:
  assumes "world_ok hash cd envs w st" and "represents cd (en_storage eng') st'" and "consistent st'"
    and "st_log st' = st_log st" and "dom (st_effects st') = dom (st_effects st)" and "well_typed st'"
  shows "world_ok hash cd envs (w\<lparr>wd_engine := eng'\<rparr>) st'"
  using assms ids_ok_mono [OF _ order_refl, of envs "wd_threads w" st st']
    threads_ok_same_log [of envs "wd_threads w" st st']
  by (auto simp: world_ok_def ids_def)

lemma world_run_invariant:
  assumes "world_run hash cd envs db0 w" and "represents cd db0 empty_store" and "good_supply envs"
    and "Suc (length (wd_threads w)) < 2 ^ 64"
  shows "\<exists>st. world_ok hash cd envs w st"
  using assms(1,4)
proof (induction rule: world_run.induct)
  case wd_start
  have "world_ok hash cd envs \<lparr>wd_engine = engine_new db0, wd_locks = {}, wd_threads = []\<rparr> empty_store"
    using assms(2) consistent_empty
    by (simp add: world_ok_def engine_new_def locks_ok_def holders_def ids_ok_def ids_def empty_store_def threads_ok_def
        well_typed_def)
  then show ?case ..
next
  case (wd_call w c)
  then obtain st where ok: "world_ok hash cd envs w st" by auto
  then have "threads_ok envs (wd_threads w @ [\<lparr>th_call = c, th_state = Called\<rparr>]) st"
    using wd_call.hyps by (auto simp: world_ok_def threads_ok_def nth_append less_Suc_eq split: if_splits)
  with ok have "world_ok hash cd envs (w\<lparr>wd_threads := wd_threads w @ [\<lparr>th_call = c, th_state = Called\<rparr>]\<rparr>) st"
    by (simp add: world_ok_def locks_ok_call ids_ok_def finished_call typed_thread_def)
  then show ?case ..
next
  case (wd_step w j flt state' eng' locks')
  then have "Suc (length (wd_threads w)) < 2 ^ 64" by simp
  with wd_step show ?case by (auto intro: world_ok_step [OF _ assms(3)])
next
  case (wd_define w flt d res eng')
  then obtain st where ok: "world_ok hash cd envs w st" by auto
  then have "represents cd (en_storage (wd_engine w)) st" "consistent st" "well_typed st" by (simp_all add: world_ok_def)
  with redb_safe.define_machine_step [OF this(1,2) wd_define.hyps(2)] well_typed_machines [of st _ d] ok show ?case
    by (metis world_ok_engine)
next
  case (wd_dispatch w flt k eng')
  then obtain st where ok: "world_ok hash cd envs w st" by auto
  then have "represents cd (en_storage (wd_engine w)) st" "consistent st" "well_typed st" by (simp_all add: world_ok_def)
  with redb_safe.dispatch_step [OF this(1,2) wd_dispatch.hyps(2)] well_typed_machines [of st] ok show ?case
    by (metis world_ok_engine)
qed (auto simp: world_ok_def register_guard_def subscribe_def unsubscribe_def shutdown_def receiver_dropped_def)

section \<open>Progress\<close>

text \<open>How many steps a call still has to take.\<close>

definition thread_rank :: "thread_state \<Rightarrow> nat" where
  "thread_rank state = (case state of
     Called \<Rightarrow> 6 | Waiting \<Rightarrow> 5 | Locked \<Rightarrow> 4 | Checked \<Rightarrow> 3 | Defined _ \<Rightarrow> 2 | Prepared _ _ _ \<Rightarrow> 1 | Returned _ \<Rightarrow> 0)"

definition world_rank :: "'s world \<Rightarrow> nat" where
  "world_rank w = sum_list (map (\<lambda>th. thread_rank (th_state th)) (wd_threads w))"

lemma thread_step_rank:
  "thread_step hash ops env c state (eng, locks) = Some (state', eng', locks') \<Longrightarrow>
   thread_rank state' < thread_rank state"
  by (auto simp: thread_step_def thread_rank_def Let_def
      split: thread_state.splits if_splits option.splits sum.splits prod.splits)

lemma world_rank_update:
  assumes "j < length (wd_threads w)" and "thread_rank s < thread_rank (th_state (wd_threads w ! j))"
  shows "world_rank \<lparr>wd_engine = eng', wd_locks = locks',
    wd_threads = (wd_threads w)[j := (wd_threads w ! j)\<lparr>th_state := s\<rparr>]\<rparr> < world_rank w"
proof -
  let ?xs = "map (\<lambda>th. thread_rank (th_state th)) (wd_threads w)"
  have "?xs ! j \<le> sum_list ?xs" using assms(1) by (simp add: elem_le_sum_list del: nth_map)
  with assms show ?thesis by (simp add: world_rank_def map_update sum_list_update)
qed

text \<open>A thread only waits for a stripe that a thread holds which can go on.\<close>

lemma some_thread_can_step:
  assumes locks: "locks_ok hash (wd_locks w) (wd_threads w)"
    and j: "j < length (wd_threads w)" "\<forall>res. th_state (wd_threads w ! j) \<noteq> Returned res"
  obtains k where "k < length (wd_threads w)"
    "thread_step hash ops (envs k) (th_call (wd_threads w ! k)) (th_state (wd_threads w ! k)) (wd_engine w, wd_locks w) \<noteq> None"
proof -
  have holder: "thread_step hash ops env c state (wd_engine w, wd_locks w) \<noteq> None" if "holds_lock state" for env c state
    using that by (cases state) (simp_all add: thread_step_def holds_lock_def)
  show ?thesis
  proof (cases "thread_step hash ops (envs j) (th_call (wd_threads w ! j)) (th_state (wd_threads w ! j)) (wd_engine w, wd_locks w)")
    case None
    with j(2) have "stripe hash (wd_threads w ! j) \<in> wd_locks w"
      by (auto simp: thread_step_def stripe_def Let_def split: thread_state.splits if_splits)
    then obtain k where "k \<in> holders (wd_threads w)" using locks by (auto simp: locks_ok_def)
    then show ?thesis using that [of k] holder by (simp add: holders_def)
  qed (use that [of j] j in simp)
qed

lemma world_run_locks: "world_run hash cd envs db0 w \<Longrightarrow> locks_ok hash (wd_locks w) (wd_threads w)"
  by (induction rule: world_run.induct) (simp_all add: locks_ok_step locks_ok_call, simp add: locks_ok_def holders_def)

lemma world_run_returns:
  assumes "world_run hash cd envs db0 w"
  shows "\<exists>w'. world_run hash cd envs db0 w' \<and> map th_call (wd_threads w') = map th_call (wd_threads w) \<and>
    (\<forall>th \<in> set (wd_threads w'). \<exists>res. th_state th = Returned res) \<and> wd_locks w' = {}"
  using assms
proof (induction "world_rank w" arbitrary: w rule: less_induct)
  case less
  note locks = world_run_locks [OF less.prems]
  show ?case
  proof (cases "\<forall>th \<in> set (wd_threads w). \<exists>res. th_state th = Returned res")
    case True
    then have "\<not> holds_lock (th_state (wd_threads w ! k))" if "k < length (wd_threads w)" for k
      using nth_mem [OF that] by (auto simp: holds_lock_def split: thread_state.splits)
    then have "holders (wd_threads w) = {}" by (auto simp: holders_def)
    with True less.prems locks show ?thesis by (intro exI [of _ w]) (simp add: locks_ok_def)
  next
    case False
    then obtain j where "j < length (wd_threads w)" "\<forall>res. th_state (wd_threads w ! j) \<noteq> Returned res"
      by (metis in_set_conv_nth)
    then obtain k where k: "k < length (wd_threads w)" "thread_step hash (redb_storage cd no_fault) (envs k)
        (th_call (wd_threads w ! k)) (th_state (wd_threads w ! k)) (wd_engine w, wd_locks w) \<noteq> None"
      using some_thread_can_step [OF locks] by blast
    then obtain s eng' locks' where step: "thread_step hash (redb_storage cd no_fault) (envs k)
        (th_call (wd_threads w ! k)) (th_state (wd_threads w ! k)) (wd_engine w, wd_locks w) = Some (s, eng', locks')"
      by auto
    let ?w = "\<lparr>wd_engine = eng', wd_locks = locks',
      wd_threads = (wd_threads w)[k := (wd_threads w ! k)\<lparr>th_state := s\<rparr>]\<rparr>"
    have "map th_call (wd_threads ?w) = map th_call (wd_threads w)"
      by (simp add: map_update list_update_same_conv k(1))
    with less.hyps [OF world_rank_update [OF k(1) thread_step_rank [OF step]] wd_step [OF less.prems k(1) step]]
    show ?thesis by simp
  qed
qed

section \<open>Properties\<close>

lemma world_ok_prepared:
  assumes ok: "world_ok hash cd envs w st" and len: "Suc (length (wd_threads w)) < 2 ^ 64"
    and j: "j < length (wd_threads w)" and state: "th_state (wd_threads w ! j) = Prepared r ns efs"
  shows "stale_version st ns = None \<and>
    (case projection st (rq_entity_id (th_call (wd_threads w ! j)), rq_machine (th_call (wd_threads w ! j))) of
       None \<Rightarrow> tr_version r = 1
     | Some (s, v) \<Rightarrow> tr_from_state r = s \<and> tr_version r = v + 1)"
proof -
  have prep: "prepared_by (envs j) (rq_entity_id (th_call (wd_threads w ! j))) (rq_machine (th_call (wd_threads w ! j))) r ns efs"
    and cont: "continues st r ns efs" and cons: "consistent st" and idok: "ids_ok envs (wd_threads w) st"
    using ok j state by (simp_all add: world_ok_def threads_ok_def)
  have "Suc (length (st_log st)) < 2 ^ 64"
    using idok card_finished [of "wd_threads w"] len by (simp add: ids_ok_def)
  from continues_version [OF cons cont this] have "tr_version r \<noteq> 0" by auto
  then have "es_version ns \<noteq> 0" using cont by (simp add: continues_def)
  with cont prep show ?thesis
    by (auto simp: stale_version_def saturating_sub1_def continues_def prepared_by_def projection_def split: option.splits)
qed

text \<open>
  C4. Concurrent transitions. Let any number of calls of \<open>transition\<close> interleave, step by step, with each
  other and with definitions, the dispatcher, subscriptions and shutdown, on an empty database
  of which any call may fail, and let the hash function be any function. Then the stored
  data is consistent at every moment (as in the sequential case: projection, gap-free versions,
  unique keys, outbox); two calls for the same entity and machine are never both inside the
  locked section; and what a call has prepared stays valid until it commits: the stored state is
  still the one the call has read, so that its commit is never refused for its version.
\<close>

theorem interleaved_consistent:
  assumes "codec_ok cd" and "good_supply envs" and "world_run hash cd envs empty_db w"
    and "Suc (length (wd_threads w)) < 2 ^ 64"
  shows "\<exists>st. represents cd (en_storage (wd_engine w)) st \<and> consistent st \<and>
    (\<forall>j k. j < length (wd_threads w) \<and> k < length (wd_threads w) \<and>
       holds_lock (th_state (wd_threads w ! j)) \<and> holds_lock (th_state (wd_threads w ! k)) \<and>
       rq_entity_id (th_call (wd_threads w ! j)) = rq_entity_id (th_call (wd_threads w ! k)) \<and>
       rq_machine (th_call (wd_threads w ! j)) = rq_machine (th_call (wd_threads w ! k)) \<longrightarrow> j = k) \<and>
    (\<forall>j r ns efs. j < length (wd_threads w) \<and> th_state (wd_threads w ! j) = Prepared r ns efs \<longrightarrow>
       stale_version st ns = None \<and>
       (case projection st (rq_entity_id (th_call (wd_threads w ! j)), rq_machine (th_call (wd_threads w ! j))) of
          None \<Rightarrow> tr_version r = 1
        | Some (s, v) \<Rightarrow> tr_from_state r = s \<and> tr_version r = v + 1))"
proof -
  obtain st where ok: "world_ok hash cd envs w st"
    using world_run_invariant [OF assms(3) represents_empty [OF assms(1)] assms(2,4)] by blast
  have excl: "j = k" if "j < length (wd_threads w)" "k < length (wd_threads w)"
      "holds_lock (th_state (wd_threads w ! j))" "holds_lock (th_state (wd_threads w ! k))"
      "rq_entity_id (th_call (wd_threads w ! j)) = rq_entity_id (th_call (wd_threads w ! k))"
      "rq_machine (th_call (wd_threads w ! j)) = rq_machine (th_call (wd_threads w ! k))" for j k
  proof (rule inj_onD [of "\<lambda>j. stripe hash (wd_threads w ! j)" "holders (wd_threads w)"])
    show "inj_on (\<lambda>j. stripe hash (wd_threads w ! j)) (holders (wd_threads w))"
      using ok by (simp add: world_ok_def locks_ok_def)
  qed (use that in \<open>simp_all add: stripe_def holders_def\<close>)
  have valid: "stale_version st ns = None \<and>
       (case projection st (rq_entity_id (th_call (wd_threads w ! j)), rq_machine (th_call (wd_threads w ! j))) of
          None \<Rightarrow> tr_version r = 1
        | Some (s, v) \<Rightarrow> tr_from_state r = s \<and> tr_version r = v + 1)"
    if "j < length (wd_threads w)" "th_state (wd_threads w ! j) = Prepared r ns efs" for j r ns efs
    using world_ok_prepared [OF ok assms(4) that] by simp
  have "represents cd (en_storage (wd_engine w)) st \<and> consistent st" using ok by (simp add: world_ok_def)
  with excl valid show ?thesis by blast
qed

text \<open>
  An example: two calls for the same entity, of which the second has taken the stripe and prepared
  its transition while the first has not begun.
\<close>

definition demo_call :: call where
  "demo_call = \<lparr>rq_entity_id = ''gate'', rq_machine = ''turnstile'', rq_event = ''coin'', rq_actor = ''alice'',
     rq_ctx = JNull, rq_expected_version = None, rq_idempotency_key = Some ''k1''\<rparr>"

definition demo_world :: "nat set \<Rightarrow> thread_state \<Rightarrow> blob db world" where
  "demo_world locks s = \<lparr>wd_engine = demo_eng1, wd_locks = locks,
     wd_threads = [\<lparr>th_call = demo_call, th_state = Called\<rparr>, \<lparr>th_call = demo_call, th_state = s\<rparr>]\<rparr>"

lemma demo_world_step:
  assumes "world_run hash blob_codec demo_envs empty_db (demo_world locks s)"
    and "thread_step hash (redb_storage blob_codec no_fault) (demo_envs 1) demo_call s (demo_eng1, locks) =
      Some (s', demo_eng1, locks')"
  shows "world_run hash blob_codec demo_envs empty_db (demo_world locks' s')"
  using wd_step [OF assms(1), of 1 no_fault s' demo_eng1 locks'] assms(2) by (simp add: demo_world_def)

lemma demo_world_start: "world_run hash blob_codec demo_envs empty_db (demo_world {} Called)"
proof -
  have "define_machine (redb_storage blob_codec no_fault) (engine_new empty_db) turnstile =
      (fst (define_machine (redb_storage blob_codec no_fault) (engine_new empty_db) turnstile), demo_eng1)"
    by (simp add: demo_eng1_def)
  from wd_define [OF wd_start, of blob_codec no_fault empty_db turnstile] this
  have "world_run hash blob_codec demo_envs empty_db \<lparr>wd_engine = demo_eng1, wd_locks = {}, wd_threads = []\<rparr>" by simp
  from wd_call [OF wd_call [OF this]] show ?thesis by (simp add: demo_world_def demo_call_def nul_free_def)
qed

lemma demo_world_prepared:
  obtains r ns efs where
    "world_run (\<lambda>_ _. 7) blob_codec demo_envs empty_db (demo_world {7} (Prepared r ns efs))"
proof -
  let ?ops = "redb_storage blob_codec no_fault" and ?h = "\<lambda>_ _. 7 :: u64"
  have i: "entity_lock ?h e m = 7" for e m by (simp add: entity_lock_def ENTITY_LOCK_STRIPES_def)
  have key: "idempotent_replay ?ops (en_storage demo_eng1) (Some ''k1'') = None"
    by (simp add: idempotent_replay_def redb.check_idempotency_total [OF demo_store1_rep, simplified] demo_store1_def
        empty_store_def keyed_record_def)
  have get: "op_get_machine ?ops (en_storage demo_eng1) ''turnstile'' None = Inr turnstile"
    by (simp add: redb.get_machine_total [OF demo_store1_rep, simplified] demo_store1_def)
  obtain r ns efs where prep: "prepare_with ?ops (demo_envs 1) (en_guards demo_eng1) (en_storage demo_eng1)
      ''gate'' ''turnstile'' ''coin'' ''alice'' JNull None (Some ''k1'') turnstile = Inr (r, ns, efs)"
    using demo_first key get by (auto simp: transition_def prepare_def split: if_splits sum.splits)
  have "world_run ?h blob_codec demo_envs empty_db (demo_world {} Waiting)"
    by (rule demo_world_step [OF demo_world_start]) (simp add: thread_step_def demo_eng1_fields)
  then have "world_run ?h blob_codec demo_envs empty_db (demo_world {7} Locked)"
    by (rule demo_world_step) (simp add: thread_step_def i)
  then have "world_run ?h blob_codec demo_envs empty_db (demo_world {7} Checked)"
    by (rule demo_world_step) (simp add: thread_step_def demo_call_def key [simplified])
  then have "world_run ?h blob_codec demo_envs empty_db (demo_world {7} (Defined turnstile))"
    by (rule demo_world_step) (simp add: thread_step_def demo_call_def get [simplified])
  then have "world_run ?h blob_codec demo_envs empty_db (demo_world {7} (Prepared r ns efs))"
    by (rule demo_world_step) (simp add: thread_step_def demo_call_def prep [simplified])
  then show ?thesis by (rule that)
qed

theorem interleaved_consistent_witness:
  "\<exists>r ns efs st. world_run (\<lambda>_ _. 7) blob_codec demo_envs empty_db (demo_world {7} (Prepared r ns efs)) \<and>
     represents blob_codec (en_storage demo_eng1) st \<and> consistent st \<and> stale_version st ns = None"
proof -
  obtain r ns efs where run: "world_run (\<lambda>_ _. 7) blob_codec demo_envs empty_db (demo_world {7} (Prepared r ns efs))"
    by (rule demo_world_prepared)
  have "Suc (length (wd_threads (demo_world {7} (Prepared r ns efs)))) < 2 ^ 64" by (simp add: demo_world_def)
  from interleaved_consistent [OF blob_codec_ok demo_envs_good run this] obtain st where
    "represents blob_codec (en_storage (wd_engine (demo_world {7} (Prepared r ns efs)))) st" "consistent st"
    and valid: "\<forall>j r' ns' efs'. j < length (wd_threads (demo_world {7} (Prepared r ns efs))) \<and>
      th_state (wd_threads (demo_world {7} (Prepared r ns efs)) ! j) = Prepared r' ns' efs' \<longrightarrow> stale_version st ns' = None"
    by blast
  moreover have "stale_version st ns = None"
    using valid [rule_format, of 1 r ns efs] by (simp add: demo_world_def)
  ultimately show ?thesis using run by (auto simp: demo_world_def)
qed





end
