(* ===== verification/Delivery.thy ===== *)
theory Delivery
  imports Database
begin

text \<open>
  The change stream of one subscriber over its whole life (\<open>Engine::subscribe\<close> and
  \<open>Engine::dispatch_pass\<close> in \<open>crates/smdb-engine/src/engine.rs\<close>): with any calls of the engine in
  between and any failures of the database, what was sent into its channel is the log from its
  starting point up to its cursor, without gaps, repetitions or exchanges.
\<close>

section \<open>Slices of the log\<close>

text \<open>The records after \<open>a\<close> up to \<open>c\<close>.\<close>

definition log_between :: "sequence \<Rightarrow> sequence \<Rightarrow> transition_record list \<Rightarrow> transition_record list" where
  "log_between a c rs = filter (\<lambda>r. a < tr_sequence r \<and> tr_sequence r \<le> c) rs"

abbreviation log_sorted :: "transition_record list \<Rightarrow> bool" where
  "log_sorted \<equiv> sorted_wrt (\<lambda>r r'. tr_sequence r < tr_sequence r')"

lemma sequences_sorted:
  assumes "map (\<lambda>r. unat (tr_sequence r)) rs = [1..<Suc (length rs)]"
  shows "log_sorted rs"
proof -
  have "sorted_wrt (<) (map (\<lambda>r. unat (tr_sequence r)) rs)" unfolding assms by (rule sorted_wrt_upt)
  then show ?thesis by (simp add: sorted_wrt_map word_less_nat_alt)
qed

lemma sorted_split:
  "log_sorted rs \<Longrightarrow> rs = filter (\<lambda>r. tr_sequence r \<le> c) rs @ filter (\<lambda>r. c < tr_sequence r) rs"
proof (induction rs)
  case (Cons r rs)
  show ?case
  proof (cases "tr_sequence r \<le> c")
    case True
    with Cons show ?thesis by (simp add: not_less)
  next
    case False
    with Cons.prems have "\<forall>r' \<in> set rs. \<not> tr_sequence r' \<le> c" by fastforce
    then have "filter (\<lambda>r. tr_sequence r \<le> c) rs = []" "filter (\<lambda>r. c < tr_sequence r) rs = rs"
      by (auto simp: filter_empty_conv not_le)
    with False show ?thesis by (simp add: not_le)
  qed
qed simp

lemma last_seq_member: "rs \<noteq> [] \<Longrightarrow> \<exists>r \<in> set rs. tr_sequence r = last_seq c rs"
  using last_seq_last [of rs c] by (metis last_in_set)

lemma last_seq_greatest: "log_sorted rs \<Longrightarrow> r \<in> set rs \<Longrightarrow> tr_sequence r \<le> last_seq c rs"
proof (induction rs arbitrary: c r)
  case (Cons r0 rs)
  show ?case
  proof (cases "r \<in> set rs")
    case True
    with Cons show ?thesis by simp
  next
    case False
    then have r: "r = r0" using Cons.prems by simp
    show ?thesis
    proof (cases rs)
      case (Cons r1 rs')
      then have "tr_sequence r0 < tr_sequence r1" "r1 \<in> set rs" using Cons.prems by simp_all
      moreover have "tr_sequence r1 \<le> last_seq (tr_sequence r0) rs"
        using Cons.IH Cons.prems \<open>r1 \<in> set rs\<close> by simp
      ultimately show ?thesis using r by simp
    qed (simp add: r)
  qed
qed simp

text \<open>Inspecting the next records extends the slice by them.\<close>

lemma log_between_extend:
  assumes "log_sorted log" and "a \<le> c"
    and rs: "rs = take k (filter (\<lambda>r. c < tr_sequence r) log)" and "rs \<noteq> []"
  shows "log_between a (last_seq c rs) log = log_between a c log @ rs"
proof -
  let ?low = "filter (\<lambda>r. tr_sequence r \<le> c) log" and ?high = "filter (\<lambda>r. c < tr_sequence r) log"
  define rest where "rest = drop k ?high"
  define l where "l = last_seq c rs"
  have log: "log = ?low @ rs @ rest" using sorted_split [OF assms(1), of c] by (simp add: rs rest_def)
  have "log_sorted ?high" using assms(1) by (rule sorted_wrt_filter)
  then have sorted: "log_sorted (rs @ rest)" by (simp add: rs rest_def)
  obtain r where r: "r \<in> set rs" "tr_sequence r = l" using last_seq_member [OF assms(4)] by (auto simp: l_def)
  have above: "\<forall>r \<in> set rs. c < tr_sequence r \<and> tr_sequence r \<le> l"
    using sorted last_seq_greatest [of rs _ c] by (auto simp: rs l_def sorted_wrt_append dest: in_set_takeD)
  then have cl: "c < l" using r by metis
  have beyond: "\<forall>r' \<in> set rest. l < tr_sequence r'" using sorted r by (auto simp: sorted_wrt_append)
  have split: "log_between a x log = log_between a x ?low @ log_between a x rs @ log_between a x rest" for x
    using arg_cong [OF log, of "log_between a x"] by (simp only: log_between_def filter_append)
  have "log_between a l ?low = log_between a c ?low" using cl by (auto simp: log_between_def intro!: filter_cong)
  moreover have "log_between a l rs = rs" using above assms(2) by (auto simp: log_between_def filter_id_conv)
  moreover have "log_between a c rs = []" using above by (auto simp: log_between_def filter_empty_conv not_le)
  moreover have "log_between a l rest = []" "log_between a c rest = []"
    using beyond cl by (auto simp: log_between_def filter_empty_conv not_le)
  ultimately show ?thesis using split [of l] split [of c] by (simp add: l_def)
qed

text \<open>Records appended to the log are after everything that was in it.\<close>

lemma log_between_append:
  assumes "log_sorted (log @ new)" and "c = a \<or> (\<exists>r \<in> set log. tr_sequence r = c)"
  shows "log_between a c (log @ new) = log_between a c log"
proof -
  have "log_between a c new = []"
    using assms by (auto simp: log_between_def filter_empty_conv sorted_wrt_append not_le)
  then show ?thesis by (simp add: log_between_def)
qed

section \<open>What a subscriber has been sent\<close>

text \<open>
  A change record carries its logged transition; its effects are those read at delivery, and none
  when that read failed.
\<close>

definition carries_record :: "transition_record \<Rightarrow> change_record \<Rightarrow> bool" where
  "carries_record r c \<longleftrightarrow> (\<exists>es. c = change_record_of r es)"

definition sent_through :: "transition_record list \<Rightarrow> sequence \<Rightarrow> machine_name option \<Rightarrow> subscriber \<Rightarrow> bool" where
  "sent_through log a flt sub \<longleftrightarrow>
     sb_machine_filter sub = flt \<and> a \<le> sb_delivered_through sub \<and>
     (sb_delivered_through sub = a \<or> (\<exists>r \<in> set log. tr_sequence r = sb_delivered_through sub)) \<and>
     list_all2 carries_record (filter (passes_filter flt) (log_between a (sb_delivered_through sub) log)) (sb_queue sub)"

lemma sent_through_new:
  "sent_through log a flt \<lparr>sb_id = sid, sb_machine_filter = flt, sb_queue = [], sb_open = b, sb_delivered_through = a\<rparr>"
proof -
  have "log_between a a log = []" by (auto simp: log_between_def filter_empty_conv)
  then show ?thesis by (simp add: sent_through_def)
qed

lemma sent_through_append:
  "log_sorted (log @ new) \<Longrightarrow> sent_through log a flt sub \<Longrightarrow> sent_through (log @ new) a flt sub"
  by (auto simp: sent_through_def log_between_append)

lemma sent_through_closed: "sent_through log a flt (sub\<lparr>sb_open := b\<rparr>) \<longleftrightarrow> sent_through log a flt sub"
  by (simp add: sent_through_def)

lemma deliver_batch_alive:
  "deliver_batch ops s sub cursor n rs = (sub', cursor', n', False) \<Longrightarrow>
   sub' = sub\<lparr>sb_queue := sb_queue sub @ map (change_for ops s) (filter (passes_filter (sb_machine_filter sub)) rs)\<rparr> \<and>
   cursor' = last_seq cursor rs"
proof (induction rs arbitrary: sub cursor n)
  case (Cons r rs)
  from Cons.prems Cons.IH show ?case by (fastforce simp: Let_def split: if_splits)
qed simp

lemma deliver_batch_id: "deliver_batch ops s sub cursor n rs = (sub', cursor', n', d) \<Longrightarrow> sb_id sub' = sb_id sub"
proof (induction rs arbitrary: sub cursor n)
  case (Cons r rs)
  from Cons.prems Cons.IH show ?case by (fastforce simp: Let_def split: if_splits)
qed simp

lemma sent_through_batch:
  assumes "sent_through log a flt sub" and "log_sorted log"
    and "rs = take k (filter (\<lambda>r. sb_delivered_through sub < tr_sequence r) log)" and "rs \<noteq> []"
  shows "sent_through log a flt (sub\<lparr>sb_queue := sb_queue sub @
      map (change_for ops s) (filter (passes_filter flt) rs),
    sb_delivered_through := last_seq (sb_delivered_through sub) rs\<rparr>)"
proof -
  let ?c = "sb_delivered_through sub"
  have le: "a \<le> ?c" using assms(1) by (simp add: sent_through_def)
  obtain r where r: "r \<in> set rs" "tr_sequence r = last_seq ?c rs" using last_seq_member [OF assms(4)] by blast
  then have "r \<in> set log" "?c < tr_sequence r" using assms(3) by (auto dest: in_set_takeD)
  moreover have "list_all2 carries_record xs (map (change_for ops s) xs)" for xs
    by (auto simp: list_all2_conv_all_nth carries_record_def)
  ultimately show ?thesis
    using assms(1) le r log_between_extend [OF assms(2) le assms(3,4)]
    by (auto simp: sent_through_def intro!: list_all2_appendI)
qed

section \<open>The drain loop\<close>

text \<open>An invariant of the loop: kept by every batch that is delivered to the end.\<close>

definition batch_keeps :: "(subscriber \<Rightarrow> bool) \<Rightarrow> 's storage_engine \<Rightarrow> 's \<Rightarrow> bool" where
  "batch_keeps I ops s \<longleftrightarrow>
     (\<forall>sub rs sub' c n n'. I sub \<and> op_get_transitions_after ops s (sb_delivered_through sub) BATCH = Inr rs \<and> rs \<noteq> [] \<and>
        deliver_batch ops s sub (sb_delivered_through sub) n rs = (sub', c, n', False) \<longrightarrow>
        I (sub'\<lparr>sb_delivered_through := c\<rparr>))"

lemma drain_keeps:
  assumes "drain ops s sub n = Some r" and "batch_keeps I ops s" and "I sub"
  shows "sb_id (fst r) = sb_id sub \<and> (snd (snd r) \<or> I (fst r))"
proof -
  have "batch_keeps I ops s \<longrightarrow> I sub \<longrightarrow> sb_id (fst r) = sb_id sub \<and> (snd (snd r) \<or> I (fst r))"
  proof (rule drain.raw_induct [OF _ assms(1), where P = "\<lambda>ops s sub n r.
      batch_keeps I ops s \<longrightarrow> I sub \<longrightarrow> sb_id (fst r) = sb_id sub \<and> (snd (snd r) \<or> I (fst r))"])
    fix loop and ops :: "'s storage_engine" and s sub n r
    assume IH: "\<And>ops s sub n r. loop ops s sub n = Some r \<Longrightarrow>
        batch_keeps I ops s \<longrightarrow> I sub \<longrightarrow> sb_id (fst r) = sb_id sub \<and> (snd (snd r) \<or> I (fst r))"
      and body: "(case op_get_transitions_after ops s (sb_delivered_through sub) BATCH of
        Inl _ \<Rightarrow> Some (sub, n, False)
      | Inr records \<Rightarrow>
          if records = [] then Some (sub, n, False)
          else case deliver_batch ops s sub (sb_delivered_through sub) n records of
            (sub, cursor, delivered, is_dead) \<Rightarrow>
              if is_dead then Some (sub\<lparr>sb_delivered_through := cursor\<rparr>, delivered, True)
              else if length records < unat BATCH
              then Some (sub\<lparr>sb_delivered_through := cursor\<rparr>, delivered, False)
              else loop ops s (sub\<lparr>sb_delivered_through := cursor\<rparr>) delivered) = Some r"
    show "batch_keeps I ops s \<longrightarrow> I sub \<longrightarrow> sb_id (fst r) = sb_id sub \<and> (snd (snd r) \<or> I (fst r))"
    proof (intro impI)
      assume keeps: "batch_keeps I ops s" and sub: "I sub"
      consider "r = (sub, n, False)"
        | rs sub1 c k d where "op_get_transitions_after ops s (sb_delivered_through sub) BATCH = Inr rs" "rs \<noteq> []"
            "deliver_batch ops s sub (sb_delivered_through sub) n rs = (sub1, c, k, d)"
            "d \<and> r = (sub1\<lparr>sb_delivered_through := c\<rparr>, k, True) \<or>
             \<not> d \<and> (r = (sub1\<lparr>sb_delivered_through := c\<rparr>, k, False) \<or>
               loop ops s (sub1\<lparr>sb_delivered_through := c\<rparr>) k = Some r)"
        using body by (auto split: sum.splits if_splits prod.splits)
      then show "sb_id (fst r) = sb_id sub \<and> (snd (snd r) \<or> I (fst r))"
      proof cases
        case 2
        have "I (sub1\<lparr>sb_delivered_through := c\<rparr>)" if "\<not> d"
        proof -
          have "deliver_batch ops s sub (sb_delivered_through sub) n rs = (sub1, c, k, False)" using 2(3) that by simp
          with keeps sub 2(1,2) show ?thesis unfolding batch_keeps_def by blast
        qed
        with 2(4) IH [of ops s "sub1\<lparr>sb_delivered_through := c\<rparr>" k r] keeps deliver_batch_id [OF 2(3)]
        show ?thesis by auto
      qed (use sub in simp)
    qed
  qed
  with assms(2,3) show ?thesis by blast
qed

lemma dispatch_subs_keeps:
  assumes "dispatch_subs ops s subs n dead = Some (subs', n', dead')"
    and "batch_keeps I ops s" and "\<forall>sub \<in> set subs. sb_id sub = sid \<longrightarrow> I sub"
  shows "map sb_id subs' = map sb_id subs \<and> set dead \<subseteq> set dead' \<and>
    (\<forall>sub \<in> set subs'. sb_id sub = sid \<longrightarrow> sid \<in> set dead' \<or> I sub)"
  using assms(1,3)
proof (induction subs arbitrary: n dead subs' n' dead')
  case (Cons sub subs)
  obtain sub1 n1 d subs1 where dr: "drain ops s sub n = Some (sub1, n1, d)"
    and rest: "dispatch_subs ops s subs n1 (if d then dead @ [sb_id sub1] else dead) = Some (subs1, n', dead')"
    and subs': "subs' = sub1 # subs1"
    using Cons.prems(1) by (auto simp: bind_eq_Some_conv)
  have id: "sb_id sub1 = sb_id sub"
    using drain_keeps [OF dr, of "\<lambda>_. True"] by (simp add: batch_keeps_def)
  have "sb_id sub = sid \<longrightarrow> d \<or> I sub1"
    using drain_keeps [OF dr assms(2)] Cons.prems(2) by simp
  with Cons.IH [OF rest] Cons.prems(2) subs' id show ?case by (auto split: if_splits)
qed simp

lemma dispatch_pass_keeps:
  assumes "dispatch_pass ops eng = Some (k, eng')"
    and "batch_keeps I ops (en_storage eng)" and "\<forall>sub \<in> set (en_subscribers eng). sb_id sub = sid \<longrightarrow> I sub"
  shows "\<forall>sub \<in> set (en_subscribers eng'). sb_id sub = sid \<longrightarrow> I sub"
proof -
  obtain subs dead where "dispatch_subs ops (en_storage eng) (en_subscribers eng) 0 [] = Some (subs, k, dead)"
    "en_subscribers eng' = (if dead \<noteq> [] then filter (\<lambda>s. sb_id s \<notin> set dead) subs else subs)"
    using assms(1) by (auto simp: dispatch_pass_def bind_eq_Some_conv)
  with dispatch_subs_keeps [OF this(1) assms(2,3)] show ?thesis by (auto split: if_splits)
qed

section \<open>Runs\<close>

context safe_storage
begin

lemma log_is_sorted: "rep s st \<Longrightarrow> log_sorted (st_log st)"
  by (rule sequences_sorted [OF rep_sequences])

lemma cursor_below_max:
  assumes "rep s st" and "Suc (length (st_log st)) < 2 ^ 64" and "a \<noteq> - 1" and "sent_through (st_log st) a flt sub"
  shows "sb_delivered_through sub + 1 \<noteq> 0"
proof -
  consider "sb_delivered_through sub = a" | r where "r \<in> set (st_log st)" "tr_sequence r = sb_delivered_through sub"
    using assms(4) by (auto simp: sent_through_def)
  then show ?thesis
  proof cases
    case 1
    with assms(3) show ?thesis by (metis eq_neg_iff_add_eq_0)
  next
    case 2
    then have "unat (sb_delivered_through sub) \<in> set (map (\<lambda>r. unat (tr_sequence r)) (st_log st))" by force
    then have "unat (sb_delivered_through sub) \<le> length (st_log st)" unfolding rep_sequences [OF assms(1)] by auto
    with assms(2) have "unat (sb_delivered_through sub + 1) = Suc (unat (sb_delivered_through sub))"
      by (subst unat_plus_one) simp_all
    then show ?thesis by (metis nat.distinct(1) unsigned_0)
  qed
qed

lemma batch_keeps_sent_through:
  assumes "rep s st" and "Suc (length (st_log st)) < 2 ^ 64" and "a \<noteq> - 1"
  shows "batch_keeps (sent_through (st_log st) a flt) ops s"
  unfolding batch_keeps_def
proof (intro allI impI, elim conjE)
  fix sub rs sub' c n n'
  assume sub: "sent_through (st_log st) a flt sub" and "rs \<noteq> []"
    and get: "op_get_transitions_after ops s (sb_delivered_through sub) BATCH = Inr rs"
    and del: "deliver_batch ops s sub (sb_delivered_through sub) n rs = (sub', c, n', False)"
  have "rs = take (unat BATCH) (filter (\<lambda>r. sb_delivered_through sub < tr_sequence r) (st_log st))"
    using get_transitions_after_ok [OF assms(1) cursor_below_max [OF assms sub] get] by (simp add: log_after_def)
  from sent_through_batch [OF sub log_is_sorted [OF assms(1)] this \<open>rs \<noteq> []\<close>, of ops s]
    deliver_batch_alive [OF del] sub
  show "sent_through (st_log st) a flt (sub'\<lparr>sb_delivered_through := c\<rparr>)" by (simp add: sent_through_def)
qed

end

lemma dispatch_subscribers:
  assumes "dispatch ops eng = Some (k, eng')"
  shows "\<exists>eng1. dispatch_pass ops eng = Some (k, eng1) \<and> en_subscribers eng' = en_subscribers eng1"
proof -
  obtain eng1 where "dispatch_pass ops eng = Some (k, eng1)"
    "eng' = (case op_get_pending_effects ops (en_storage eng1) 256 of
       Inr effects \<Rightarrow> eng1\<lparr>en_storage := publish_effects ops (en_storage eng1) effects\<rparr> | Inl _ \<Rightarrow> eng1)"
    using assms by (auto simp: dispatch_def bind_eq_Some_conv)
  then show ?thesis by (auto split: sum.split)
qed

text \<open>
  \<open>stream_run opss envs sid n e m e'\<close>: the calls number \<open>n\<close> to \<open>m\<close>, none of which subscribes under the
  identifier \<open>sid\<close>.
\<close>

definition subscribers_of :: "string \<Rightarrow> 's engine \<Rightarrow> subscriber list" where
  "subscribers_of sid eng = filter (\<lambda>sub. sb_id sub = sid) (en_subscribers eng)"

inductive stream_run ::
  "(nat \<Rightarrow> 's storage_engine) \<Rightarrow> uuid_supply \<Rightarrow> string \<Rightarrow> nat \<Rightarrow> 's engine \<Rightarrow> nat \<Rightarrow> 's engine \<Rightarrow> bool"
  for opss envs sid n e where
  stream_start: "stream_run opss envs sid n e n e"
| stream_step: "stream_run opss envs sid n e m e1 \<Longrightarrow> engine_step (opss m) (envs m) e1 e2 \<Longrightarrow>
    length (subscribers_of sid e2) \<le> length (subscribers_of sid e1) \<Longrightarrow>
    stream_run opss envs sid n e (Suc m) e2"

lemma engine_step_sent_through:
  assumes "engine_step (redb_storage cd flt) env e1 e2" and "represents cd (en_storage e1) st"
    and "Suc (length (st_log st)) < 2 ^ 64" and "a \<noteq> - 1"
    and "\<forall>sub \<in> set (en_subscribers e1). sb_id sub = sid \<longrightarrow> sent_through (st_log st) a f sub"
    and "length (subscribers_of sid e2) \<le> length (subscribers_of sid e1)"
  shows "\<forall>sub \<in> set (en_subscribers e2). sb_id sub = sid \<longrightarrow> sent_through (st_log st) a f sub"
  using assms(1)
proof cases
  case (step_define d res)
  then have "en_subscribers e2 = en_subscribers e1" by (auto simp: define_machine_def split: sum.splits prod.splits)
  with assms(5) show ?thesis by simp
next
  case (step_transition e m ev actor ctx expected key res)
  then have "en_subscribers e2 = en_subscribers e1"
    using transition_frame [where cd = cd and flt = flt and env = env and eng = e1 and e = e and m = m and ev = ev
        and actor = actor and ctx = ctx and expected = expected and key = key] by (auto split: sum.splits)
  with assms(5) show ?thesis by simp
next
  case (step_dispatch k)
  then obtain eng where "dispatch_pass (redb_storage cd flt) e1 = Some (k, eng)" "en_subscribers e2 = en_subscribers eng"
    using dispatch_subscribers by blast
  with dispatch_pass_keeps [OF this(1) redb_safe.batch_keeps_sent_through [OF assms(2-4)] assms(5)]
  show ?thesis by simp
next
  case (step_subscribe sid' flt' a')
  with assms(6) have "sid' \<noteq> sid" by (auto simp: subscribers_of_def subscribe_def)
  with assms(5) step_subscribe show ?thesis by (auto simp: subscribe_def)
next
  case (step_dropped i)
  show ?thesis
  proof (cases "i < length (en_subscribers e1)")
    case True
    with step_dropped assms(5) show ?thesis
      by (auto simp: receiver_dropped_def sent_through_closed dest!: set_update_subset_insert [THEN subsetD])
  next
    case False
    with step_dropped assms(5) show ?thesis by (simp add: receiver_dropped_def list_update_beyond)
  qed
qed (use assms(5) in \<open>auto simp: register_guard_def unsubscribe_def shutdown_def engine_new_def\<close>)

lemma stream_run_sent_through:
  assumes "stream_run (\<lambda>i. redb_storage cd (flts i)) envs sid n e m e'" and "good_supply envs" and "Suc m < 2 ^ 64"
    and "a \<noteq> - 1" and "represents cd (en_storage e) st" "consistent st" "from_supply envs n st"
    and "\<forall>sub \<in> set (en_subscribers e). sb_id sub = sid \<longrightarrow> sent_through (st_log st) a f sub"
  shows "\<exists>st'. represents cd (en_storage e') st' \<and> consistent st' \<and> from_supply envs m st' \<and>
    (\<exists>new. st_log st' = st_log st @ new) \<and> length (subscribers_of sid e') \<le> length (subscribers_of sid e) \<and>
    (\<forall>sub \<in> set (en_subscribers e'). sb_id sub = sid \<longrightarrow> sent_through (st_log st') a f sub)"
  using assms(1,3)
proof (induction rule: stream_run.induct)
  case stream_start
  show ?case using assms(5-8) by (intro exI [of _ st]) simp
next
  case (stream_step m e1 e2)
  then obtain st1 new where st1: "represents cd (en_storage e1) st1" "consistent st1" "from_supply envs m st1"
    and new: "st_log st1 = st_log st @ new" "length (subscribers_of sid e1) \<le> length (subscribers_of sid e)"
    and subs: "\<forall>sub \<in> set (en_subscribers e1). sb_id sub = sid \<longrightarrow> sent_through (st_log st1) a f sub" by auto
  have len: "Suc (length (st_log st1)) < 2 ^ 64" using st1(3) stream_step.prems by (simp add: from_supply_def)
  obtain st2 rs where st2: "represents cd (en_storage e2) st2" "consistent st2" "from_supply envs (Suc m) st2"
    and log: "st_log st2 = st_log st1 @ rs"
    using engine_step_invariant [OF stream_step.hyps(2) st1 assms(2)] stream_step.prems by auto
  have "log_sorted (st_log st1 @ rs)" using redb_safe.log_is_sorted [OF st2(1)] log by simp
  with engine_step_sent_through [OF stream_step.hyps(2) st1(1) len assms(4) subs stream_step.hyps(3)]
  have "\<forall>sub \<in> set (en_subscribers e2). sb_id sub = sid \<longrightarrow> sent_through (st_log st2) a f sub"
    by (simp add: log sent_through_append)
  with st2 log new stream_step.hyps(3) show ?case by (intro exI [of _ st2]) auto
qed

text \<open>
  C11. The stream of a subscriber has no gaps, repetitions or exchanges. Take any reachable
  state, a subscription under an identifier nobody uses, with a machine filter and a sequence number to
  start after; and let any calls follow (transitions, definitions, other subscriptions, dispatch passes,
  dropped receivers, restarts), with any database failures, none of them subscribing under the same
  identifier. At every moment the log extends the log at the subscription; at most one subscriber
  has the identifier; and what was sent into its channel so far are the change records
  of exactly the logged transitions after the starting number, up to its cursor, that pass its
  filter: in log order and each once.
\<close>

theorem stream_without_gaps:
  assumes "codec_ok cd" and "good_supply envs" and "Suc m < 2 ^ 64" and "a \<noteq> - 1"
    and "engine_run (\<lambda>i. redb_storage cd (flts i)) envs (engine_new empty_db) n eng" and "Suc n < 2 ^ 64"
    and "\<forall>sub \<in> set (en_subscribers eng). sb_id sub \<noteq> sid"
    and "stream_run (\<lambda>i. redb_storage cd (flts i)) envs sid (Suc n) (subscribe eng sid f a) m eng'"
  shows "\<exists>st st'. represents cd (en_storage eng) st \<and> represents cd (en_storage eng') st' \<and>
    (\<exists>new. st_log st' = st_log st @ new) \<and> length (subscribers_of sid eng') \<le> 1 \<and>
    (\<forall>sub \<in> set (subscribers_of sid eng'). a \<le> sb_delivered_through sub \<and>
       list_all2 (\<lambda>r c. \<exists>es. c = change_record_of r es)
         (filter (\<lambda>r. a < tr_sequence r \<and> tr_sequence r \<le> sb_delivered_through sub \<and> passes_filter f r) (st_log st'))
         (sb_queue sub))"
proof -
  obtain st where st: "represents cd (en_storage eng) st" "consistent st" "from_supply envs n st"
    using engine_run_invariant [OF assms(5) represents_empty [OF assms(1)] assms(2,6)] by blast
  let ?e = "subscribe eng sid f a"
  have "represents cd (en_storage ?e) st" using st(1) by (simp add: subscribe_def)
  moreover have "\<forall>sub \<in> set (en_subscribers ?e). sb_id sub = sid \<longrightarrow> sent_through (st_log st) a f sub"
    using assms(7) by (auto simp: subscribe_def sent_through_new)
  moreover have "length (subscribers_of sid ?e) = 1"
    using assms(7) by (auto simp: subscribers_of_def subscribe_def filter_empty_conv)
  ultimately obtain st' new where st': "represents cd (en_storage eng') st'" "st_log st' = st_log st @ new"
    "length (subscribers_of sid eng') \<le> 1"
    "\<forall>sub \<in> set (en_subscribers eng'). sb_id sub = sid \<longrightarrow> sent_through (st_log st') a f sub"
    using stream_run_sent_through [OF assms(8,2,3,4) _ st(2) from_supply_mono [OF st(3)]] by metis
  then show ?thesis using st(1)
    by (intro exI [of _ st] exI [of _ st'])
      (auto simp: subscribers_of_def sent_through_def log_between_def carries_record_def [abs_def] conj_commute
        conj_left_commute)
qed

text \<open>The example subscriber after a pass of the dispatcher.\<close>

lemma demo_eng3_subscribers:
  "en_subscribers demo_eng3 = [\<lparr>sb_id = ''s1'', sb_machine_filter = None, sb_queue = [], sb_open = True,
     sb_delivered_through = 0\<rparr>]"
  by (simp add: demo_eng3_def subscribe_def demo_eng2_fields)

lemma demo_eng3_dispatch:
  obtains k eng' where "dispatch (redb_storage blob_codec no_fault) demo_eng3 = Some (k, eng')"
    "length (en_subscribers eng') \<le> 1"
proof -
  have n: "Suc 3 < 2 ^ 64" and cursors: "\<forall>sub \<in> set (en_subscribers demo_eng3). sb_delivered_through sub \<noteq> - 1"
    by (simp_all add: demo_eng3_subscribers)
  obtain k eng1 where pass: "dispatch_pass (redb_storage blob_codec no_fault) demo_eng3 = Some (k, eng1)"
    "length (en_subscribers eng1) \<le> 1"
    using dispatch_pass_sent [OF blob_codec_ok demo_envs_good n demo_run3 cursors]
    by (auto simp: demo_eng3_subscribers)
  then obtain eng' where eng': "dispatch (redb_storage blob_codec no_fault) demo_eng3 = Some (k, eng')"
    by (simp add: dispatch_def)
  with dispatch_subscribers [OF this] pass show ?thesis by (intro that [OF eng']) auto
qed

theorem stream_without_gaps_witness:
  "\<exists>k eng'. dispatch (redb_storage blob_codec no_fault) demo_eng3 = Some (k, eng') \<and>
     (\<exists>st'. represents blob_codec (en_storage eng') st' \<and>
       (\<forall>sub \<in> set (subscribers_of ''s1'' eng').
         list_all2 (\<lambda>r c. \<exists>es. c = change_record_of r es)
           (filter (\<lambda>r. 0 < tr_sequence r \<and> tr_sequence r \<le> sb_delivered_through sub \<and> passes_filter None r) (st_log st'))
           (sb_queue sub)))"
proof -
  obtain k eng' where eng': "dispatch (redb_storage blob_codec no_fault) demo_eng3 = Some (k, eng')"
    "length (en_subscribers eng') \<le> 1" by (rule demo_eng3_dispatch)
  have "length (subscribers_of ''s1'' eng') \<le> length (subscribers_of ''s1'' demo_eng3)"
    using order_trans [OF length_filter_le [of "\<lambda>sub. sb_id sub = ''s1''" "en_subscribers eng'"] eng'(2)]
    by (simp add: subscribers_of_def demo_eng3_subscribers)
  from stream_step [where opss = "\<lambda>_. redb_storage blob_codec no_fault" and envs = demo_envs and n = "Suc 2",
      OF stream_start step_dispatch [OF eng'(1)] this]
  have "stream_run (\<lambda>_. redb_storage blob_codec no_fault) demo_envs ''s1'' (Suc 2) (subscribe demo_eng2 ''s1'' None 0) 4 eng'"
    by (simp add: demo_eng3_def eval_nat_numeral)
  from stream_without_gaps [where flts = "\<lambda>_. no_fault", OF blob_codec_ok demo_envs_good _ _ demo_run2 _ _ this]
  show ?thesis using eng'(1) by (auto simp: demo_eng2_fields)
qed

end
