(* ===== verification/Frame.thy ===== *)
theory Frame
  imports Prelude
begin

text \<open>
  The wire format (\<open>crates/smdb-proto/src\<close>: \<open>frame.rs\<close>, \<open>codec.rs\<close>, \<open>error.rs\<close>,
  \<open>constants.rs\<close>): frame tags, the frame decoder and encoder on byte buffers, and the message
  codec. A decoder call takes the buffer and returns its result and the buffer it leaves.
  \<open>receive\<close> is the loop in which \<open>Framed\<close> calls a decoder: append what was read, decode until
  no frame is complete.
\<close>

section \<open>Constants and errors\<close>

definition PROTOCOL_VERSION :: u32 where
  "PROTOCOL_VERSION = 1"

definition MAX_FRAME_SIZE :: u32 where
  "MAX_FRAME_SIZE = 16 * 1024 * 1024"

definition HEADER_LEN :: nat where
  "HEADER_LEN = 5"

datatype proto_error =
  ProtoIo string
| InvalidFrameType u8
| FrameTooLarge u32 u32
| DeserializationError string
| SerializationError string
| IncompleteFrame
| InvalidHandshake string

text \<open>The two hexadecimal digits of \<open>{:02X}\<close>.\<close>

definition hex_digit :: "nat \<Rightarrow> char" where
  "hex_digit d = (if d < 10 then char_of (48 + d) else char_of (55 + d))"

definition fmt_02X :: "u8 \<Rightarrow> string" where
  "fmt_02X b = [hex_digit (unat b div 16), hex_digit (unat b mod 16)]"

fun proto_error_display :: "proto_error \<Rightarrow> string" where
  "proto_error_display (ProtoIo e) = ''io error: '' @ e"
| "proto_error_display (InvalidFrameType b) = ''invalid frame type: 0x'' @ fmt_02X b"
| "proto_error_display (FrameTooLarge sz mx) =
     ''frame too large: '' @ show_nat (unat sz) @ '' bytes exceeds maximum '' @
     show_nat (unat mx) @ '' bytes''"
| "proto_error_display (DeserializationError s) = ''deserialization error: '' @ s"
| "proto_error_display (SerializationError s) = ''serialization error: '' @ s"
| "proto_error_display IncompleteFrame = ''incomplete frame''"
| "proto_error_display (InvalidHandshake s) = ''invalid handshake: '' @ s"

section \<open>Tags\<close>

datatype frame_tag =
  Startup | Auth | DefineMachine | Transition | Current | History | Subscribe | Ack
| Unsubscribe | Ping | Terminate
| Ready | AuthOk | AuthError | Result | Rejection | ChangeRecord | Notice | Error | Pong

text \<open>\<open>tag as u8\<close>.\<close>

fun tag_byte :: "frame_tag \<Rightarrow> u8" where
  "tag_byte Startup = 0x01"
| "tag_byte Auth = 0x02"
| "tag_byte DefineMachine = 0x10"
| "tag_byte Transition = 0x11"
| "tag_byte Current = 0x12"
| "tag_byte History = 0x13"
| "tag_byte Subscribe = 0x20"
| "tag_byte Ack = 0x21"
| "tag_byte Unsubscribe = 0x22"
| "tag_byte Ping = 0x30"
| "tag_byte Terminate = 0x31"
| "tag_byte Ready = 0x80"
| "tag_byte AuthOk = 0x81"
| "tag_byte AuthError = 0x82"
| "tag_byte Result = 0x90"
| "tag_byte Rejection = 0x91"
| "tag_byte ChangeRecord = 0xA0"
| "tag_byte Notice = 0xB0"
| "tag_byte Error = 0xB1"
| "tag_byte Pong = 0xC0"

definition try_from :: "u8 \<Rightarrow> proto_error + frame_tag" where
  "try_from byte =
     (if byte = 0x01 then Inr Startup
      else if byte = 0x02 then Inr Auth
      else if byte = 0x10 then Inr DefineMachine
      else if byte = 0x11 then Inr Transition
      else if byte = 0x12 then Inr Current
      else if byte = 0x13 then Inr History
      else if byte = 0x20 then Inr Subscribe
      else if byte = 0x21 then Inr Ack
      else if byte = 0x22 then Inr Unsubscribe
      else if byte = 0x30 then Inr Ping
      else if byte = 0x31 then Inr Terminate
      else if byte = 0x80 then Inr Ready
      else if byte = 0x81 then Inr AuthOk
      else if byte = 0x82 then Inr AuthError
      else if byte = 0x90 then Inr Result
      else if byte = 0x91 then Inr Rejection
      else if byte = 0xA0 then Inr ChangeRecord
      else if byte = 0xB0 then Inr Notice
      else if byte = 0xB1 then Inr Error
      else if byte = 0xC0 then Inr Pong
      else Inl (InvalidFrameType byte))"

section \<open>The frame codec\<close>

record frame =
  fr_tag :: frame_tag
  fr_body :: "u8 list"

text \<open>\<open>u32::from_be_bytes\<close> and \<open>put_u32\<close>.\<close>

definition from_be_bytes :: "u8 \<Rightarrow> u8 \<Rightarrow> u8 \<Rightarrow> u8 \<Rightarrow> u32" where
  "from_be_bytes a b c d =
     push_bit 24 (ucast a) OR push_bit 16 (ucast b) OR push_bit 8 (ucast c) OR ucast d"

definition to_be_bytes :: "u32 \<Rightarrow> u8 list" where
  "to_be_bytes w =
     [ucast (drop_bit 24 w), ucast (drop_bit 16 w), ucast (drop_bit 8 w), ucast w]"

definition decode :: "u8 list \<Rightarrow> (proto_error + frame option) \<times> u8 list" where
  "decode src =
     (if length src < HEADER_LEN then (Inr None, src)
      else
        let tag_byte = src ! 0;
            body_len = from_be_bytes (src ! 1) (src ! 2) (src ! 3) (src ! 4)
        in
        if MAX_FRAME_SIZE < body_len then (Inl (FrameTooLarge body_len MAX_FRAME_SIZE), src)
        else
          let total = HEADER_LEN + unat body_len in
          if length src < total then (Inr None, src)
          else
            (case try_from tag_byte of
               Inl e \<Rightarrow> (Inl e, src)
             | Inr tag \<Rightarrow>
                 let src = drop HEADER_LEN src in
                 (Inr (Some \<lparr>fr_tag = tag, fr_body = take (unat body_len) src\<rparr>),
                  drop (unat body_len) src)))"

definition encode :: "frame \<Rightarrow> u8 list \<Rightarrow> (proto_error + unit) \<times> u8 list" where
  "encode frame dst =
     (let body_len = of_nat (length (fr_body frame)) :: u32
      in (Inr (), dst @ tag_byte (fr_tag frame) # to_be_bytes body_len @ fr_body frame))"

section \<open>The message codec\<close>

text \<open>
  \<open>to_vec_named\<close> and \<open>from_slice\<close> stand for the functions of \<open>rmp_serde\<close> at the message type;
  their error is the text of the serialiser's error.
\<close>

definition encode_message ::
  "('m \<Rightarrow> string + u8 list) \<Rightarrow> frame_tag \<Rightarrow> 'm \<Rightarrow> proto_error + frame" where
  "encode_message to_vec_named tag msg =
     rbind (map_err SerializationError (to_vec_named msg)) (\<lambda>body.
       Inr \<lparr>fr_tag = tag, fr_body = body\<rparr>)"

definition decode_message :: "(u8 list \<Rightarrow> string + 'm) \<Rightarrow> frame \<Rightarrow> proto_error + 'm" where
  "decode_message from_slice frame = map_err DeserializationError (from_slice (fr_body frame))"

section \<open>Decoding a stream\<close>

lemma try_from_tag_byte [simp]: "try_from (tag_byte t) = Inr t"
  by (cases t) (simp_all add: try_from_def)

lemma try_from_Inr_iff [simp]: "try_from b = Inr t \<longleftrightarrow> b = tag_byte t"
proof
  show "b = tag_byte t" if "try_from b = Inr t"
    using that unfolding try_from_def by (auto split: if_splits)
qed simp

lemma tag_byte_inject [simp]: "tag_byte t = tag_byte u \<longleftrightarrow> t = u"
  using try_from_tag_byte [of t] try_from_tag_byte [of u] by (metis sum.inject(2))

lemma try_from_Inl_iff: "try_from b = Inl e \<longleftrightarrow> b \<notin> range tag_byte \<and> e = InvalidFrameType b"
proof -
  have "e' = InvalidFrameType b" if "try_from b = Inl e'" for e'
    using that unfolding try_from_def by (auto split: if_splits)
  then show ?thesis by (cases "try_from b") auto
qed

lemma from_to_be_bytes:
  "from_be_bytes (ucast (drop_bit 24 w)) (ucast (drop_bit 16 w)) (ucast (drop_bit 8 w)) (ucast (w :: u32)) = w"
proof (rule bit_word_eqI)
  fix n assume "n < LENGTH(32)"
  then consider "n < 8" | "8 \<le> n" "n < 16" | "16 \<le> n" "n < 24" | "24 \<le> n" "n < 32"
    by fastforce
  then show "bit (from_be_bytes (ucast (drop_bit 24 w)) (ucast (drop_bit 16 w))
      (ucast (drop_bit 8 w)) (ucast w)) n = bit w n"
    by cases (auto simp: from_be_bytes_def bit_simps)
qed

lemma to_from_be_bytes: "to_be_bytes (from_be_bytes a b c d) = [a, b, c, d]"
  unfolding to_be_bytes_def from_be_bytes_def list.inject
  by (intro conjI bit_word_eqI) (auto simp: bit_simps dest: bit_imp_le_length)

lemma to_be_bytes_inject [simp]: "to_be_bytes v = to_be_bytes w \<longleftrightarrow> v = w"
  unfolding to_be_bytes_def list.inject by (metis from_to_be_bytes)

lemma length_to_be_bytes [simp]: "length (to_be_bytes w) = 4"
  by (simp add: to_be_bytes_def)

lemma decode_short: "length src < HEADER_LEN \<Longrightarrow> decode src = (Inr None, src)"
  by (simp add: decode_def)

lemma decode_header:
  "decode (t # to_be_bytes w @ src) =
     (if MAX_FRAME_SIZE < w then (Inl (FrameTooLarge w MAX_FRAME_SIZE), t # to_be_bytes w @ src)
      else if length src < unat w then (Inr None, t # to_be_bytes w @ src)
      else case try_from t of
        Inl e \<Rightarrow> (Inl e, t # to_be_bytes w @ src)
      | Inr tag \<Rightarrow> (Inr (Some \<lparr>fr_tag = tag, fr_body = take (unat w) src\<rparr>), drop (unat w) src))"
  by (simp add: decode_def HEADER_LEN_def to_be_bytes_def from_to_be_bytes Let_def split: sum.split)

lemma header_cases:
  obtains "length src < HEADER_LEN" | t w rest where "src = t # to_be_bytes w @ rest"
proof (cases "length src < HEADER_LEN")
  case False
  then obtain t a b c d rest where "src = t # [a, b, c, d] @ rest"
    by (auto simp: HEADER_LEN_def not_less Suc_le_length_iff numeral_eq_Suc)
  then show ?thesis by (simp only: to_from_be_bytes [symmetric] that(2))
qed (rule that(1))

lemma decode_Some:
  assumes "decode src = (Inr (Some f), rest)"
  shows "src = tag_byte (fr_tag f) # to_be_bytes (of_nat (length (fr_body f))) @ fr_body f @ rest \<and>
         length (fr_body f) \<le> unat MAX_FRAME_SIZE"
  using assms
  by (cases src rule: header_cases)
    (auto simp: decode_short decode_header min_def word_le_nat_alt not_less try_from_Inr_iff
      split: if_splits sum.splits)

lemma decode_shrinks: "(Inr (Some f), rest) = decode src \<Longrightarrow> length rest < length src"
  using decode_Some [of src f rest] by simp

lemma decode_append_Some:
  "decode src = (Inr (Some f), rest) \<Longrightarrow> decode (src @ extra) = (Inr (Some f), rest @ extra)"
  by (cases src rule: header_cases)
    (auto simp: decode_short decode_header split: if_splits sum.splits)

lemma decode_append_error:
  "decode src = (Inl e, rest) \<Longrightarrow> decode (src @ extra) = (Inl e, rest @ extra)"
  by (cases src rule: header_cases)
    (auto simp: decode_short decode_header split: if_splits sum.splits)

lemma decode_unchanged:
  "decode src = (r, rest) \<Longrightarrow> rest = src \<or> (\<exists>f. r = Inr (Some f))"
  by (cases src rule: header_cases)
    (auto simp: decode_short decode_header split: if_splits sum.splits)

lemma decode_None_again: "decode src = (Inr None, rest) \<Longrightarrow> decode rest = (Inr None, rest)"
  using decode_unchanged [of src "Inr None" rest] by simp

lemma decode_encode:
  assumes "length (fr_body f) \<le> unat MAX_FRAME_SIZE"
  shows "decode (snd (encode f []) @ rest) = (Inr (Some f), rest)"
proof -
  have "unat (of_nat (length (fr_body f)) :: u32) = length (fr_body f)"
    using assms by (simp add: unat_of_nat MAX_FRAME_SIZE_def)
  with assms show ?thesis
    by (simp add: encode_def decode_header word_less_nat_alt)
qed

text \<open>Decode until no frame is complete: the frames, the error that ended it, the buffer left.\<close>

function decode_frames :: "u8 list \<Rightarrow> frame list \<times> proto_error option \<times> u8 list" where
  "decode_frames buf =
     (case decode buf of
        (Inr (Some f), rest) \<Rightarrow>
          (case decode_frames rest of (fs, e, left) \<Rightarrow> (f # fs, e, left))
      | (Inr None, rest) \<Rightarrow> ([], None, rest)
      | (Inl e, rest) \<Rightarrow> ([], Some e, rest))"
  by pat_completeness auto
termination
  by (relation "measure length") (simp_all add: decode_shrinks)

declare decode_frames.simps [simp del]

text \<open>The same with the bytes arriving in chunks; an error ends the stream.\<close>

fun receive :: "u8 list \<Rightarrow> u8 list list \<Rightarrow> frame list \<times> proto_error option \<times> u8 list" where
  "receive buf [] = ([], None, buf)"
| "receive buf (chunk # chunks) =
     (case decode_frames (buf @ chunk) of
        (fs, Some e, left) \<Rightarrow> (fs, Some e, left)
      | (fs, None, left) \<Rightarrow>
          (case receive left chunks of (fs', e, left') \<Rightarrow> (fs @ fs', e, left')))"

lemma decode_frames_append:
  "decode_frames (a @ b) =
     (case decode_frames a of
        (fs, Some e, left) \<Rightarrow> (fs, Some e, left @ b)
      | (fs, None, left) \<Rightarrow>
          (case decode_frames (left @ b) of (fs', e, left') \<Rightarrow> (fs @ fs', e, left')))"
proof (induction a rule: decode_frames.induct)
  case (1 a)
  show ?case
  proof (cases "decode a")
    case (Pair r rest)
    consider e where "r = Inl e" | "r = Inr None" | f where "r = Inr (Some f)"
      by (cases r) auto
    then show ?thesis
    proof cases
      case 1
      with Pair show ?thesis
        by (simp add: decode_frames.simps [of a] decode_frames.simps [of "a @ b"] decode_append_error)
    next
      case 2
      with Pair decode_unchanged [of a r rest] show ?thesis
        by (simp add: decode_frames.simps [of a] split: prod.split)
    next
      case 3
      with Pair have "decode (a @ b) = (Inr (Some f), rest @ b)"
        by (simp add: decode_append_Some)
      with "1" [OF Pair [symmetric] 3 refl] 3 Pair show ?thesis
        by (simp add: decode_frames.simps [of a] decode_frames.simps [of "a @ b"]
            split: prod.splits option.splits)
    qed
  qed
qed

lemma decode_frames_nil [simp]: "decode_frames [] = ([], None, [])"
  by (simp add: decode_frames.simps [of "[]"] decode_short HEADER_LEN_def)

lemma decode_frames_encode:
  "list_all (\<lambda>f. length (fr_body f) \<le> unat MAX_FRAME_SIZE) fs \<Longrightarrow>
   decode_frames (concat (map (\<lambda>f. snd (encode f [])) fs)) = (fs, None, [])"
  by (induction fs) (simp_all add: decode_frames.simps [of "_ @ _"] decode_encode)

lemma decode_None_frames:
  "decode src = (Inr None, rest) \<Longrightarrow> decode_frames rest = ([], None, rest)"
  using decode_None_again [of src rest] by (simp add: decode_frames.simps [of rest])

text \<open>What the buffer holds between two reads is not a complete frame.\<close>

lemma decode_frames_left:
  "decode_frames a = (fs, None, left) \<Longrightarrow> decode_frames left = ([], None, left)"
proof (induction a arbitrary: fs rule: decode_frames.induct)
  case (1 a)
  then show ?case
    by (auto simp: decode_frames.simps [of a]
        split: prod.splits sum.splits option.splits intro: decode_None_frames)
qed

lemma receive_decode_frames:
  assumes "decode_frames buf = ([], None, buf)"
  shows "(case receive buf chunks of (fs, e, left) \<Rightarrow> (fs, e, if e = None then left else [])) =
         (case decode_frames (buf @ concat chunks) of
            (fs, e, left) \<Rightarrow> (fs, e, if e = None then left else []))"
  using assms
proof (induction chunks arbitrary: buf)
  case Nil
  then show ?case by simp
next
  case (Cons c chunks)
  obtain fs e left where d: "decode_frames (buf @ c) = (fs, e, left)" by (metis prod_cases3)
  show ?case
  proof (cases e)
    case None
    with d Cons.IH [of left] decode_frames_left [of "buf @ c" fs left] show ?thesis
      using decode_frames_append [of "buf @ c" "concat chunks"]
      by (auto split: prod.splits)
  next
    case (Some e')
    with d show ?thesis
      using decode_frames_append [of "buf @ c" "concat chunks"] by simp
  qed
qed

section \<open>Properties\<close>

text \<open>
  C22. The decoder on every branch. It returns a frame and the bytes after it exactly when the
  buffer starts with the encoding of that frame and the body is at most 16 MiB, so a frame is
  read back exactly when it is within the limit. It fails exactly when the announced length
  exceeds the limit, or a complete frame starts with a byte that is no tag, and then leaves
  the buffer as it was. In every other case it asks for more input, and leaves the buffer.
\<close>

theorem decode_decides:
  "(decode src = (Inr (Some f), rest) \<longleftrightarrow>
     length (fr_body f) \<le> unat MAX_FRAME_SIZE \<and> src = snd (encode f []) @ rest) \<and>
   (decode src = (Inl e, rest) \<longleftrightarrow> rest = src \<and>
     (\<exists>t w tail. src = t # to_be_bytes w @ tail \<and>
        (MAX_FRAME_SIZE < w \<and> e = FrameTooLarge w MAX_FRAME_SIZE \<or>
         w \<le> MAX_FRAME_SIZE \<and> unat w \<le> length tail \<and> t \<notin> range tag_byte \<and>
         e = InvalidFrameType t))) \<and>
   (decode src = (Inr None, rest) \<longleftrightarrow> rest = src \<and>
     (length src < HEADER_LEN \<or>
      (\<exists>t w tail. src = t # to_be_bytes w @ tail \<and> w \<le> MAX_FRAME_SIZE \<and>
         length tail < unat w)))"
proof (intro conjI)
  show "decode src = (Inr (Some f), rest) \<longleftrightarrow>
     length (fr_body f) \<le> unat MAX_FRAME_SIZE \<and> src = snd (encode f []) @ rest"
    using decode_Some [of src f rest] decode_encode [of f rest] by (auto simp: encode_def)
next
  show "decode src = (Inl e, rest) \<longleftrightarrow> rest = src \<and>
     (\<exists>t w tail. src = t # to_be_bytes w @ tail \<and>
        (MAX_FRAME_SIZE < w \<and> e = FrameTooLarge w MAX_FRAME_SIZE \<or>
         w \<le> MAX_FRAME_SIZE \<and> unat w \<le> length tail \<and> t \<notin> range tag_byte \<and>
         e = InvalidFrameType t))"
    by (cases src rule: header_cases)
      (auto simp: decode_short decode_header HEADER_LEN_def try_from_Inl_iff split: sum.splits)
next
  show "decode src = (Inr None, rest) \<longleftrightarrow> rest = src \<and>
     (length src < HEADER_LEN \<or>
      (\<exists>t w tail. src = t # to_be_bytes w @ tail \<and> w \<le> MAX_FRAME_SIZE \<and>
         length tail < unat w))"
    by (cases src rule: header_cases)
      (auto simp: decode_short decode_header HEADER_LEN_def try_from_Inl_iff split: sum.splits)
qed

text \<open>
  C23. Frames survive the stream: when frames within the limit are encoded one after the
  other and the bytes arrive cut into chunks anywhere, the decoder called after each chunk
  yields exactly these frames, in order, without an error and with an empty buffer.
\<close>

theorem stream_roundtrip:
  assumes "concat chunks = concat (map (\<lambda>f. snd (encode f [])) fs)"
    and "\<forall>f \<in> set fs. length (fr_body f) \<le> unat MAX_FRAME_SIZE"
  shows "receive [] chunks = (fs, None, [])"
proof -
  have "decode_frames (concat chunks) = (fs, None, [])"
    using assms decode_frames_encode [of fs] by (simp add: list_all_iff)
  with receive_decode_frames [of "[]" chunks] show ?thesis
    by (auto split: prod.splits if_splits)
qed

theorem stream_roundtrip_witness:
  "receive [] [[0x30, 0], [0, 0], [0, 0x11, 0, 0, 0, 2, 7], [8]] =
     ([\<lparr>fr_tag = Ping, fr_body = []\<rparr>, \<lparr>fr_tag = Transition, fr_body = [7, 8]\<rparr>], None, [])"
  by (rule stream_roundtrip) (simp_all add: encode_def to_be_bytes_def MAX_FRAME_SIZE_def)

text \<open>
  C29. Where a byte stream is cut does not matter, also for streams that are not well formed:
  decoding chunk by chunk gives the frames and the error that decoding all bytes at once
  gives, and the same rest when there is no error.
\<close>

theorem chunking_irrelevant:
  "(case receive [] chunks of (fs, e, left) \<Rightarrow> (fs, e, if e = None then left else [])) =
   (case decode_frames (concat chunks) of (fs, e, left) \<Rightarrow> (fs, e, if e = None then left else []))"
  using receive_decode_frames [of "[]" chunks] by simp

end
