(* ===== verification/Messages.thy ===== *)
theory Messages
  imports Frame Engine
begin

text \<open>
  The messages of the protocol (\<open>crates/smdb-proto/src/messages.rs\<close>), one record per struct,
  and the library functions the server calls on them: the serialiser \<open>rmp_serde\<close> at each
  message type, \<open>serde_json::to_value\<close> and the RFC 3339 form of a time. They are the fields of
  the record \<open>codecs\<close>, a parameter of the server.
\<close>

section \<open>Client to server\<close>

record startup_message =
  su_protocol_version :: u32
  su_capabilities :: "string list"

record auth_message =
  au_token :: string

record define_machine_message =
  dm_request_id :: u64
  dm_name :: string
  dm_version :: u32
  dm_definition :: machine_definition

record transition_message =
  tm_request_id :: u64
  tm_entity_id :: string
  tm_machine :: string
  tm_event :: string
  tm_expected_version :: "u64 option"
  tm_idempotency_key :: "string option"
  tm_ctx :: json
  tm_actor :: string

record current_message =
  cm_request_id :: u64
  cm_entity_id :: string
  cm_machine :: string

record history_message =
  hm_request_id :: u64
  hm_entity_id :: string
  hm_machine :: string
  hm_limit :: "u32 option"
  hm_after_sequence :: "u64 option"

record subscribe_message =
  sm_request_id :: u64
  sm_subscription_id :: string
  sm_machine_filter :: "string option"
  sm_after_sequence :: u64

record ack_message =
  am_subscription_id :: string
  am_up_to_sequence :: u64

record unsubscribe_message =
  um_subscription_id :: string

section \<open>Server to client\<close>

record ready_message =
  rm_session_id :: string
  rm_server_version :: string
  rm_protocol_version :: u32
  rm_capabilities :: "string list"

record result_message =
  re_request_id :: u64
  re_payload :: json

record rejection_message =
  rj_request_id :: u64
  rj_code :: string
  rj_message :: string
  rj_current_state :: "string option"
  rj_version :: "u64 option"

record change_record_message =
  cr_subscription_id :: string
  cr_record :: change_record

record notice_message =
  nm_message :: string

record error_message =
  er_message :: string
  er_fatal :: bool

section \<open>Library functions\<close>

text \<open>The error of every function is the text of the library's error.\<close>

record codecs =
  from_startup :: "u8 list \<Rightarrow> string + startup_message"
  from_auth :: "u8 list \<Rightarrow> string + auth_message"
  from_define_machine :: "u8 list \<Rightarrow> string + define_machine_message"
  from_transition :: "u8 list \<Rightarrow> string + transition_message"
  from_current :: "u8 list \<Rightarrow> string + current_message"
  from_history :: "u8 list \<Rightarrow> string + history_message"
  from_subscribe :: "u8 list \<Rightarrow> string + subscribe_message"
  from_ack :: "u8 list \<Rightarrow> string + ack_message"
  from_unsubscribe :: "u8 list \<Rightarrow> string + unsubscribe_message"
  to_ready :: "ready_message \<Rightarrow> string + u8 list"
  to_result :: "result_message \<Rightarrow> string + u8 list"
  to_rejection :: "rejection_message \<Rightarrow> string + u8 list"
  to_change_record :: "change_record_message \<Rightarrow> string + u8 list"
  to_error :: "error_message \<Rightarrow> string + u8 list"
  state_to_value :: "entity_state \<Rightarrow> string + json"
  records_to_value :: "transition_record list \<Rightarrow> string + json"
  to_rfc3339 :: "datetime \<Rightarrow> string"

lemma encode_message_Inr [simp]: "to_vec msg = Inr body \<Longrightarrow>
    encode_message to_vec tag msg = Inr \<lparr>fr_tag = tag, fr_body = body\<rparr>"
  by (simp add: encode_message_def)

lemma encode_message_Inl [simp]: "to_vec msg = Inl e \<Longrightarrow>
    encode_message to_vec tag msg = Inl (SerializationError e)"
  by (simp add: encode_message_def)

lemma encode_message_tag: "encode_message to_vec tag msg = Inr f \<Longrightarrow> fr_tag f = tag"
  by (auto simp: encode_message_def)

lemma decode_encode_message:
  "encode_message to_vec tag msg = Inr f \<Longrightarrow> (\<And>b. to_vec msg = Inr b \<Longrightarrow> from_slice b = Inr msg) \<Longrightarrow>
   decode_message from_slice f = Inr msg"
  by (auto simp: encode_message_def decode_message_def)

end
