(* ===== verification/Server.thy ===== *)
theory Server
  imports Messages
begin

text \<open>
  The wire server (\<open>crates/smdb-wire/src\<close>: \<open>server.rs\<close>, \<open>session.rs\<close>, \<open>config.rs\<close>, \<open>error.rs\<close>).
  A connection is a state machine over the items its frame stream yields: the handshake, the
  authentication and the request loop of \<open>serve_framed\<close> are its three phases, and each phase
  is one function of the next item. Writing a frame may fail: \<open>wr i\<close> is the outcome of the
  \<open>i\<close>-th write of a step.
\<close>

section \<open>Errors, configuration and session\<close>

datatype wire_error =
  WireIo string
| Proto proto_error
| Engine engine_error
| Tls string
| WireAuth string
| SessionNotFound string
| ConnectionClosed

fun wire_error_display :: "wire_error \<Rightarrow> string" where
  "wire_error_display (WireIo e) = ''io error: '' @ e"
| "wire_error_display (Proto e) = ''protocol error: '' @ proto_error_display e"
| "wire_error_display (Engine e) = ''engine error: '' @ engine_error_display e"
| "wire_error_display (Tls e) = ''tls error: '' @ e"
| "wire_error_display (WireAuth e) = ''auth error: '' @ e"
| "wire_error_display (SessionNotFound e) = ''session not found: '' @ e"
| "wire_error_display ConnectionClosed = ''connection closed''"

record server_config =
  sc_listen_addr :: string
  sc_tls_cert_path :: "string option"
  sc_tls_key_path :: "string option"
  sc_auth_tokens :: "string list"
  sc_max_connections :: nat
  sc_max_frame_size :: u32

definition server_config_default :: server_config where
  "server_config_default = \<lparr>sc_listen_addr = ''0.0.0.0:7632'', sc_tls_cert_path = None,
     sc_tls_key_path = None, sc_auth_tokens = [], sc_max_connections = 1024,
     sc_max_frame_size = MAX_FRAME_SIZE\<rparr>"

text \<open>\<open>se_subscriptions\<close> holds the keys of the map \<open>subscriptions\<close>.\<close>

record session =
  se_id :: string
  se_authenticated :: bool
  se_capabilities :: "string list"
  se_subscriptions :: "string list"
  se_created_at :: datetime

definition session_new :: "datetime \<Rightarrow> string \<Rightarrow> session" where
  "session_new now sid = \<lparr>se_id = sid, se_authenticated = False, se_capabilities = [],
     se_subscriptions = [], se_created_at = now\<rparr>"

record server_metrics =
  mt_connections_total :: u64
  mt_connections_active :: "64 word"
  mt_transitions_total :: u64

section \<open>Tokens\<close>

definition as_bytes :: "string \<Rightarrow> u8 list" where
  "as_bytes s = map (\<lambda>c. of_nat (of_char c)) s"

definition ct_eq :: "u8 list \<Rightarrow> u8 list \<Rightarrow> bool" where
  "ct_eq a b \<longleftrightarrow>
     (if length a \<noteq> length b then False
      else foldl (\<lambda>diff (x, y). diff OR (x XOR y)) 0 (zip a b) = 0)"

definition token_is_valid :: "string list \<Rightarrow> string \<Rightarrow> bool" where
  "token_is_valid valid presented =
     foldl (\<lambda>matched token. matched \<or> ct_eq (as_bytes token) (as_bytes presented)) False valid"

section \<open>Frames the server builds\<close>

definition make_error_frame :: "codecs \<Rightarrow> string \<Rightarrow> bool \<Rightarrow> frame" where
  "make_error_frame lib message fatal =
     (case encode_message (to_error lib) Error \<lparr>er_message = message, er_fatal = fatal\<rparr> of
        Inr f \<Rightarrow> f
      | Inl _ \<Rightarrow> \<lparr>fr_tag = Error, fr_body = as_bytes ''encoding error''\<rparr>)"

definition json_u64 :: "u64 \<Rightarrow> json" where
  "json_u64 n = JNumber (PosInt n)"

definition transition_payload :: "codecs \<Rightarrow> transition_result \<Rightarrow> json" where
  "transition_payload lib result = JObject
     [(''entity_id'', JString (rs_entity_id result)),
      (''machine'', JString (rs_machine result)),
      (''from'', JString (rs_from_state result)),
      (''state'', JString (rs_to_state result)),
      (''version'', json_u64 (rs_version result)),
      (''transition_id'', JString (rs_transition_id result)),
      (''sequence'', json_u64 (rs_sequence result)),
      (''ts'', JString (to_rfc3339 lib (rs_timestamp result)))]"

definition make_transition_result_frame :: "codecs \<Rightarrow> u64 \<Rightarrow> transition_result \<Rightarrow> frame" where
  "make_transition_result_frame lib request_id result =
     (case encode_message (to_result lib) Result
             \<lparr>re_request_id = request_id, re_payload = transition_payload lib result\<rparr> of
        Inr f \<Rightarrow> f
      | Inl e \<Rightarrow> make_error_frame lib (proto_error_display e) False)"

fun rejection_of :: "engine_error \<Rightarrow> string \<times> string option \<times> u64 option" where
  "rejection_of (Core (IllegalTransition _ _ _ current_state)) =
     (''illegal_transition'', Some current_state, None)"
| "rejection_of (Core (GuardFailed _ _)) = (''guard_failed'', None, None)"
| "rejection_of (Core (VersionConflict _ _ _ actual)) = (''version_conflict'', None, Some actual)"
| "rejection_of (Core (UnknownMachine _)) = (''unknown_machine'', None, None)"
| "rejection_of (MachineNotFound _) = (''unknown_machine'', None, None)"
| "rejection_of (Core (UnknownEntity _ _)) = (''unknown_entity'', None, None)"
| "rejection_of _ = (''internal_error'', None, None)"

definition make_rejection_frame :: "codecs \<Rightarrow> u64 \<Rightarrow> engine_error \<Rightarrow> frame" where
  "make_rejection_frame lib request_id err =
     (case rejection_of err of (code, current_state, version) \<Rightarrow>
        case encode_message (to_rejection lib) Rejection
               \<lparr>rj_request_id = request_id, rj_code = code, rj_message = engine_error_display err,
                rj_current_state = current_state, rj_version = version\<rparr> of
          Inr f \<Rightarrow> f
        | Inl e \<Rightarrow> make_error_frame lib (proto_error_display e) False)"

text \<open>The \<open>Debug\<close> form of a tag.\<close>

fun tag_debug :: "frame_tag \<Rightarrow> string" where
  "tag_debug Startup = ''Startup''"
| "tag_debug Auth = ''Auth''"
| "tag_debug DefineMachine = ''DefineMachine''"
| "tag_debug Transition = ''Transition''"
| "tag_debug Current = ''Current''"
| "tag_debug History = ''History''"
| "tag_debug Subscribe = ''Subscribe''"
| "tag_debug Ack = ''Ack''"
| "tag_debug Unsubscribe = ''Unsubscribe''"
| "tag_debug Ping = ''Ping''"
| "tag_debug Terminate = ''Terminate''"
| "tag_debug Ready = ''Ready''"
| "tag_debug AuthOk = ''AuthOk''"
| "tag_debug AuthError = ''AuthError''"
| "tag_debug Result = ''Result''"
| "tag_debug Rejection = ''Rejection''"
| "tag_debug ChangeRecord = ''ChangeRecord''"
| "tag_debug Notice = ''Notice''"
| "tag_debug Error = ''Error''"
| "tag_debug Pong = ''Pong''"

section \<open>Requests\<close>

text \<open>Each arm of \<open>handle_frame\<close>; the answer is a list of frames.\<close>

definition error_reply :: "codecs \<Rightarrow> string \<Rightarrow> frame list" where
  "error_reply lib message = [make_error_frame lib message False]"

definition result_reply :: "codecs \<Rightarrow> u64 \<Rightarrow> json \<Rightarrow> frame list" where
  "result_reply lib request_id payload =
     (case encode_message (to_result lib) Result
             \<lparr>re_request_id = request_id, re_payload = payload\<rparr> of
        Inr f \<Rightarrow> [f]
      | Inl e \<Rightarrow> error_reply lib (proto_error_display e))"

definition handle_define_machine ::
  "codecs \<Rightarrow> 's storage_engine \<Rightarrow> 's engine \<Rightarrow> frame \<Rightarrow> frame list \<times> 's engine" where
  "handle_define_machine lib ops eng frame =
     (case decode_message (from_define_machine lib) frame of
        Inl e \<Rightarrow> (error_reply lib (proto_error_display e), eng)
      | Inr msg \<Rightarrow>
          (case define_machine ops eng (dm_definition msg) of
             (Inr _, eng') \<Rightarrow>
               (result_reply lib (dm_request_id msg) (JObject [(''ok'', JBool True)]), eng')
           | (Inl e, eng') \<Rightarrow> (error_reply lib (engine_error_display e), eng')))"

definition handle_transition ::
  "codecs \<Rightarrow> 's storage_engine \<Rightarrow> env \<Rightarrow> 's engine \<Rightarrow> server_metrics \<Rightarrow> frame
    \<Rightarrow> frame list \<times> 's engine \<times> server_metrics" where
  "handle_transition lib ops env eng metrics frame =
     (case decode_message (from_transition lib) frame of
        Inl e \<Rightarrow> (error_reply lib (proto_error_display e), eng, metrics)
      | Inr msg \<Rightarrow>
          (case transition ops env eng (tm_entity_id msg) (tm_machine msg) (tm_event msg)
                  (tm_actor msg) (tm_ctx msg) (tm_expected_version msg) (tm_idempotency_key msg) of
             (Inr result, eng') \<Rightarrow>
               ([make_transition_result_frame lib (tm_request_id msg) result], eng',
                metrics\<lparr>mt_transitions_total := mt_transitions_total metrics + 1\<rparr>)
           | (Inl e, eng') \<Rightarrow> ([make_rejection_frame lib (tm_request_id msg) e], eng', metrics)))"

definition handle_current ::
  "codecs \<Rightarrow> 's storage_engine \<Rightarrow> 's engine \<Rightarrow> frame \<Rightarrow> frame list" where
  "handle_current lib ops eng frame =
     (case decode_message (from_current lib) frame of
        Inl e \<Rightarrow> error_reply lib (proto_error_display e)
      | Inr msg \<Rightarrow>
          (case current ops eng (cm_entity_id msg) (cm_machine msg) of
             Inr state \<Rightarrow>
               (case state_to_value lib state of
                  Inr payload \<Rightarrow> result_reply lib (cm_request_id msg) payload
                | Inl e \<Rightarrow> error_reply lib e)
           | Inl e \<Rightarrow> error_reply lib (engine_error_display e)))"

definition handle_history ::
  "codecs \<Rightarrow> 's storage_engine \<Rightarrow> 's engine \<Rightarrow> frame \<Rightarrow> frame list" where
  "handle_history lib ops eng frame =
     (case decode_message (from_history lib) frame of
        Inl e \<Rightarrow> error_reply lib (proto_error_display e)
      | Inr msg \<Rightarrow>
          (case history ops eng (hm_entity_id msg) (hm_machine msg) (hm_limit msg)
                  (hm_after_sequence msg) of
             Inr records \<Rightarrow>
               (case records_to_value lib records of
                  Inr payload \<Rightarrow> result_reply lib (hm_request_id msg) payload
                | Inl e \<Rightarrow> error_reply lib e)
           | Inl e \<Rightarrow> error_reply lib (engine_error_display e)))"

definition handle_ack :: "codecs \<Rightarrow> frame \<Rightarrow> frame list" where
  "handle_ack lib frame =
     (case decode_message (from_ack lib) frame of
        Inl e \<Rightarrow> error_reply lib (proto_error_display e)
      | Inr _ \<Rightarrow> [])"

definition handle_frame ::
  "codecs \<Rightarrow> 's storage_engine \<Rightarrow> env \<Rightarrow> 's engine \<Rightarrow> server_metrics \<Rightarrow> frame
    \<Rightarrow> frame list \<times> 's engine \<times> server_metrics" where
  "handle_frame lib ops env eng metrics frame =
     (case fr_tag frame of
        Ping \<Rightarrow> ([\<lparr>fr_tag = Pong, fr_body = []\<rparr>], eng, metrics)
      | DefineMachine \<Rightarrow>
          (case handle_define_machine lib ops eng frame of (fs, eng') \<Rightarrow> (fs, eng', metrics))
      | Transition \<Rightarrow> handle_transition lib ops env eng metrics frame
      | Current \<Rightarrow> (handle_current lib ops eng frame, eng, metrics)
      | History \<Rightarrow> (handle_history lib ops eng frame, eng, metrics)
      | Ack \<Rightarrow> (handle_ack lib frame, eng, metrics)
      | other \<Rightarrow> (error_reply lib (''unexpected frame '' @ tag_debug other), eng, metrics))"

section \<open>Subscriptions\<close>

text \<open>The last component is the subscription a forwarding task is spawned for.\<close>

definition handle_subscribe ::
  "codecs \<Rightarrow> session \<Rightarrow> 's engine \<Rightarrow> frame
    \<Rightarrow> (wire_error + frame list) \<times> session \<times> 's engine \<times> string option" where
  "handle_subscribe lib session eng frame =
     (case decode_message (from_subscribe lib) frame of
        Inl e \<Rightarrow> (Inl (Proto e), session, eng, None)
      | Inr msg \<Rightarrow>
          let subscription_id = sm_subscription_id msg;
              eng' = subscribe eng subscription_id (sm_machine_filter msg) (sm_after_sequence msg);
              session' = session\<lparr>se_subscriptions := removeAll subscription_id (se_subscriptions session)\<rparr>
          in
          (case encode_message (to_result lib) Result
                  \<lparr>re_request_id = sm_request_id msg,
                   re_payload = JObject [(''subscription_id'', JString subscription_id),
                                         (''ok'', JBool True)]\<rparr> of
             Inr f \<Rightarrow> (Inr [f], session', eng', Some subscription_id)
           | Inl e \<Rightarrow> (Inl (Proto e), session', eng', Some subscription_id)))"

text \<open>
  The forwarding task on the records its channel yields: the frames it writes. A record
  that cannot be encoded is skipped; a failed write ends the task.
\<close>

fun forward_subscription ::
  "codecs \<Rightarrow> (nat \<Rightarrow> proto_error option) \<Rightarrow> nat \<Rightarrow> string \<Rightarrow> change_record list \<Rightarrow> frame list" where
  "forward_subscription lib wr i subscription_id [] = []"
| "forward_subscription lib wr i subscription_id (record # rest) =
     (case encode_message (to_change_record lib) ChangeRecord
             \<lparr>cr_subscription_id = subscription_id, cr_record = record\<rparr> of
        Inl e \<Rightarrow> forward_subscription lib wr i subscription_id rest
      | Inr f \<Rightarrow>
          (case wr i of
             Some e \<Rightarrow> []
           | None \<Rightarrow> f # forward_subscription lib wr (Suc i) subscription_id rest))"

section \<open>A connection\<close>

text \<open>What \<open>stream.next()\<close> yields.\<close>

datatype stream_item = Item frame | StreamError proto_error | StreamEnd

text \<open>Where \<open>handle_connection\<close> stands: in the TLS handshake, waiting for a frame in one of the
  phases of \<open>serve_framed\<close>, or returned.\<close>

datatype phase =
  AwaitTls
| AwaitStartup
| AwaitAuth "string list"
| Serving session
| Finished "wire_error + unit"

text \<open>Sending one frame after the other; the first failure ends it.\<close>

fun send_all :: "(nat \<Rightarrow> proto_error option) \<Rightarrow> nat \<Rightarrow> frame list \<Rightarrow> frame list \<times> proto_error option" where
  "send_all wr i [] = ([], None)"
| "send_all wr i (f # fs) =
     (case wr i of
        Some e \<Rightarrow> ([], Some e)
      | None \<Rightarrow> (case send_all wr (Suc i) fs of (sent, r) \<Rightarrow> (f # sent, r)))"

text \<open>\<open>send(frame).await.ok()\<close>.\<close>

definition send_ok :: "(nat \<Rightarrow> proto_error option) \<Rightarrow> frame \<Rightarrow> frame list" where
  "send_ok wr f = fst (send_all wr 0 [f])"

definition send_fatal_error :: "codecs \<Rightarrow> (nat \<Rightarrow> proto_error option) \<Rightarrow> string \<Rightarrow> frame list" where
  "send_fatal_error lib wr message = send_ok wr (make_error_frame lib message True)"

definition on_startup ::
  "codecs \<Rightarrow> (nat \<Rightarrow> proto_error option) \<Rightarrow> stream_item \<Rightarrow> phase \<times> frame list" where
  "on_startup lib wr item =
     (case item of
        StreamEnd \<Rightarrow> (Finished (Inl ConnectionClosed), [])
      | StreamError e \<Rightarrow> (Finished (Inl (Proto e)), [])
      | Item frame \<Rightarrow>
          if fr_tag frame \<noteq> Startup then
            (Finished (Inl (Proto (InvalidFrameType (tag_byte (fr_tag frame))))),
             send_fatal_error lib wr ''expected Startup frame'')
          else
            (case decode_message (from_startup lib) frame of
               Inl e \<Rightarrow> (Finished (Inl (Proto (DeserializationError (proto_error_display e)))), [])
             | Inr startup \<Rightarrow>
                 if su_protocol_version startup \<noteq> PROTOCOL_VERSION then
                   (Finished (Inl (WireAuth (''unsupported protocol version '' @
                      show_nat (unat (su_protocol_version startup))))),
                    send_fatal_error lib wr (''protocol version mismatch: server='' @
                      show_nat (unat PROTOCOL_VERSION) @ '' client='' @
                      show_nat (unat (su_protocol_version startup))))
                 else (AwaitAuth (su_capabilities startup), [])))"

definition SERVER_VERSION :: string where
  "SERVER_VERSION = ''0.1.0''"

text \<open>The answers \<open>AuthOk\<close> and \<open>Ready\<close> to a valid token, and the session they open.\<close>

definition accept_session ::
  "codecs \<Rightarrow> env \<Rightarrow> (nat \<Rightarrow> proto_error option) \<Rightarrow> string list \<Rightarrow> phase \<times> frame list" where
  "accept_session lib env wr capabilities =
     (let session_id = uuid env 0;
          session = (session_new (clock env 0) session_id)
            \<lparr>se_authenticated := True, se_capabilities := capabilities\<rparr>
      in
      case encode_message (to_error lib) AuthOk \<lparr>er_message = ''ok'', er_fatal = False\<rparr> of
        Inl e \<Rightarrow> (Finished (Inl (Proto e)), [])
      | Inr auth_ok \<Rightarrow>
          (case wr 0 of
             Some e \<Rightarrow> (Finished (Inl (Proto e)), [])
           | None \<Rightarrow>
               (case encode_message (to_ready lib) Ready
                       \<lparr>rm_session_id = session_id, rm_server_version = SERVER_VERSION,
                        rm_protocol_version = PROTOCOL_VERSION,
                        rm_capabilities = [''subscribe'', ''history'', ''define_machine'']\<rparr> of
                  Inl e \<Rightarrow> (Finished (Inl (Proto e)), [auth_ok])
                | Inr ready \<Rightarrow>
                    (case wr 1 of
                       Some e \<Rightarrow> (Finished (Inl (Proto e)), [auth_ok])
                     | None \<Rightarrow> (Serving session, [auth_ok, ready])))))"

definition on_auth ::
  "codecs \<Rightarrow> server_config \<Rightarrow> env \<Rightarrow> (nat \<Rightarrow> proto_error option) \<Rightarrow> string list \<Rightarrow> stream_item
    \<Rightarrow> phase \<times> frame list" where
  "on_auth lib config env wr capabilities item =
     (case item of
        StreamEnd \<Rightarrow> (Finished (Inl ConnectionClosed), [])
      | StreamError e \<Rightarrow> (Finished (Inl (Proto e)), [])
      | Item frame \<Rightarrow>
          if fr_tag frame \<noteq> Auth then
            (Finished (Inl (WireAuth ''expected Auth frame'')),
             send_fatal_error lib wr ''expected Auth frame'')
          else
            (case decode_message (from_auth lib) frame of
               Inl e \<Rightarrow> (Finished (Inl (Proto e)), [])
             | Inr auth \<Rightarrow>
                 if \<not> token_is_valid (sc_auth_tokens config) (au_token auth) then
                   (case encode_message (to_error lib) AuthError
                           \<lparr>er_message = ''invalid token'', er_fatal = True\<rparr> of
                      Inl e \<Rightarrow> (Finished (Inl (Proto e)), [])
                    | Inr f \<Rightarrow> (Finished (Inl (WireAuth ''invalid auth token'')), send_ok wr f))
                 else accept_session lib env wr capabilities))"

text \<open>Answering in the request loop: a failed write returns from \<open>serve_framed\<close>.\<close>

definition respond ::
  "(nat \<Rightarrow> proto_error option) \<Rightarrow> session \<Rightarrow> frame list \<Rightarrow> phase \<times> frame list" where
  "respond wr session frames =
     (case send_all wr 0 frames of
        (sent, None) \<Rightarrow> (Serving session, sent)
      | (sent, Some e) \<Rightarrow> (Finished (Inl (Proto e)), sent))"

text \<open>After the loop every subscription of the session is removed from the engine.\<close>

definition clean_up :: "session \<Rightarrow> 's engine \<Rightarrow> 's engine" where
  "clean_up session eng = foldl unsubscribe eng (se_subscriptions session)"

text \<open>
  One iteration of the request loop: the phase after it, the frames written, the engine, the
  metrics and the subscription a forwarding task was spawned for. \<open>panicked\<close> tells that the
  blocking worker panicked, which only a guard can make it do, before anything is written.
\<close>

definition on_request ::
  "codecs \<Rightarrow> 's storage_engine \<Rightarrow> env \<Rightarrow> (nat \<Rightarrow> proto_error option) \<Rightarrow> bool \<Rightarrow> session
    \<Rightarrow> 's engine \<Rightarrow> server_metrics \<Rightarrow> stream_item
    \<Rightarrow> phase \<times> frame list \<times> 's engine \<times> server_metrics \<times> string option" where
  "on_request lib ops env wr panicked session eng metrics item =
     (case item of
        StreamError e \<Rightarrow> (Finished (Inr ()), [], clean_up session eng, metrics, None)
      | StreamEnd \<Rightarrow> (Finished (Inr ()), [], clean_up session eng, metrics, None)
      | Item frame \<Rightarrow>
          if fr_tag frame = Terminate then
            (Finished (Inr ()), [], clean_up session eng, metrics, None)
          else if fr_tag frame = Subscribe then
            (case handle_subscribe lib session eng frame of
               (Inr frames, session', eng', spawned) \<Rightarrow>
                 (case respond wr session' frames of (p, sent) \<Rightarrow> (p, sent, eng', metrics, spawned))
             | (Inl e, session', eng', spawned) \<Rightarrow>
                 (Serving session', send_ok wr (make_error_frame lib (wire_error_display e) False),
                  eng', metrics, spawned))
          else if fr_tag frame = Unsubscribe then
            (case decode_message (from_unsubscribe lib) frame of
               Inr msg \<Rightarrow>
                 (Serving (session\<lparr>se_subscriptions :=
                    removeAll (um_subscription_id msg) (se_subscriptions session)\<rparr>), [],
                  unsubscribe eng (um_subscription_id msg), metrics, None)
             | Inl e \<Rightarrow>
                 (Serving session, send_ok wr (make_error_frame lib (proto_error_display e) False),
                  eng, metrics, None))
          else
            (case (if panicked then (error_reply lib ''internal server error'', eng, metrics)
                   else handle_frame lib ops env eng metrics frame) of
               (frames, eng', metrics') \<Rightarrow>
                 (case respond wr session frames of (p, sent) \<Rightarrow> (p, sent, eng', metrics', None))))"

text \<open>A connection: its phase, all frames it wrote, the subscriptions it forwards.\<close>

record conn =
  cn_phase :: phase
  cn_sent :: "frame list"
  cn_forwards :: "string list"

text \<open>One item for a connection. \<open>finish\<close> is the end of the connection's task.\<close>

definition is_finished :: "phase \<Rightarrow> bool" where
  "is_finished p = (case p of Finished _ \<Rightarrow> True | _ \<Rightarrow> False)"

definition finish :: "phase \<Rightarrow> server_metrics \<Rightarrow> server_metrics" where
  "finish p metrics =
     (if is_finished p then metrics\<lparr>mt_connections_active := mt_connections_active metrics - 1\<rparr>
      else metrics)"

definition connection_step ::
  "codecs \<Rightarrow> server_config \<Rightarrow> 's storage_engine \<Rightarrow> env \<Rightarrow> (nat \<Rightarrow> proto_error option) \<Rightarrow> bool
    \<Rightarrow> stream_item \<Rightarrow> conn \<times> 's engine \<times> server_metrics \<Rightarrow> conn \<times> 's engine \<times> server_metrics" where
  "connection_step lib config ops env wr panicked item = (\<lambda>(c, eng, metrics).
     case cn_phase c of
       AwaitTls \<Rightarrow> (c, eng, metrics)
     | AwaitStartup \<Rightarrow>
         (case on_startup lib wr item of (p, sent) \<Rightarrow>
            (c\<lparr>cn_phase := p, cn_sent := cn_sent c @ sent\<rparr>, eng, finish p metrics))
     | AwaitAuth capabilities \<Rightarrow>
         (case on_auth lib config env wr capabilities item of (p, sent) \<Rightarrow>
            (c\<lparr>cn_phase := p, cn_sent := cn_sent c @ sent\<rparr>, eng, finish p metrics))
     | Serving session \<Rightarrow>
         (case on_request lib ops env wr panicked session eng metrics item of
            (p, sent, eng', metrics', spawned) \<Rightarrow>
              (c\<lparr>cn_phase := p, cn_sent := cn_sent c @ sent,
                 cn_forwards := cn_forwards c @ (case spawned of None \<Rightarrow> [] | Some s \<Rightarrow> [s])\<rparr>,
               eng', finish p metrics'))
     | Finished _ \<Rightarrow> (c, eng, metrics))"

section \<open>The accept loop\<close>

text \<open>
  The server: the shared engine and metrics, its connections in the order they were
  accepted, and what the accept loop has returned, once it has. A connection holds a permit of
  the semaphore until its task ends.
\<close>

record 's server =
  sv_engine :: "'s engine"
  sv_metrics :: server_metrics
  sv_conns :: "conn list"
  sv_returned :: "(wire_error + unit) option"

definition server_new :: "'s engine \<Rightarrow> 's server" where
  "server_new eng = \<lparr>sv_engine = eng,
     sv_metrics = \<lparr>mt_connections_total = 0, mt_connections_active = 0, mt_transitions_total = 0\<rparr>,
     sv_conns = [], sv_returned = None\<rparr>"

definition active :: "conn list \<Rightarrow> nat" where
  "active conns = length (filter (\<lambda>c. \<not> is_finished (cn_phase c)) conns)"

text \<open>An accepted TCP connection; \<open>tls\<close> tells whether certificates are configured.\<close>

definition accept_connection :: "server_config \<Rightarrow> bool \<Rightarrow> 's server \<Rightarrow> 's server" where
  "accept_connection config tls s =
     (if active (sv_conns s) < sc_max_connections config then
        s\<lparr>sv_conns := sv_conns s @
            [\<lparr>cn_phase = (if tls then AwaitTls else AwaitStartup), cn_sent = [], cn_forwards = []\<rparr>],
          sv_metrics := (sv_metrics s)
            \<lparr>mt_connections_total := mt_connections_total (sv_metrics s) + 1,
             mt_connections_active := mt_connections_active (sv_metrics s) + 1\<rparr>\<rparr>
      else s)"

text \<open>
  One iteration of the loop on what its \<open>select\<close> yields: a change of the shutdown watch, with the
  value then read, a connection, or an error of the listener. Connections whose task runs are
  not touched when the loop returns. \<open>serve\<close> has a watch that never changes, and \<open>run\<close>
  binds the address first.
\<close>

datatype listen_event = WatchChanged bool | Accepted | AcceptError string

definition serve_with_shutdown :: "server_config \<Rightarrow> bool \<Rightarrow> listen_event \<Rightarrow> 's server \<Rightarrow> 's server" where
  "serve_with_shutdown config tls event s =
     (if sv_returned s \<noteq> None then s
      else
        (case event of
           WatchChanged stop \<Rightarrow> if stop then s\<lparr>sv_returned := Some (Inr ())\<rparr> else s
         | AcceptError e \<Rightarrow> s\<lparr>sv_returned := Some (Inl (WireIo e))\<rparr>
         | Accepted \<Rightarrow> accept_connection config tls s))"

definition serve :: "server_config \<Rightarrow> bool \<Rightarrow> listen_event \<Rightarrow> 's server \<Rightarrow> 's server" where
  "serve config tls event s =
     (case event of
        WatchChanged _ \<Rightarrow> s
      | _ \<Rightarrow> serve_with_shutdown config tls event s)"

definition run_server ::
  "(string \<Rightarrow> string option) \<Rightarrow> server_config \<Rightarrow> bool \<Rightarrow> listen_event list \<Rightarrow> 's server \<Rightarrow> 's server" where
  "run_server bind_addr config tls events s =
     (case bind_addr (sc_listen_addr config) of
        Some e \<Rightarrow> s\<lparr>sv_returned := Some (Inl (WireIo e))\<rparr>
      | None \<Rightarrow> fold (serve config tls) events s)"

text \<open>The outcome of the TLS handshake of connection \<open>i\<close>.\<close>

definition tls_accept :: "string option \<Rightarrow> nat \<Rightarrow> 's server \<Rightarrow> 's server" where
  "tls_accept failure i s =
     (let p = (case failure of None \<Rightarrow> AwaitStartup | Some e \<Rightarrow> Finished (Inl (Tls e)))
      in s\<lparr>sv_conns := (sv_conns s)[i := (sv_conns s ! i)\<lparr>cn_phase := p\<rparr>],
           sv_metrics := finish p (sv_metrics s)\<rparr>)"

text \<open>The next item of the stream of connection \<open>i\<close>.\<close>

definition serve_item ::
  "codecs \<Rightarrow> server_config \<Rightarrow> 's storage_engine \<Rightarrow> env \<Rightarrow> (nat \<Rightarrow> proto_error option) \<Rightarrow> bool
    \<Rightarrow> nat \<Rightarrow> stream_item \<Rightarrow> 's server \<Rightarrow> 's server" where
  "serve_item lib config ops env wr panicked i item s =
     (case connection_step lib config ops env wr panicked item
             (sv_conns s ! i, sv_engine s, sv_metrics s) of
        (c, eng, metrics) \<Rightarrow>
          s\<lparr>sv_engine := eng, sv_metrics := metrics, sv_conns := (sv_conns s)[i := c]\<rparr>)"

end
