(* ===== verification/Shell.thy ===== *)
theory Shell
  imports Engine
begin

text \<open>
  The interactive shell (\<open>crates/smash/src/main.rs\<close>): the tokenizer, the command parser, the
  executor and the read-eval-print loop, on ASCII input lines. What a command prints is the
  list of the strings given to \<open>println!\<close>. The JSON readers, file access, time formatting and
  the error chains of \<open>anyhow\<close> are the fields of the parameter \<open>lib\<close>.
\<close>

section \<open>Library functions\<close>

datatype shell_error =
  ListingMachines engine_error
| ReadingFile string string

record shell_lib =
  sl_value :: "string \<Rightarrow> string + json"
  sl_definition :: "string \<Rightarrow> string + machine_definition"
  sl_read_file :: "string \<Rightarrow> string + string"
  sl_strftime :: "string \<Rightarrow> datetime \<Rightarrow> string"
  sl_alternate :: "shell_error \<Rightarrow> string"

text \<open>\<open>trim\<close>, \<open>to_lowercase\<close> and \<open>splitn(2, ' ')\<close> on ASCII strings.\<close>

definition is_whitespace :: "char \<Rightarrow> bool" where
  "is_whitespace c \<longleftrightarrow> c \<in> {CHR 0x09, CHR 0x0A, CHR 0x0B, CHR 0x0C, CHR 0x0D, CHR '' ''}"

definition trim :: "string \<Rightarrow> string" where
  "trim s = rev (dropWhile is_whitespace (rev (dropWhile is_whitespace s)))"

definition lower_char :: "char \<Rightarrow> char" where
  "lower_char c = (if 65 \<le> (of_char c :: nat) \<and> (of_char c :: nat) \<le> 90 then char_of (of_char c + 32 :: nat) else c)"

definition to_lowercase :: "string \<Rightarrow> string" where
  "to_lowercase s = map lower_char s"

definition split_space :: "string \<Rightarrow> string \<times> string option" where
  "split_space s =
     (takeWhile (\<lambda>c. c \<noteq> CHR '' '') s,
      case dropWhile (\<lambda>c. c \<noteq> CHR '' '') s of [] \<Rightarrow> None | _ # rest \<Rightarrow> Some rest)"

text \<open>\<open>parse::<u64>\<close> and \<open>parse::<u32>\<close>: an optional plus sign, decimal digits, no overflow.\<close>

fun digits_loop :: "nat \<Rightarrow> nat \<Rightarrow> string \<Rightarrow> nat option" where
  "digits_loop mx acc [] = Some acc"
| "digits_loop mx acc (c # cs) =
     (let d = (of_char c :: nat) in
      if 48 \<le> d \<and> d \<le> 57 then
        (let v = acc * 10 + (d - 48) in if mx < v then None else digits_loop mx v cs)
      else None)"

definition parse_uint :: "nat \<Rightarrow> string \<Rightarrow> nat option" where
  "parse_uint mx s =
     (case s of
        [] \<Rightarrow> None
      | c # cs \<Rightarrow>
          if c = CHR ''+'' then (if cs = [] then None else digits_loop mx 0 cs)
          else digits_loop mx 0 s)"

definition parse_u64 :: "string \<Rightarrow> u64 option" where
  "parse_u64 s = map_option of_nat (parse_uint (2 ^ 64 - 1) s)"

definition parse_u32 :: "string \<Rightarrow> u32 option" where
  "parse_u32 s = map_option of_nat (parse_uint (2 ^ 32 - 1) s)"

section \<open>Commands\<close>

datatype cmd =
  CmdTransition entity_id machine_name event_name actor_id json "u64 option"
| CmdCurrent entity_id machine_name
| CmdHistory entity_id machine_name "u32 option"
| CmdDefine string
| CmdListMachines
| CmdDescribeMachine machine_name
| CmdDescribeEntity entity_id
| CmdHelp
| CmdQuit
| CmdEmpty

section \<open>Tokenizer\<close>

abbreviation quote :: char where
  "quote \<equiv> CHR 0x27"

fun tokenize_loop :: "string \<Rightarrow> bool \<Rightarrow> string list \<Rightarrow> string \<Rightarrow> string list" where
  "tokenize_loop cur in_single_quote tokens [] =
     (if cur \<noteq> [] then tokens @ [cur] else tokens)"
| "tokenize_loop cur in_single_quote tokens (c # chars) =
     (if c = quote \<and> \<not> in_single_quote then tokenize_loop cur True tokens chars
      else if c = quote \<and> in_single_quote then tokenize_loop cur False tokens chars
      else if (c = CHR '' '' \<or> c = CHR 0x09) \<and> \<not> in_single_quote then
        (if cur \<noteq> [] then tokenize_loop [] in_single_quote (tokens @ [cur]) chars
         else tokenize_loop cur in_single_quote tokens chars)
      else tokenize_loop (cur @ [c]) in_single_quote tokens chars)"

definition tokenize :: "string \<Rightarrow> string list" where
  "tokenize input = tokenize_loop [] False [] input"

section \<open>Parser\<close>

fun transition_options ::
  "shell_lib \<Rightarrow> actor_id \<Rightarrow> json \<Rightarrow> u64 option \<Rightarrow> string list \<Rightarrow> string + actor_id \<times> json \<times> u64 option" where
  "transition_options lib actor ctx expect_version [] = Inr (actor, ctx, expect_version)"
| "transition_options lib actor ctx expect_version (token # rest) =
     (if token = ''--actor'' then
        (case rest of
           [] \<Rightarrow> Inl ''--actor requires a value''
         | value # rest' \<Rightarrow> transition_options lib value ctx expect_version rest')
      else if token = ''--ctx'' then
        (case rest of
           [] \<Rightarrow> Inl ''--ctx requires a JSON value''
         | value # rest' \<Rightarrow>
             (case sl_value lib value of
                Inl e \<Rightarrow> Inl (''invalid JSON for --ctx: '' @ e)
              | Inr ctx' \<Rightarrow> transition_options lib actor ctx' expect_version rest'))
      else if token = ''--expect-version'' \<or> token = ''--expected-version'' then
        (case rest of
           [] \<Rightarrow> Inl ''--expect-version requires a number''
         | value # rest' \<Rightarrow>
             (case parse_u64 value of
                None \<Rightarrow> Inl (quoted value @ '' is not a valid version number'')
              | Some v \<Rightarrow> transition_options lib actor ctx (Some v) rest'))
      else Inl (''unexpected argument: '' @ quoted token))"

definition parse_transition :: "shell_lib \<Rightarrow> string list \<Rightarrow> string + cmd" where
  "parse_transition lib tokens =
     (if length tokens < 4 then
        Inl (''usage: transition <entity_id> <machine> <event> [--actor NAME] [--ctx '' @ quoted ''{}'' @
             ''] [--expect-version N]'')
      else
        rbind (transition_options lib ''smash'' (JObject []) None (drop 4 tokens))
          (\<lambda>(actor, ctx, expect_version).
             Inr (CmdTransition (tokens ! 1) (tokens ! 2) (tokens ! 3) actor ctx expect_version)))"

definition parse_current :: "string list \<Rightarrow> string + cmd" where
  "parse_current tokens =
     (if length tokens < 3 then Inl ''usage: current <entity_id> <machine>''
      else Inr (CmdCurrent (tokens ! 1) (tokens ! 2)))"

fun history_options :: "u32 option \<Rightarrow> string list \<Rightarrow> string + u32 option" where
  "history_options limit [] = Inr limit"
| "history_options limit (token # rest) =
     (if token = ''--limit'' \<or> token = ''-l'' \<or> token = ''-n'' then
        (case rest of
           [] \<Rightarrow> Inl ''--limit requires a number''
         | value # rest' \<Rightarrow>
             (case parse_u32 value of
                None \<Rightarrow> Inl (quoted value @ '' is not a valid limit'')
              | Some n \<Rightarrow> history_options (Some n) rest'))
      else Inl (''unexpected argument: '' @ quoted token))"

definition parse_history :: "string list \<Rightarrow> string + cmd" where
  "parse_history tokens =
     (if length tokens < 3 then Inl ''usage: history <entity_id> <machine> [--limit N]''
      else rbind (history_options None (drop 3 tokens)) (\<lambda>limit.
        Inr (CmdHistory (tokens ! 1) (tokens ! 2) limit)))"

text \<open>\<open>tokens.join(" ")\<close>.\<close>

fun join_space :: "string list \<Rightarrow> string" where
  "join_space [] = []"
| "join_space [s] = s"
| "join_space (s # t # ts) = s @ '' '' @ join_space (t # ts)"

definition parse_define :: "string list \<Rightarrow> string + cmd" where
  "parse_define tokens =
     (if length tokens < 2 then Inl ''usage: define <json_string_or_@file>''
      else Inr (CmdDefine (join_space (tl tokens))))"

definition parse_meta :: "string \<Rightarrow> string + cmd" where
  "parse_meta rest =
     (case split_space rest of (name, arg) \<Rightarrow>
        if name = ''machines'' then Inr CmdListMachines
        else if name = ''machine'' then
          (case arg of
             None \<Rightarrow> Inl (''usage: '' @ [CHR 0x5C] @ ''machine <name>'')
           | Some a \<Rightarrow>
               if trim a = [] then Inl (''usage: '' @ [CHR 0x5C] @ ''machine <name>'')
               else Inr (CmdDescribeMachine (trim a)))
        else if name = ''entity'' then
          (case arg of
             None \<Rightarrow> Inl (''usage: '' @ [CHR 0x5C] @ ''entity <entity_id>'')
           | Some a \<Rightarrow>
               if trim a = [] then Inl (''usage: '' @ [CHR 0x5C] @ ''entity <entity_id>'')
               else Inr (CmdDescribeEntity (trim a)))
        else if name \<in> {''help'', ''h'', ''?''} then Inr CmdHelp
        else if name \<in> {''quit'', ''q'', ''exit''} then Inr CmdQuit
        else Inl (''unknown meta-command: '' @ CHR 0x5C # name))"

text \<open>The dispatch on the first token.\<close>

definition parse_tokens :: "shell_lib \<Rightarrow> string list \<Rightarrow> string + cmd" where
  "parse_tokens lib tokens =
     (let word = to_lowercase (tokens ! 0) in
      if word \<in> {''transition'', ''tr''} then parse_transition lib tokens
      else if word \<in> {''current'', ''cur''} then parse_current tokens
      else if word \<in> {''history'', ''hist''} then parse_history tokens
      else if word \<in> {''define'', ''def''} then parse_define tokens
      else if word \<in> {''quit'', ''exit'', ''q''} then Inr CmdQuit
      else if word \<in> {''help'', ''h'', ''?''} then Inr CmdHelp
      else Inl (''unknown command: '' @ quoted word @ ''. Type '' @ [CHR 0x5C] @ ''help for commands.''))"

definition parse_command :: "shell_lib \<Rightarrow> string \<Rightarrow> string + cmd" where
  "parse_command lib input =
     (case trim input of
        [] \<Rightarrow> Inr CmdEmpty
      | c # rest \<Rightarrow>
          if c = CHR ''#'' then Inr CmdEmpty
          else if c = CHR 0x5C then parse_meta rest
          else
            let tokens = tokenize (c # rest) in
            if tokens = [] then Inr CmdEmpty else parse_tokens lib tokens)"

section \<open>Printing\<close>

text \<open>The alignments \<open>{:<w}\<close> and \<open>{:>w}\<close> of a format string.\<close>

definition pad_right :: "nat \<Rightarrow> string \<Rightarrow> string" where
  "pad_right w s = s @ replicate (w - length s) (CHR '' '')"

definition pad_left :: "nat \<Rightarrow> string \<Rightarrow> string" where
  "pad_left w s = replicate (w - length s) (CHR '' '') @ s"

fun join_comma :: "string list \<Rightarrow> string" where
  "join_comma [] = []"
| "join_comma [s] = s"
| "join_comma (s # t # ts) = s @ '', '' @ join_comma (t # ts)"

definition print_machine :: "machine_definition \<Rightarrow> string list" where
  "print_machine m =
     [''Machine:      '' @ md_name m,
      ''Version:      '' @ show_nat (unat (md_version m)),
      ''Initial:      '' @ md_initial_state m,
      ''States ('' @ show_nat (length (md_states m)) @ ''):''] @
     map (\<lambda>s. ''  '' @ (if s = md_initial_state m then '' *'' else ''  '') @ s) (md_states m) @
     [''Transitions ('' @ show_nat (length (md_transitions m)) @ ''):''] @
     map (\<lambda>t. ''  '' @ pad_right 20 (rl_event t) @ '' '' @
            pad_right 30 (''['' @ join_comma (rl_from_states t) @ '']'') @ '' -> '' @ rl_to_state t @
            (if rl_guards t = [] then [] else ''  [guards: '' @ join_comma (rl_guards t) @ '']''))
       (md_transitions m) @
     (if md_effects m = [] then []
      else (''Effects ('' @ show_nat (length (md_effects m)) @ ''):'') #
        map (\<lambda>e. ''  on '' @ quoted (er_on_event e) @ '' -> emit '' @ quoted (er_effect e)) (md_effects m))"

section \<open>Executor\<close>

text \<open>
  One function per command: what it prints and, for the two commands that change it, the
  engine. \<open>execute\<close> returns whether the loop goes on.
\<close>

definition show_machines :: "machine_definition list \<Rightarrow> string list" where
  "show_machines machines =
     (if machines = [] then [''No machines defined.'']
      else
        [pad_right 30 ''Name'' @ '' '' @ pad_left 7 ''Version'' @ ''  Initial State'',
         replicate 60 (CHR ''-'')] @
        map (\<lambda>m. pad_right 30 (md_name m) @ '' '' @ pad_left 7 (show_nat (unat (md_version m))) @
               ''  '' @ md_initial_state m) machines @
        [CHR 0x0A # show_nat (length machines) @ '' machine(s)''])"

definition entity_line ::
  "'s storage_engine \<Rightarrow> 's engine \<Rightarrow> entity_id \<Rightarrow> machine_definition \<Rightarrow> string" where
  "entity_line ops eng entity_id m =
     (case current ops eng entity_id (md_name m) of
        Inr state \<Rightarrow> ''  '' @ pad_right 30 (md_name m) @ ''  state='' @
          pad_right 20 (es_current_state state) @ ''  v='' @ show_nat (unat (es_version state))
      | Inl _ \<Rightarrow> ''  '' @ pad_right 30 (md_name m) @ ''  state='' @
          pad_right 20 (md_initial_state m) @ ''  (not started)'')"

definition show_entity ::
  "'s storage_engine \<Rightarrow> 's engine \<Rightarrow> entity_id \<Rightarrow> machine_definition list \<Rightarrow> string list" where
  "show_entity ops eng entity_id machines =
     (if machines = [] then [''No machines defined.'']
      else
        [''Entity: '' @ entity_id, replicate 60 (CHR ''-'')] @
        map (entity_line ops eng entity_id) machines @
        (if list_ex (\<lambda>m. case current ops eng entity_id (md_name m) of Inr _ \<Rightarrow> True | Inl _ \<Rightarrow> False) machines then []
         else [''No state records found for entity '' @ quoted entity_id @ ''.'']))"

definition show_current :: "shell_lib \<Rightarrow> engine_error + entity_state \<Rightarrow> string list" where
  "show_current lib r =
     (case r of
        Inr state \<Rightarrow>
          [''Entity:    '' @ es_entity_id state,
           ''Machine:   '' @ es_machine state,
           ''State:     '' @ es_current_state state,
           ''Version:   '' @ show_nat (unat (es_version state)),
           ''Updated:   '' @ sl_strftime lib ''%Y-%m-%d %H:%M:%S UTC'' (es_updated_at state)]
      | Inl e \<Rightarrow> [''Error: '' @ engine_error_display e])"

definition show_history ::
  "shell_lib \<Rightarrow> entity_id \<Rightarrow> machine_name \<Rightarrow> engine_error + transition_record list \<Rightarrow> string list" where
  "show_history lib entity_id machine r =
     (case r of
        Inl e \<Rightarrow> [''Error: '' @ engine_error_display e]
      | Inr records \<Rightarrow>
          if records = [] then [''No history for '' @ quoted entity_id @ '' in '' @ quoted machine @ ''.'']
          else
            [pad_left 8 ''Seq'' @ ''  '' @ pad_right 20 ''Timestamp'' @ ''  '' @ pad_right 20 ''Event'' @ ''  '' @
               pad_right 20 ''From'' @ ''  '' @ pad_right 20 ''To'' @ ''  Actor'',
             replicate 100 (CHR ''-'')] @
            map (\<lambda>r. pad_left 8 (show_nat (unat (tr_sequence r))) @ ''  '' @
                   pad_right 20 (sl_strftime lib ''%Y-%m-%d %H:%M:%S'' (tr_timestamp r)) @ ''  '' @
                   pad_right 20 (tr_event r) @ ''  '' @ pad_right 20 (tr_from_state r) @ ''  '' @
                   pad_right 20 (tr_to_state r) @ ''  '' @ tr_actor r) records @
            [CHR 0x0A # show_nat (length records) @ '' record(s)''])"

definition shell_define ::
  "shell_lib \<Rightarrow> 's storage_engine \<Rightarrow> 's engine \<Rightarrow> string \<Rightarrow> (shell_error + string list) \<times> 's engine" where
  "shell_define lib ops eng source =
     (let json_str =
        (case source of
           c # path \<Rightarrow>
             if c = CHR ''@'' then map_err (ReadingFile path) (sl_read_file lib path) else Inr source
         | [] \<Rightarrow> Inr source)
      in
      case json_str of
        Inl e \<Rightarrow> (Inl e, eng)
      | Inr text \<Rightarrow>
          (case sl_definition lib text of
             Inl e \<Rightarrow> (Inr [''Invalid MachineDefinition JSON: '' @ e], eng)
           | Inr d \<Rightarrow>
               (case define_machine ops eng d of
                  (Inr _, eng') \<Rightarrow> (Inr [''Machine '' @ quoted (md_name d) @ '' defined.''], eng')
                | (Inl e, eng') \<Rightarrow> (Inr [''Error: '' @ engine_error_display e], eng'))))"

definition shell_transition ::
  "'s storage_engine \<Rightarrow> env \<Rightarrow> 's engine \<Rightarrow> entity_id \<Rightarrow> machine_name \<Rightarrow> event_name \<Rightarrow> actor_id \<Rightarrow> json
    \<Rightarrow> u64 option \<Rightarrow> string list \<times> 's engine" where
  "shell_transition ops env eng entity_id machine event actor ctx expect_version =
     (case transition ops env eng entity_id machine event actor ctx expect_version None of
        (Inr r, eng') \<Rightarrow>
          ([''OK  '' @ rs_from_state r @ '' -> '' @ rs_to_state r @ ''  (v'' @ show_nat (unat (rs_version r)) @
            '', seq '' @ show_nat (unat (rs_sequence r)) @ '')''], eng')
      | (Inl e, eng') \<Rightarrow> ([''Error: '' @ engine_error_display e], eng'))"

text \<open>The help text; \<open>CHR 0x5C\<close> is the backslash, and the dash of the title is written in UTF-8.\<close>

definition em_dash :: string where
  "em_dash = [CHR 0xE2, CHR 0x80, CHR 0x94]"

definition help_lines :: "string list" where
  "help_lines =
     [[], ''smash '' @ em_dash @ '' StateMaster interactive shell'', [],
      ''Data commands:'',
      ''  transition <entity_id> <machine> <event>'',
      ''             [--actor NAME] [--ctx '' @
        quoted (''{'' @ CHR 0x22 # ''k'' @ CHR 0x22 # '':'' @ CHR 0x22 # ''v'' @ CHR 0x22 # ''}'') @
        ''] [--expect-version N]'',
      ''  current    <entity_id> <machine>'',
      ''  history    <entity_id> <machine> [--limit N]'',
      ''  define     <json_string>    -- inline JSON MachineDefinition'',
      ''  define     @<file>          -- load MachineDefinition from file'', [],
      ''Meta commands:'',
      ''  '' @ CHR 0x5C # ''machines            list all machine definitions'',
      ''  '' @ CHR 0x5C # ''machine <name>      describe a specific machine'',
      ''  '' @ CHR 0x5C # ''entity  <id>        show all machine states for an entity'',
      ''  '' @ CHR 0x5C # ''help | '' @ CHR 0x5C # ''h | '' @ CHR 0x5C # ''?      show this help'',
      ''  '' @ CHR 0x5C # ''quit | '' @ CHR 0x5C # ''q | '' @ CHR 0x5C # ''exit   exit smash'', [],
      ''Shortcuts:'',
      ''  tr  = transition'', ''  cur = current'', ''  hist = history'', ''  def = define'']"

definition print_help :: string where
  "print_help = concat (map (\<lambda>l. l @ [CHR 0x0A]) help_lines)"

definition execute ::
  "shell_lib \<Rightarrow> 's storage_engine \<Rightarrow> env \<Rightarrow> 's engine \<Rightarrow> cmd
    \<Rightarrow> (shell_error + bool) \<times> string list \<times> 's engine" where
  "execute lib ops env eng cmd =
     (case cmd of
        CmdEmpty \<Rightarrow> (Inr True, [], eng)
      | CmdQuit \<Rightarrow> (Inr False, [''Goodbye.''], eng)
      | CmdHelp \<Rightarrow> (Inr True, [print_help], eng)
      | CmdListMachines \<Rightarrow>
          (case engine_list_machines ops eng of
             Inl e \<Rightarrow> (Inl (ListingMachines e), [], eng)
           | Inr machines \<Rightarrow> (Inr True, show_machines machines, eng))
      | CmdDescribeMachine name \<Rightarrow>
          (case engine_get_machine ops eng name of
             Inr m \<Rightarrow> (Inr True, print_machine m, eng)
           | Inl e \<Rightarrow> (Inr True, [''Error: '' @ engine_error_display e], eng))
      | CmdDescribeEntity entity_id \<Rightarrow>
          (case engine_list_machines ops eng of
             Inl e \<Rightarrow> (Inl (ListingMachines e), [], eng)
           | Inr machines \<Rightarrow> (Inr True, show_entity ops eng entity_id machines, eng))
      | CmdCurrent entity_id machine \<Rightarrow>
          (Inr True, show_current lib (current ops eng entity_id machine), eng)
      | CmdHistory entity_id machine limit \<Rightarrow>
          (Inr True, show_history lib entity_id machine (history ops eng entity_id machine limit None), eng)
      | CmdDefine source \<Rightarrow>
          (case shell_define lib ops eng source of
             (Inl e, eng') \<Rightarrow> (Inl e, [], eng')
           | (Inr out, eng') \<Rightarrow> (Inr True, out, eng'))
      | CmdTransition entity_id machine event actor ctx expect_version \<Rightarrow>
          (case shell_transition ops env eng entity_id machine event actor ctx expect_version of
             (out, eng') \<Rightarrow> (Inr True, out, eng')))"

section \<open>The loop\<close>

text \<open>What \<open>readline\<close> returns.\<close>

datatype readline = Line string | Interrupted | Eof | ReadError string

text \<open>One line; the boolean tells whether the loop goes on.\<close>

definition repl_line ::
  "shell_lib \<Rightarrow> 's storage_engine \<Rightarrow> env \<Rightarrow> 's engine \<Rightarrow> readline
    \<Rightarrow> bool \<times> string list \<times> 's engine" where
  "repl_line lib ops env eng input =
     (case input of
        Line line \<Rightarrow>
          (case parse_command lib line of
             Inl msg \<Rightarrow> (True, [''Parse error: '' @ msg], eng)
           | Inr cmd \<Rightarrow>
               (case execute lib ops env eng cmd of
                  (Inr continue, out, eng') \<Rightarrow> (continue, out, eng')
                | (Inl e, out, eng') \<Rightarrow> (True, out @ [''Error: '' @ sl_alternate lib e], eng')))
      | Interrupted \<Rightarrow> (True, [''^C''], eng)
      | Eof \<Rightarrow> (False, [CHR 0x0A # ''Goodbye.''], eng)
      | ReadError e \<Rightarrow> (False, [''Readline error: '' @ e], eng))"

text \<open>The loop on the lines that are typed, each with the storage and the clock of its step.\<close>

fun repl_loop ::
  "shell_lib \<Rightarrow> ('s storage_engine \<times> env \<times> readline) list \<Rightarrow> 's engine
    \<Rightarrow> string list \<times> 's engine" where
  "repl_loop lib [] eng = ([], eng)"
| "repl_loop lib ((ops, env, input) # inputs) eng =
     (case repl_line lib ops env eng input of
        (False, out, eng') \<Rightarrow> (out, eng')
      | (True, out, eng') \<Rightarrow>
          (case repl_loop lib inputs eng' of (out', eng'') \<Rightarrow> (out @ out', eng'')))"

text \<open>
  \<open>run_repl\<close>: the editor (\<open>editor\<close> is the error when it cannot be made), the greeting, the loop. The
  history file only feeds the line editor.
\<close>

definition run_repl ::
  "shell_lib \<Rightarrow> string option \<Rightarrow> ('s storage_engine \<times> env \<times> readline) list \<Rightarrow> 's engine
    \<Rightarrow> (string + string list) \<times> 's engine" where
  "run_repl lib editor inputs eng =
     (case editor of
        Some e \<Rightarrow> (Inl e, eng)
      | None \<Rightarrow>
          (case repl_loop lib inputs eng of
             (out, eng') \<Rightarrow>
               (Inr ((''smash '' @ em_dash @ '' StateMaster shell (type '' @ CHR 0x5C # ''help for commands, '' @
                  CHR 0x5C # ''quit to exit)'') # out), eng')))"

end
