(* ===== verification/Daemon.thy ===== *)
theory Daemon
  imports Server Shell Storage
begin

text \<open>
  The daemon \<open>smdbd\<close> (\<open>crates/smdbd/src\<close>: \<open>config.rs\<close>, \<open>main.rs\<close>) and its TLS set-up
  (\<open>build_tls_config\<close> of \<open>crates/smdb-wire/src/server.rs\<close>): the configuration file, the
  resolution and validation of the configuration, the start of the daemon, the health
  endpoint and the shutdown. The file system, the environment, the TOML reader and the binding of sockets are
  the fields of the parameter \<open>host\<close>.
\<close>

section \<open>The configuration file\<close>

record server_section =
  ss_listen_addr :: string
  ss_metrics_addr :: string

definition server_section_default :: server_section where
  "server_section_default = \<lparr>ss_listen_addr = ''0.0.0.0:7632'', ss_metrics_addr = ''0.0.0.0:7633''\<rparr>"

record storage_section =
  st_data_dir :: string

definition storage_section_default :: storage_section where
  "storage_section_default = \<lparr>st_data_dir = ''data''\<rparr>"

record tls_section =
  ts_cert_path :: "string option"
  ts_key_path :: "string option"

datatype log_format = Json | Text

record logging_section =
  ls_level :: string
  ls_format :: log_format

definition logging_section_default :: logging_section where
  "logging_section_default = \<lparr>ls_level = ''info'', ls_format = Json\<rparr>"

record dispatcher_section =
  ds_interval_ms :: u64

definition dispatcher_section_default :: dispatcher_section where
  "dispatcher_section_default = \<lparr>ds_interval_ms = 100\<rparr>"

record auth_section =
  as_tokens :: "string list"

record file_config =
  fc_server :: server_section
  fc_storage :: storage_section
  fc_tls :: tls_section
  fc_logging :: logging_section
  fc_dispatcher :: dispatcher_section
  fc_auth :: auth_section

definition file_config_default :: file_config where
  "file_config_default = \<lparr>fc_server = server_section_default, fc_storage = storage_section_default,
     fc_tls = \<lparr>ts_cert_path = None, ts_key_path = None\<rparr>, fc_logging = logging_section_default,
     fc_dispatcher = dispatcher_section_default, fc_auth = \<lparr>as_tokens = []\<rparr>\<rparr>"

section \<open>The host\<close>

datatype io_error = IoNotFound | IoOther string

record host =
  hs_read_to_string :: "string \<Rightarrow> io_error + string"
  hs_toml :: "string \<Rightarrow> string + file_config"
  hs_env_var :: "string \<Rightarrow> string option"
  hs_is_file :: "string \<Rightarrow> bool"
  hs_create_dir_all :: "string \<Rightarrow> string option"
  hs_bind :: "string \<Rightarrow> string option"

text \<open>The errors of the daemon, by the context that \<open>anyhow\<close> reports.\<close>

datatype daemon_error =
  ParsingConfig string string
| ReadingConfig string io_error
| InvalidListenAddr string
| InvalidMetricsAddr string
| InvalidLogLevel string
| ZeroInterval
| TlsNotPaired
| TlsNoFile string string
| CreatingDataDir string string
| OpeningDatabase string storage_error
| BuildingServer wire_error
| ParsingMetricsAddr string
| ParsingListenAddr string
| Binding string string

section \<open>Loading and validating\<close>

datatype config_source = File string | Defaults

definition load :: "host \<Rightarrow> string \<Rightarrow> bool \<Rightarrow> daemon_error + file_config \<times> config_source" where
  "load host path explicit =
     (case hs_read_to_string host path of
        Inr raw \<Rightarrow>
          (case hs_toml host raw of
             Inl e \<Rightarrow> Inl (ParsingConfig path e)
           | Inr cfg \<Rightarrow> Inr (cfg, File path))
      | Inl e \<Rightarrow>
          if e = IoNotFound \<and> \<not> explicit then Inr (file_config_default, Defaults)
          else Inl (ReadingConfig path e))"

record config =
  cf_listen_addr :: string
  cf_metrics_addr :: string
  cf_data_dir :: string
  cf_log_level :: string
  cf_log_format :: log_format
  cf_dispatcher_interval_ms :: u64
  cf_tls_cert_path :: "string option"
  cf_tls_key_path :: "string option"
  cf_auth_tokens :: "string list"

text \<open>
  \<open>parse::<SocketAddr>\<close>: four decimal octets without leading zeros and a 16-bit port, or the
  IPv6 form in brackets, with an optional scope identifier.
\<close>

definition ipv4_octet :: "string \<Rightarrow> bool" where
  "ipv4_octet s \<longleftrightarrow> s \<noteq> [] \<and> length s \<le> 3 \<and> digits_loop 255 0 s \<noteq> None \<and> (hd s = CHR ''0'' \<longrightarrow> s = ''0'')"

fun split_on :: "char \<Rightarrow> string \<Rightarrow> string list" where
  "split_on sep [] = [[]]"
| "split_on sep (c # cs) =
     (if c = sep then [] # split_on sep cs
      else (case split_on sep cs of [] \<Rightarrow> [[c]] | w # ws \<Rightarrow> (c # w) # ws))"

definition ipv4_addr :: "string \<Rightarrow> bool" where
  "ipv4_addr s =
     (case split_on (CHR '':'') s of
        [ip, port] \<Rightarrow>
          length (split_on (CHR ''.'') ip) = 4 \<and> list_all ipv4_octet (split_on (CHR ''.'') ip) \<and>
          port \<noteq> [] \<and> digits_loop 65535 0 port \<noteq> None
      | _ \<Rightarrow> False)"

text \<open>
  The readers of the IPv6 form return what follows the text they accept. A group has at most
  four hexadecimal digits, the last two groups may be written as an IPv4 address, and \<open>::\<close>
  stands for the groups left out; no IPv4 address comes before it.
\<close>

definition is_digit :: "char \<Rightarrow> bool" where
  "is_digit c \<longleftrightarrow> 48 \<le> (of_char c :: nat) \<and> (of_char c :: nat) \<le> 57"

definition is_hex :: "char \<Rightarrow> bool" where
  "is_hex c \<longleftrightarrow> is_digit c \<or> (65 \<le> (of_char c :: nat) \<and> (of_char c :: nat) \<le> 70) \<or>
     (97 \<le> (of_char c :: nat) \<and> (of_char c :: nat) \<le> 102)"

definition read_given_char :: "char \<Rightarrow> string \<Rightarrow> string option" where
  "read_given_char c s = (case s of x # xs \<Rightarrow> if x = c then Some xs else None | [] \<Rightarrow> None)"

definition read_separator :: "char \<Rightarrow> nat \<Rightarrow> (string \<Rightarrow> string option) \<Rightarrow> string \<Rightarrow> string option" where
  "read_separator sep i inner s = (if i = 0 then inner s else Option.bind (read_given_char sep s) inner)"

definition read_octet :: "string \<Rightarrow> string option" where
  "read_octet s = (if ipv4_octet (takeWhile is_digit s) then Some (dropWhile is_digit s) else None)"

definition read_ipv4 :: "string \<Rightarrow> string option" where
  "read_ipv4 s =
     Option.bind (read_octet s) (\<lambda>s.
     Option.bind (read_separator (CHR ''.'') 1 read_octet s) (\<lambda>s.
     Option.bind (read_separator (CHR ''.'') 2 read_octet s) (\<lambda>s.
     read_separator (CHR ''.'') 3 read_octet s)))"

definition read_group :: "string \<Rightarrow> string option" where
  "read_group s =
     (let d = takeWhile is_hex s in
      if d = [] \<or> 4 < length d then None else Some (dropWhile is_hex s))"

text \<open>\<open>n\<close> groups are still allowed and \<open>i\<close> have been read; the flag tells of an IPv4 ending.\<close>

fun read_groups :: "nat \<Rightarrow> nat \<Rightarrow> string \<Rightarrow> nat \<times> bool \<times> string" where
  "read_groups 0 i s = (i, False, s)"
| "read_groups (Suc n) i s =
     (case (if 0 < n then read_separator (CHR '':'') i read_ipv4 s else None) of
        Some s' \<Rightarrow> (i + 2, True, s')
      | None \<Rightarrow>
          (case read_separator (CHR '':'') i read_group s of
             Some s' \<Rightarrow> read_groups n (Suc i) s'
           | None \<Rightarrow> (i, False, s)))"

definition read_ipv6 :: "string \<Rightarrow> string option" where
  "read_ipv6 s =
     (case read_groups 8 0 s of (head_size, head_ipv4, s) \<Rightarrow>
        if head_size = 8 then Some s
        else if head_ipv4 then None
        else
          Option.bind (read_given_char (CHR '':'') s) (\<lambda>s.
          Option.bind (read_given_char (CHR '':'') s) (\<lambda>s.
          case read_groups (8 - (head_size + 1)) 0 s of (_, _, s) \<Rightarrow> Some s)))"

definition read_scope_id :: "string \<Rightarrow> string" where
  "read_scope_id s =
     (case read_given_char (CHR ''%'') s of
        None \<Rightarrow> s
      | Some s' \<Rightarrow>
          if takeWhile is_digit s' \<noteq> [] \<and> digits_loop (2 ^ 32 - 1) 0 (takeWhile is_digit s') \<noteq> None
          then dropWhile is_digit s' else s)"

definition ipv6_addr :: "string \<Rightarrow> bool" where
  "ipv6_addr s =
     (case Option.bind (read_given_char (CHR ''['') s) (\<lambda>s.
           Option.bind (read_ipv6 s) (\<lambda>s.
           Option.bind (read_given_char (CHR '']'') (read_scope_id s)) (\<lambda>s.
           read_given_char (CHR '':'') s))) of
        Some port \<Rightarrow> port \<noteq> [] \<and> digits_loop 65535 0 port \<noteq> None
      | None \<Rightarrow> False)"

definition socket_addr :: "string \<Rightarrow> bool" where
  "socket_addr s \<longleftrightarrow> ipv4_addr s \<or> ipv6_addr s"

definition LEVELS :: "string list" where
  "LEVELS = [''trace'', ''debug'', ''info'', ''warn'', ''error'']"

definition validate_config :: "host \<Rightarrow> config \<Rightarrow> daemon_error + unit" where
  "validate_config host cfg =
     (if \<not> socket_addr (cf_listen_addr cfg) then Inl (InvalidListenAddr (cf_listen_addr cfg))
      else if \<not> socket_addr (cf_metrics_addr cfg) then Inl (InvalidMetricsAddr (cf_metrics_addr cfg))
      else if cf_log_level cfg \<notin> set LEVELS then Inl (InvalidLogLevel (cf_log_level cfg))
      else if cf_dispatcher_interval_ms cfg = 0 then Inl ZeroInterval
      else
        (case (cf_tls_cert_path cfg, cf_tls_key_path cfg) of
           (Some _, None) \<Rightarrow> Inl TlsNotPaired
         | (None, Some _) \<Rightarrow> Inl TlsNotPaired
         | (Some cert, Some key) \<Rightarrow>
             if \<not> hs_is_file host cert then Inl (TlsNoFile ''cert_path'' cert)
             else if \<not> hs_is_file host key then Inl (TlsNoFile ''key_path'' key)
             else Inr ()
         | (None, None) \<Rightarrow> Inr ()))"

section \<open>Resolving\<close>

record args =
  ag_config :: "string option"
  ag_listen :: "string option"
  ag_metrics_addr :: "string option"
  ag_data_dir :: "string option"
  ag_log_level :: "string option"
  ag_tls_cert :: "string option"
  ag_tls_key :: "string option"

text \<open>\<open>unwrap_or\<close> and \<open>or\<close>.\<close>

definition unwrap_or :: "'a \<Rightarrow> 'a option \<Rightarrow> 'a" where
  "unwrap_or d x = (case x of Some y \<Rightarrow> y | None \<Rightarrow> d)"

definition or_else :: "'a option \<Rightarrow> 'a option \<Rightarrow> 'a option" where
  "or_else x y = (case x of Some _ \<Rightarrow> x | None \<Rightarrow> y)"

definition resolve_tokens :: "host \<Rightarrow> file_config \<Rightarrow> string list" where
  "resolve_tokens host file =
     (case hs_env_var host ''SMDB_AUTH_TOKENS'' of
        Some s \<Rightarrow> filter (\<lambda>t. t \<noteq> []) (map trim (split_on (CHR '','') s))
      | None \<Rightarrow> as_tokens (fc_auth file))"

definition resolve_config :: "host \<Rightarrow> args \<Rightarrow> daemon_error + config \<times> config_source" where
  "resolve_config host args =
     rbind (load host (unwrap_or ''statemaster.toml'' (ag_config args)) (ag_config args \<noteq> None))
       (\<lambda>(file, source).
     let cfg = \<lparr>
       cf_listen_addr = unwrap_or (ss_listen_addr (fc_server file)) (ag_listen args),
       cf_metrics_addr = unwrap_or (ss_metrics_addr (fc_server file)) (ag_metrics_addr args),
       cf_data_dir = unwrap_or (st_data_dir (fc_storage file)) (ag_data_dir args),
       cf_log_level = unwrap_or (ls_level (fc_logging file))
         (or_else (ag_log_level args) (hs_env_var host ''SMDB_LOG_LEVEL'')),
       cf_log_format = ls_format (fc_logging file),
       cf_dispatcher_interval_ms = ds_interval_ms (fc_dispatcher file),
       cf_tls_cert_path = or_else (ag_tls_cert args) (ts_cert_path (fc_tls file)),
       cf_tls_key_path = or_else (ag_tls_key args) (ts_key_path (fc_tls file)),
       cf_auth_tokens = resolve_tokens host file\<rparr>
     in rbind (validate_config host cfg) (\<lambda>_. Inr (cfg, source)))"

section \<open>TLS\<close>

text \<open>
  What \<open>rustls_pemfile\<close> and \<open>rustls\<close> provide: opening a file, the certificates and the items of
  a PEM file (each item may fail to parse), and the server configuration for a certificate
  chain and a key.
\<close>

datatype 'k pem_item = Pkcs1Key 'k | Pkcs8Key 'k | Sec1Key 'k | OtherItem

datatype 'k private_key = Pkcs1 'k | Pkcs8 'k | Sec1 'k

record ('f, 'c, 'k, 't) tls_lib =
  tl_open :: "string \<Rightarrow> string + 'f"
  tl_certs :: "'f \<Rightarrow> (string + 'c) list"
  tl_items :: "'f \<Rightarrow> (string + 'k pem_item) list"
  tl_single_cert :: "'c list \<Rightarrow> 'k private_key \<Rightarrow> string + 't"

fun collect_keys :: "(string + 'k pem_item) list \<Rightarrow> wire_error + 'k private_key list" where
  "collect_keys [] = Inr []"
| "collect_keys (item # items) =
     (case item of
        Inl e \<Rightarrow> Inl (Tls (''failed to parse key file: '' @ e))
      | Inr i \<Rightarrow>
          rbind (collect_keys items) (\<lambda>keys. Inr
            (case i of
               Pkcs1Key k \<Rightarrow> Pkcs1 k # keys
             | Pkcs8Key k \<Rightarrow> Pkcs8 k # keys
             | Sec1Key k \<Rightarrow> Sec1 k # keys
             | OtherItem \<Rightarrow> keys)))"

definition build_tls_config ::
  "('f, 'c, 'k, 't) tls_lib \<Rightarrow> server_config \<Rightarrow> wire_error + 't option" where
  "build_tls_config lib config =
     (case (sc_tls_cert_path config, sc_tls_key_path config) of
        (Some cert_path, Some key_path) \<Rightarrow>
          rbind (map_err (\<lambda>e. Tls (''failed to open cert file: '' @ e)) (tl_open lib cert_path)) (\<lambda>f.
          rbind (map_err (\<lambda>e. Tls (''failed to parse certs: '' @ e)) (rmap (\<lambda>c. c) (tl_certs lib f))) (\<lambda>certs.
          rbind (map_err (\<lambda>e. Tls (''failed to open key file: '' @ e)) (tl_open lib key_path)) (\<lambda>f.
          rbind (collect_keys (tl_items lib f)) (\<lambda>keys.
          rbind (case keys of
                   [] \<Rightarrow> Inl (Tls ''no private key found in key file'')
                 | key # _ \<Rightarrow> Inr key) (\<lambda>key.
          rbind (map_err (\<lambda>e. Tls (''failed to build TLS config: '' @ e)) (tl_single_cert lib certs key))
            (\<lambda>tls_cfg. Inr (Some tls_cfg)))))))
      | _ \<Rightarrow> Inr None)"

section \<open>Start-up\<close>

definition server_config_of :: "config \<Rightarrow> server_config" where
  "server_config_of cfg = \<lparr>sc_listen_addr = cf_listen_addr cfg, sc_tls_cert_path = cf_tls_cert_path cfg,
     sc_tls_key_path = cf_tls_key_path cfg, sc_auth_tokens = cf_auth_tokens cfg,
     sc_max_connections = 1024, sc_max_frame_size = MAX_FRAME_SIZE\<rparr>"

definition join_path :: "string \<Rightarrow> string \<Rightarrow> string" where
  "join_path dir name = (if dir = [] \<or> last dir = CHR ''/'' then dir @ name else dir @ ''/'' @ name)"

text \<open>
  From the arguments to the accept loop: the configuration, the data directory, the database
  (\<open>files\<close> gives the tables found under a path), the engine and the server. The result is
  the server's configuration, whether it speaks TLS, and its first state.
\<close>

definition daemon_start ::
  "host \<Rightarrow> ('f, 'c, 'k, 't) tls_lib \<Rightarrow> fault \<Rightarrow> (string \<Rightarrow> 'b db) \<Rightarrow> args
    \<Rightarrow> daemon_error + server_config \<times> bool \<times> 'b db server" where
  "daemon_start host tls flt files args =
     rbind (resolve_config host args) (\<lambda>(cfg, _).
     case hs_create_dir_all host (cf_data_dir cfg) of
       Some e \<Rightarrow> Inl (CreatingDataDir (cf_data_dir cfg) e)
     | None \<Rightarrow>
         let db_path = join_path (cf_data_dir cfg) ''statemaster.redb'' in
         rbind (map_err (OpeningDatabase db_path) (redb_open flt (files db_path))) (\<lambda>storage.
         let server_config = server_config_of cfg in
         rbind (map_err BuildingServer (build_tls_config tls server_config)) (\<lambda>tls_config.
         if \<not> socket_addr (cf_metrics_addr cfg) then Inl (ParsingMetricsAddr (cf_metrics_addr cfg))
         else if \<not> socket_addr (cf_listen_addr cfg) then Inl (ParsingListenAddr (cf_listen_addr cfg))
         else
           (case hs_bind host (cf_listen_addr cfg) of
              Some e \<Rightarrow> Inl (Binding (cf_listen_addr cfg) e)
            | None \<Rightarrow> Inr (server_config, tls_config \<noteq> None, server_new (engine_new storage))))))"

section \<open>The health endpoint\<close>

definition show_i64 :: "64 word \<Rightarrow> string" where
  "show_i64 w = (if sint w < 0 then CHR ''-'' # show_nat (nat (- sint w)) else show_nat (nat (sint w)))"

definition metrics_lines :: "u64 \<Rightarrow> server_metrics \<Rightarrow> string list" where
  "metrics_lines uptime metrics =
     [''# HELP smdbd_uptime_seconds Daemon uptime in seconds'',
      ''# TYPE smdbd_uptime_seconds gauge'',
      ''smdbd_uptime_seconds '' @ show_nat (unat uptime),
      ''# HELP smdbd_transitions_total Total transitions processed'',
      ''# TYPE smdbd_transitions_total counter'',
      ''smdbd_transitions_total '' @ show_nat (unat (mt_transitions_total metrics)),
      ''# HELP smdbd_connections_total Total accepted connections'',
      ''# TYPE smdbd_connections_total counter'',
      ''smdbd_connections_total '' @ show_nat (unat (mt_connections_total metrics)),
      ''# HELP smdbd_connections_active Currently active connections'',
      ''# TYPE smdbd_connections_active gauge'',
      ''smdbd_connections_active '' @ show_i64 (mt_connections_active metrics)]"

text \<open>Status and body; the double quotes of the JSON bodies are \<open>CHR 0x22\<close>.\<close>

definition json_field :: "string \<Rightarrow> string \<Rightarrow> string" where
  "json_field k v = ''{'' @ CHR 0x22 # k @ CHR 0x22 # '':'' @ CHR 0x22 # v @ CHR 0x22 # ''}''"

definition handle_health :: "u64 \<Rightarrow> server_metrics \<Rightarrow> string \<Rightarrow> nat \<times> string" where
  "handle_health uptime metrics path =
     (if path = ''/healthz'' then (200, json_field ''status'' ''ok'')
      else if path = ''/readyz'' then (200, json_field ''status'' ''ready'')
      else if path = ''/metrics'' then (200, concat (map (\<lambda>l. l @ [CHR 0x0A]) (metrics_lines uptime metrics)))
      else (404, json_field ''error'' ''not found''))"

section \<open>Running and shutting down\<close>

text \<open>
  \<open>run_metrics_server\<close>: it listens when the address could be bound (see \<open>daemon_new\<close>); an event of its
  listener leaves it listening unless the watch says stop. An accepted connection is served by
  \<open>handle_health\<close>.
\<close>

definition run_metrics_server :: "listen_event \<Rightarrow> bool \<Rightarrow> bool" where
  "run_metrics_server event listening =
     (case event of
        WatchChanged stop \<Rightarrow> listening \<and> \<not> stop
      | Accepted \<Rightarrow> listening
      | AcceptError _ \<Rightarrow> listening)"

text \<open>
  A running daemon: its server, the shutdown watch, whether the tasks of the dispatcher and the
  metrics server run, and where \<open>main\<close> stands.
\<close>

datatype main_phase = AwaitSignal | EngineStopped | Joining | Ended

record 's daemon =
  dm_server :: "'s server"
  dm_watch :: bool
  dm_dispatcher :: bool
  dm_metrics :: bool
  dm_main :: main_phase

definition daemon_new :: "host \<Rightarrow> string \<Rightarrow> 's server \<Rightarrow> 's daemon" where
  "daemon_new host metrics_addr server = \<lparr>dm_server = server, dm_watch = False, dm_dispatcher = True,
     dm_metrics = (hs_bind host metrics_addr = None), dm_main = AwaitSignal\<rparr>"

text \<open>
  \<open>main\<close> from the signal on: the engine is shut down, the watch is set, and the task of the accept
  loop is awaited.
\<close>

definition main_step :: "'s daemon \<Rightarrow> 's daemon" where
  "main_step d =
     (case dm_main d of
        AwaitSignal \<Rightarrow>
          d\<lparr>dm_server := (dm_server d)\<lparr>sv_engine := shutdown (sv_engine (dm_server d))\<rparr>,
            dm_main := EngineStopped\<rparr>
      | EngineStopped \<Rightarrow> d\<lparr>dm_watch := True, dm_main := Joining\<rparr>
      | Joining \<Rightarrow> if sv_returned (dm_server d) \<noteq> None then d\<lparr>dm_main := Ended\<rparr> else d
      | Ended \<Rightarrow> d)"

end
