(* ===== verification/Server_Run.thy ===== *)
theory Server_Run
  imports Server Database
begin

text \<open>
  The server as \<open>smdbd\<close> runs it: connections, the dispatcher and the host program interleave
  on one engine. \<open>server_run\<close> is the step relation; \<open>server_run_engine\<close> shows that each of its
  steps is one engine call, so that the invariant of \<open>engine_run\<close> holds of the server.
\<close>

section \<open>Token comparison\<close>

lemma as_bytes_inject [simp]: "as_bytes s = as_bytes t \<longleftrightarrow> s = t"
proof -
  have "inj (\<lambda>c. of_nat (of_char c) :: u8)"
  proof (rule injI)
    fix c d assume "(of_nat (of_char c) :: u8) = of_nat (of_char d)"
    then have "unat (of_nat (of_char c) :: u8) = unat (of_nat (of_char d) :: u8)" by simp
    then show "c = d" by (simp add: unat_of_nat)
  qed
  then show ?thesis by (simp add: as_bytes_def inj_map_eq_map)
qed

lemma ct_eq_fold:
  "length a = length b \<Longrightarrow>
   foldl (\<lambda>diff (x, y). diff OR (x XOR y)) acc (zip a b) = (0 :: u8) \<longleftrightarrow> acc = 0 \<and> a = b"
proof (induction a b arbitrary: acc rule: list_induct2)
  case (Cons x xs y ys)
  have "acc OR (x XOR y) = 0 \<longleftrightarrow> acc = 0 \<and> x = y"
    by (auto simp: or_eq_0_iff xor_self_eq) (metis xor.right_neutral xor_self_eq xor.assoc)
  with Cons.IH show ?case by auto
qed simp

lemma ct_eq_iff: "ct_eq a b \<longleftrightarrow> a = b"
  by (auto simp: ct_eq_def ct_eq_fold)

lemma token_fold: "foldl (\<lambda>matched token. matched \<or> P token) acc valid \<longleftrightarrow> acc \<or> (\<exists>t \<in> set valid. P t)"
  by (induction valid arbitrary: acc) auto

lemma token_is_valid_iff: "token_is_valid valid presented \<longleftrightarrow> presented \<in> set valid"
  by (auto simp: token_is_valid_def token_fold ct_eq_iff)

section \<open>Runs of the server\<close>

text \<open>The entity and machine names of a transition request contain no NUL.\<close>

definition names_ok :: "codecs \<Rightarrow> stream_item \<Rightarrow> bool" where
  "names_ok lib item =
     (case item of
        Item frame \<Rightarrow>
          (case decode_message (from_transition lib) frame of
             Inr msg \<Rightarrow> fr_tag frame = Transition \<longrightarrow> nul_free (tm_entity_id msg) \<and> nul_free (tm_machine msg)
           | Inl _ \<Rightarrow> True)
      | _ \<Rightarrow> True)"

text \<open>A step of a connection: its TLS handshake, an item of its stream, a dropped receiver.\<close>

inductive server_task ::
  "codecs \<Rightarrow> server_config \<Rightarrow> 's storage_engine \<Rightarrow> env \<Rightarrow> 's server \<Rightarrow> 's server \<Rightarrow> bool"
  for lib config ops env s where
  tk_tls: "i < length (sv_conns s) \<Longrightarrow> cn_phase (sv_conns s ! i) = AwaitTls \<Longrightarrow>
    server_task lib config ops env s (tls_accept failure i s)"
| tk_item: "i < length (sv_conns s) \<Longrightarrow> names_ok lib item \<Longrightarrow>
    server_task lib config ops env s (serve_item lib config ops env wr panicked i item s)"
| tk_dropped: "server_task lib config ops env s (s\<lparr>sv_engine := receiver_dropped (sv_engine s) j\<rparr>)"

text \<open>
  \<open>server_run lib config opss envs eng n s\<close>: a server started on \<open>eng\<close> is in state \<open>s\<close> after \<open>n\<close>
  steps of its connections, its accept loop, the dispatcher and the host program.
\<close>

inductive server_run ::
  "codecs \<Rightarrow> server_config \<Rightarrow> (nat \<Rightarrow> 's storage_engine) \<Rightarrow> uuid_supply \<Rightarrow> 's engine \<Rightarrow> nat \<Rightarrow> 's server \<Rightarrow> bool"
  for lib config opss envs eng where
  sv_start: "server_run lib config opss envs eng 0 (server_new eng)"
| sv_task: "server_run lib config opss envs eng n s \<Longrightarrow> server_task lib config (opss n) (envs n) s s' \<Longrightarrow>
    server_run lib config opss envs eng (Suc n) s'"
| sv_listen: "server_run lib config opss envs eng n s \<Longrightarrow>
    server_run lib config opss envs eng (Suc n) (serve_with_shutdown config tls event s)"
| sv_dispatch: "server_run lib config opss envs eng n s \<Longrightarrow>
    dispatch (opss n) (sv_engine s) = Some (k, eng') \<Longrightarrow>
    server_run lib config opss envs eng (Suc n) (s\<lparr>sv_engine := eng'\<rparr>)"
| sv_guard: "server_run lib config opss envs eng n s \<Longrightarrow>
    server_run lib config opss envs eng (Suc n) (s\<lparr>sv_engine := register_guard (sv_engine s) g f\<rparr>)"
| sv_shutdown: "server_run lib config opss envs eng n s \<Longrightarrow>
    server_run lib config opss envs eng (Suc n) (s\<lparr>sv_engine := shutdown (sv_engine s)\<rparr>)"
| sv_restart: "server_run lib config opss envs eng n s \<Longrightarrow>
    server_run lib config opss envs eng (Suc n) (server_new (engine_new (en_storage (sv_engine s))))"

inductive_cases server_task_cases: "server_task lib config ops env s s'"

section \<open>Connections\<close>

text \<open>
  The three things a connection keeps: no session records a subscription, a served session
  is authenticated, and an ended connection writes nothing.
\<close>

definition phase_ok :: "phase \<Rightarrow> bool" where
  "phase_ok p = (case p of Serving session \<Rightarrow> se_authenticated session \<and> se_subscriptions session = [] | _ \<Rightarrow> True)"

lemma phase_ok_simps [simp]:
  "phase_ok AwaitTls" "phase_ok AwaitStartup" "phase_ok (AwaitAuth cs)" "phase_ok (Finished r)"
  "phase_ok (Serving session) \<longleftrightarrow> se_authenticated session \<and> se_subscriptions session = []"
  by (simp_all add: phase_ok_def)

lemma is_finished_simps [simp]:
  "\<not> is_finished AwaitTls" "\<not> is_finished AwaitStartup" "\<not> is_finished (AwaitAuth cs)"
  "is_finished (Finished r)" "\<not> is_finished (Serving session)"
  by (simp_all add: is_finished_def)

lemma on_startup_phase: "phase_ok (fst (on_startup lib wr item))"
  by (auto simp: on_startup_def split: stream_item.splits sum.splits)

lemma on_auth_phase: "phase_ok (fst (on_auth lib config env wr cs item))"
  by (auto simp: on_auth_def accept_session_def session_new_def Let_def
      split: stream_item.splits sum.splits option.splits)

lemma respond_phase:
  "respond wr session fs = (p, out) \<Longrightarrow> se_authenticated session \<Longrightarrow> se_subscriptions session = [] \<Longrightarrow>
   phase_ok p"
  by (auto simp: respond_def split: prod.splits option.splits)

lemma handle_subscribe_session:
  "handle_subscribe lib session eng frame = (r, session', eng', sp) \<Longrightarrow> phase_ok (Serving session) \<Longrightarrow>
   phase_ok (Serving session') \<and> (eng' = eng \<or> (\<exists>sid flt a. eng' = subscribe eng sid flt a))"
  by (auto simp: handle_subscribe_def Let_def split: sum.splits)

text \<open>What one frame does to the engine: one call, or none.\<close>

inductive engine_call :: "'s storage_engine \<Rightarrow> env \<Rightarrow> 's engine \<Rightarrow> 's engine \<Rightarrow> bool" for ops env eng where
  call_none: "engine_call ops env eng eng"
| call_define: "define_machine ops eng d = (r, eng') \<Longrightarrow> engine_call ops env eng eng'"
| call_transition: "nul_free e \<Longrightarrow> nul_free m \<Longrightarrow>
    transition ops env eng e m ev actor ctx expected key = (res, eng') \<Longrightarrow> engine_call ops env eng eng'"
| call_subscribe: "engine_call ops env eng (subscribe eng sid flt a)"
| call_unsubscribe: "engine_call ops env eng (unsubscribe eng sid)"

lemma handle_frame_call:
  assumes "handle_frame lib ops env eng metrics frame = (fs, eng', metrics')" and "names_ok lib (Item frame)"
  shows "engine_call ops env eng eng'"
  using assms
  by (auto simp: handle_frame_def handle_define_machine_def handle_transition_def names_ok_def
      split: frame_tag.splits sum.splits prod.splits intro: engine_call.intros)

lemma on_request_call:
  assumes "on_request lib ops env wr panicked session eng metrics item = (p, out, eng', metrics', sp)"
    and "phase_ok (Serving session)" and "names_ok lib item"
  shows "phase_ok p \<and> engine_call ops env eng eng'"
proof (cases item)
  case (Item frame)
  consider "fr_tag frame = Terminate" | "fr_tag frame = Subscribe" | "fr_tag frame = Unsubscribe"
    | "fr_tag frame \<notin> {Terminate, Subscribe, Unsubscribe}" by auto
  then show ?thesis
  proof cases
    case 1
    with assms Item show ?thesis by (auto simp: on_request_def clean_up_def intro: call_none)
  next
    case 2
    obtain r session' eng1 sp1 where h: "handle_subscribe lib session eng frame = (r, session', eng1, sp1)"
      by (metis prod_cases4)
    from handle_subscribe_session [OF h assms(2)] assms(1) Item 2 h show ?thesis
      by (auto simp: on_request_def split: sum.splits prod.splits
          dest: respond_phase intro: call_none call_subscribe)
  next
    case 3
    with assms Item show ?thesis
      by (auto simp: on_request_def split: sum.splits intro: call_none call_unsubscribe)
  next
    case 4
    show ?thesis
    proof (cases panicked)
      case True
      with assms Item 4 show ?thesis
        by (auto simp: on_request_def split: prod.splits dest: respond_phase intro: call_none)
    next
      case False
      obtain fs eng1 m1 where "handle_frame lib ops env eng metrics frame = (fs, eng1, m1)"
        by (metis prod_cases3)
      with False assms Item 4 handle_frame_call [OF this] show ?thesis
        by (auto simp: on_request_def split: prod.splits dest: respond_phase)
    qed
  qed
qed (use assms in \<open>auto simp: on_request_def clean_up_def intro: call_none\<close>)

lemma connection_step_call:
  assumes "connection_step lib config ops env wr panicked item (c, eng, metrics) = (c', eng', metrics')"
    and "phase_ok (cn_phase c)" and "names_ok lib item"
  shows "phase_ok (cn_phase c') \<and> engine_call ops env eng eng'"
proof (cases "cn_phase c")
  case (Serving session)
  obtain p out eng1 m1 sp where "on_request lib ops env wr panicked session eng metrics item = (p, out, eng1, m1, sp)"
    by (metis prod_cases5)
  with on_request_call [OF this] assms Serving show ?thesis
    by (auto simp: connection_step_def)
next
  case AwaitStartup
  with assms on_startup_phase [of lib wr item] show ?thesis
    by (auto simp: connection_step_def split: prod.splits intro: call_none)
next
  case (AwaitAuth cs)
  with assms on_auth_phase [of lib config env wr cs item] show ?thesis
    by (auto simp: connection_step_def split: prod.splits intro: call_none)
qed (use assms in \<open>auto simp: connection_step_def intro: call_none\<close>)

lemma engine_call_run:
  assumes "engine_run opss envs eng n e1" and "engine_call (opss n) (envs n) e1 e2"
  shows "engine_run opss envs eng (Suc n) e2"
  using assms(2)
  by cases (use assms(1) in \<open>auto intro: engine_run_intros\<close>)

section \<open>The server is a client of the engine\<close>

lemma list_all_update: "list_all P xs \<Longrightarrow> P x \<Longrightarrow> list_all P (xs[i := x])"
  by (auto simp: list_all_iff dest: subsetD [OF set_update_subset_insert])

lemma serve_with_shutdown_cases:
  "serve_with_shutdown config tls event s = s \<or>
   serve_with_shutdown config tls event s = accept_connection config tls s \<and> sv_returned s = None \<or>
   (\<exists>r. serve_with_shutdown config tls event s = s\<lparr>sv_returned := Some r\<rparr> \<and> sv_returned s = None)"
  by (cases event) (auto simp: serve_with_shutdown_def)

lemma serve_with_shutdown_engine [simp]: "sv_engine (serve_with_shutdown config tls event s) = sv_engine s"
  by (simp add: serve_with_shutdown_def accept_connection_def split: listen_event.split)

lemma server_task_call:
  assumes "server_task lib config ops env s s'" and "list_all (\<lambda>c. phase_ok (cn_phase c)) (sv_conns s)"
  shows "list_all (\<lambda>c. phase_ok (cn_phase c)) (sv_conns s') \<and>
    (engine_call ops env (sv_engine s) (sv_engine s') \<or> (\<exists>j. sv_engine s' = receiver_dropped (sv_engine s) j)) \<and>
    length (sv_conns s') = length (sv_conns s) \<and> sv_returned s' = sv_returned s"
  using assms(1)
proof cases
  case (tk_tls i failure)
  with assms(2) show ?thesis
    by (auto simp: tls_accept_def Let_def intro!: list_all_update call_none split: option.splits)
next
  case (tk_item i item wr panicked)
  obtain c eng' m where step: "connection_step lib config ops env wr panicked item
      (sv_conns s ! i, sv_engine s, sv_metrics s) = (c, eng', m)"
    by (metis prod_cases3)
  have "phase_ok (cn_phase (sv_conns s ! i))" using assms(2) tk_item by (simp add: list_all_length)
  with connection_step_call [OF step] tk_item assms(2) step show ?thesis
    by (auto simp: serve_item_def intro: list_all_update)
qed (use assms(2) in auto)

lemma server_run_engine:
  assumes "server_run lib config opss envs eng n s"
  shows "engine_run opss envs eng n (sv_engine s) \<and> list_all (\<lambda>c. phase_ok (cn_phase c)) (sv_conns s)"
  using assms
proof (induction rule: server_run.induct)
  case sv_start
  show ?case by (simp add: server_new_def run_start)
next
  case (sv_task n s s')
  with server_task_call [OF sv_task.hyps(2)] engine_call_run [of opss envs eng n "sv_engine s" "sv_engine s'"]
  show ?case by (auto intro: run_dropped)
next
  case (sv_listen n s tls event)
  with serve_with_shutdown_cases [of config tls event s] show ?case
    by (auto simp: accept_connection_def intro: run_read)
next
  case (sv_restart n s)
  then show ?case by (simp add: server_new_def run_restart)
qed (auto intro: engine_run_intros)

text \<open>The steps the examples take.\<close>

lemmas sv_tls = sv_task [OF _ tk_tls]
lemmas sv_item = sv_task [OF _ tk_item]

lemma sv_accept:
  assumes "server_run lib config opss envs eng n s" and "sv_returned s = None"
  shows "server_run lib config opss envs eng (Suc n) (accept_connection config tls s)"
  using sv_listen [OF assms(1), of tls Accepted] assms(2) by (simp add: serve_with_shutdown_def)

end
