(* ===== verification/Daemon_Run.thy ===== *)
theory Daemon_Run
  imports Daemon Server_Run
begin

text \<open>
  The tasks of a running \<open>smdbd\<close> (\<open>crates/smdbd/src/main.rs\<close>) side by side: connections, accept loop,
  dispatcher, metrics server and \<open>main\<close>. A daemon is a server in the sense of \<open>server_run\<close>; after
  the signal no transition is logged, and nothing can keep \<open>main\<close> from ending.
\<close>

section \<open>Runs of the daemon\<close>

text \<open>
  \<open>daemon_run lib config tls opss envs m d0 n d\<close>: the steps number \<open>m\<close> to \<open>n\<close> lead from \<open>d0\<close> to \<open>d\<close>. The
  accept loop and the other tasks see the watch change once it is set. When \<open>main\<close> ends, the
  runtime goes, and with it every task.
\<close>

inductive daemon_run ::
  "codecs \<Rightarrow> server_config \<Rightarrow> bool \<Rightarrow> (nat \<Rightarrow> 's storage_engine) \<Rightarrow> uuid_supply \<Rightarrow> nat \<Rightarrow> 's daemon
    \<Rightarrow> nat \<Rightarrow> 's daemon \<Rightarrow> bool"
  for lib config tls opss envs m d0 where
  dn_start: "daemon_run lib config tls opss envs m d0 m d0"
| dn_task: "daemon_run lib config tls opss envs m d0 n d \<Longrightarrow> dm_main d \<noteq> Ended \<Longrightarrow>
    server_task lib config (opss n) (envs n) (dm_server d) s' \<Longrightarrow>
    daemon_run lib config tls opss envs m d0 (Suc n) (d\<lparr>dm_server := s'\<rparr>)"
| dn_listen: "daemon_run lib config tls opss envs m d0 n d \<Longrightarrow> dm_main d \<noteq> Ended \<Longrightarrow>
    event = WatchChanged True \<longrightarrow> dm_watch d \<Longrightarrow>
    daemon_run lib config tls opss envs m d0 (Suc n)
      (d\<lparr>dm_server := serve_with_shutdown config tls event (dm_server d)\<rparr>)"
| dn_dispatch: "daemon_run lib config tls opss envs m d0 n d \<Longrightarrow> dm_main d \<noteq> Ended \<Longrightarrow> dm_dispatcher d \<Longrightarrow>
    stop \<longrightarrow> dm_watch d \<Longrightarrow> dispatch (opss n) (sv_engine (dm_server d)) = Some (k, eng') \<Longrightarrow>
    daemon_run lib config tls opss envs m d0 (Suc n)
      (d\<lparr>dm_server := (dm_server d)\<lparr>sv_engine := eng'\<rparr>, dm_dispatcher := \<not> stop\<rparr>)"
| dn_metrics: "daemon_run lib config tls opss envs m d0 n d \<Longrightarrow> dm_main d \<noteq> Ended \<Longrightarrow>
    event = WatchChanged True \<longrightarrow> dm_watch d \<Longrightarrow>
    daemon_run lib config tls opss envs m d0 (Suc n) (d\<lparr>dm_metrics := run_metrics_server event (dm_metrics d)\<rparr>)"
| dn_main: "daemon_run lib config tls opss envs m d0 n d \<Longrightarrow> dm_main d \<noteq> Ended \<Longrightarrow>
    daemon_run lib config tls opss envs m d0 (Suc n) (main_step d)"

lemma sv_idle: "server_run lib config opss envs eng n s \<Longrightarrow> server_run lib config opss envs eng (Suc n) s"
  using sv_listen [of lib config opss envs eng n s False "WatchChanged False"]
  by (simp add: serve_with_shutdown_def split: if_splits)

text \<open>The server of a daemon runs as \<open>server_run\<close> describes.\<close>

lemma daemon_run_server:
  assumes "daemon_run lib config tls opss envs 0 d0 n d" and "dm_server d0 = server_new eng"
  shows "server_run lib config opss envs eng n (dm_server d)"
  using assms(1)
proof (induction rule: daemon_run.induct)
  case dn_start
  show ?case using assms(2) by (simp add: sv_start)
next
  case (dn_task n d s')
  then show ?case by (auto intro: sv_task)
next
  case (dn_listen n d event)
  then show ?case by (auto intro: sv_listen)
next
  case (dn_dispatch n d stop k eng')
  then show ?case by (auto intro: sv_dispatch)
next
  case (dn_metrics n d event)
  then show ?case by (auto intro: sv_idle)
next
  case (dn_main n d)
  then show ?case by (cases "dm_main d") (auto simp: main_step_def intro: sv_idle sv_shutdown)
qed

section \<open>After the signal\<close>

text \<open>A call of the engine after its shutdown: only a definition changes what is stored.\<close>

definition stopped_at :: "'b codec \<Rightarrow> store \<Rightarrow> 'b db engine \<Rightarrow> bool" where
  "stopped_at cd st eng \<longleftrightarrow> en_shutdown eng \<and>
     (\<exists>st'. represents cd (en_storage eng) st' \<and> consistent st' \<and> st_log st' = st_log st)"

lemma transition_stopped:
  "en_shutdown eng \<Longrightarrow> transition ops env eng e m ev actor ctx expected key = (Inl ShuttingDown, eng)"
  by (simp add: transition_def)

lemma define_machine_stopped:
  assumes "stopped_at cd st eng" and "define_machine (redb_storage cd flt) eng d = (r, eng')"
  shows "stopped_at cd st eng'"
proof -
  obtain st' where st': "represents cd (en_storage eng) st'" "consistent st'" "st_log st' = st_log st"
    using assms(1) by (auto simp: stopped_at_def)
  have "en_shutdown eng' = en_shutdown eng"
    using assms(2) by (auto simp: define_machine_def split: sum.splits prod.splits)
  moreover obtain st2 where "represents cd (en_storage eng') st2" "consistent st2" "st_log st2 = st_log st'"
    using redb_safe.define_machine_step [OF st'(1,2) assms(2)] by blast
  ultimately show ?thesis using assms(1) st'(3) by (auto simp: stopped_at_def)
qed

lemma dispatch_shutdown: "dispatch ops eng = Some (k, eng') \<Longrightarrow> en_shutdown eng' = en_shutdown eng"
  by (cases "op_get_pending_effects ops (en_storage eng) 256")
    (auto simp: dispatch_def dispatch_pass_def bind_eq_Some_conv split: prod.splits)

lemma dispatch_stopped:
  assumes "stopped_at cd st eng" and "dispatch (redb_storage cd flt) eng = Some (k, eng')"
  shows "stopped_at cd st eng'"
proof -
  obtain st' where st': "represents cd (en_storage eng) st'" "consistent st'" "st_log st' = st_log st"
    using assms(1) by (auto simp: stopped_at_def)
  have "en_shutdown eng' = en_shutdown eng" using dispatch_shutdown [OF assms(2)] .
  moreover obtain st2 where "represents cd (en_storage eng') st2" "consistent st2" "st_log st2 = st_log st'"
    using redb_safe.dispatch_step [OF st'(1,2) assms(2)] by blast
  ultimately show ?thesis using assms(1) st'(3) by (auto simp: stopped_at_def)
qed

lemma engine_call_stopped:
  assumes "engine_call (redb_storage cd flt) env eng eng'" and "stopped_at cd st eng"
  shows "stopped_at cd st eng'"
  using assms(1)
proof cases
  case (call_define d r)
  with assms(2) show ?thesis by (simp add: define_machine_stopped)
next
  case (call_transition e m ev actor ctx expected key res)
  moreover have "en_shutdown eng" using assms(2) by (simp add: stopped_at_def)
  ultimately show ?thesis using assms(2) by (simp add: transition_stopped)
qed (use assms(2) in \<open>simp_all add: stopped_at_def subscribe_def unsubscribe_def\<close>)

lemma server_task_stopped:
  assumes "server_task lib config (redb_storage cd flt) env s s'"
    and "list_all (\<lambda>c. phase_ok (cn_phase c)) (sv_conns s)" and "stopped_at cd st (sv_engine s)"
  shows "stopped_at cd st (sv_engine s')"
proof -
  consider "engine_call (redb_storage cd flt) env (sv_engine s) (sv_engine s')"
    | j where "sv_engine s' = receiver_dropped (sv_engine s) j"
    using server_task_call [OF assms(1,2)] by blast
  then show ?thesis
  proof cases
    case 1
    from engine_call_stopped [OF this assms(3)] show ?thesis .
  next
    case 2
    with assms(3) show ?thesis by (simp add: stopped_at_def receiver_dropped_def)
  qed
qed

lemma serve_with_shutdown_phases:
  "list_all (\<lambda>c. phase_ok (cn_phase c)) (sv_conns s) \<Longrightarrow>
   list_all (\<lambda>c. phase_ok (cn_phase c)) (sv_conns (serve_with_shutdown config tls event s))"
  using serve_with_shutdown_cases [of config tls event s] by (auto simp: accept_connection_def)

lemma daemon_run_stopped:
  assumes "daemon_run lib config tls (\<lambda>j. redb_storage cd (flts j)) envs m d0 n d"
    and "list_all (\<lambda>c. phase_ok (cn_phase c)) (sv_conns (dm_server d0))"
    and "stopped_at cd st (sv_engine (dm_server d0))"
  shows "stopped_at cd st (sv_engine (dm_server d)) \<and>
    list_all (\<lambda>c. phase_ok (cn_phase c)) (sv_conns (dm_server d))"
  using assms(1)
proof (induction rule: daemon_run.induct)
  case dn_start
  show ?case using assms(2,3) by simp
next
  case (dn_task n d s')
  with server_task_call [OF dn_task.hyps(3)] server_task_stopped [OF dn_task.hyps(3)] show ?case by simp
next
  case (dn_listen n d event)
  then show ?case by (simp add: serve_with_shutdown_phases)
next
  case (dn_dispatch n d stop k eng')
  with dispatch_stopped [OF _ dn_dispatch.hyps(5)] show ?case by simp
next
  case (dn_main n d)
  then show ?case by (cases "dm_main d") (auto simp: main_step_def stopped_at_def shutdown_def)
qed simp

text \<open>An accept loop that has returned, for whatever reason, accepts no connection any more.\<close>

lemma daemon_run_no_accept:
  assumes "daemon_run lib config tls opss envs m d0 n d"
    and "list_all (\<lambda>c. phase_ok (cn_phase c)) (sv_conns (dm_server d0))"
    and "sv_returned (dm_server d0) = Some r"
  shows "sv_returned (dm_server d) = Some r \<and> length (sv_conns (dm_server d)) = length (sv_conns (dm_server d0)) \<and>
    list_all (\<lambda>c. phase_ok (cn_phase c)) (sv_conns (dm_server d))"
  using assms(1)
proof (induction rule: daemon_run.induct)
  case dn_start
  show ?case using assms(2,3) by simp
next
  case (dn_task n d s')
  with server_task_call [OF dn_task.hyps(3)] show ?case by simp
next
  case (dn_listen n d event)
  then show ?case by (simp add: serve_with_shutdown_def)
next
  case (dn_main n d)
  then show ?case by (cases "dm_main d") (auto simp: main_step_def)
qed simp_all

text \<open>Where \<open>main\<close> stands tells what has happened.\<close>

definition main_ok :: "'s daemon \<Rightarrow> bool" where
  "main_ok d \<longleftrightarrow>
     (dm_main d \<noteq> AwaitSignal \<longrightarrow> en_shutdown (sv_engine (dm_server d))) \<and>
     (dm_watch d \<longleftrightarrow> dm_main d \<in> {Joining, Ended}) \<and>
     (sv_returned (dm_server d) = Some (Inr ()) \<longrightarrow> dm_watch d) \<and>
     (dm_main d = Ended \<longrightarrow> sv_returned (dm_server d) \<noteq> None)"

lemma main_ok_start: "main_ok (daemon_new host addr (server_new eng))"
  by (simp add: main_ok_def daemon_new_def server_new_def)

lemma engine_call_shutdown:
  "engine_call ops env eng eng' \<Longrightarrow> en_shutdown eng \<Longrightarrow> en_shutdown eng'"
  by (erule engine_call.cases)
    (auto simp: define_machine_def transition_stopped subscribe_def unsubscribe_def split: sum.splits prod.splits)

lemma server_task_shutdown:
  assumes "server_task lib config ops env s s'" and "list_all (\<lambda>c. phase_ok (cn_phase c)) (sv_conns s)"
    and "en_shutdown (sv_engine s)"
  shows "en_shutdown (sv_engine s')"
proof -
  consider "engine_call ops env (sv_engine s) (sv_engine s')" | j where "sv_engine s' = receiver_dropped (sv_engine s) j"
    using server_task_call [OF assms(1,2)] by blast
  then show ?thesis by cases (use assms(3) in \<open>auto simp: receiver_dropped_def dest: engine_call_shutdown\<close>)
qed

lemma daemon_run_main:
  assumes "daemon_run lib config tls opss envs m d0 n d"
    and "list_all (\<lambda>c. phase_ok (cn_phase c)) (sv_conns (dm_server d0))" and "main_ok d0"
  shows "main_ok d \<and> list_all (\<lambda>c. phase_ok (cn_phase c)) (sv_conns (dm_server d))"
  using assms(1)
proof (induction rule: daemon_run.induct)
  case dn_start
  show ?case using assms(2,3) by simp
next
  case (dn_task n d s')
  with server_task_call [OF dn_task.hyps(3)] server_task_shutdown [OF dn_task.hyps(3)] show ?case
    by (auto simp: main_ok_def)
next
  case (dn_listen n d event)
  then have "main_ok (d\<lparr>dm_server := serve_with_shutdown config tls event (dm_server d)\<rparr>)"
    by (cases event) (auto simp: main_ok_def serve_with_shutdown_def accept_connection_def)
  with dn_listen show ?case by (simp add: serve_with_shutdown_phases)
next
  case (dn_dispatch n d stop k eng')
  with dispatch_shutdown [OF dn_dispatch.hyps(5)] show ?case by (auto simp: main_ok_def)
next
  case (dn_main n d)
  then show ?case by (cases "dm_main d") (auto simp: main_ok_def main_step_def shutdown_def)
qed (auto simp: main_ok_def)

lemma daemon_run_signalled:
  assumes "daemon_run lib config tls opss envs m d0 n d" and "dm_main d0 \<noteq> AwaitSignal"
  shows "dm_main d \<noteq> AwaitSignal"
  using assms(1)
proof (induction rule: daemon_run.induct)
  case (dn_main n d)
  then show ?case by (cases "dm_main d") (auto simp: main_step_def)
qed (use assms(2) in simp_all)

text \<open>Nothing keeps \<open>main\<close> from ending: not its connections, and not the result of the accept loop.\<close>

lemma joining_can_end:
  assumes "dm_main d = Joining" and "dm_watch d"
  shows "\<exists>d'. daemon_run lib config tls opss envs n d (Suc (Suc n)) d' \<and> dm_main d' = Ended"
proof -
  let ?d = "d\<lparr>dm_server := serve_with_shutdown config tls (WatchChanged True) (dm_server d)\<rparr>"
  have "daemon_run lib config tls opss envs n d (Suc n) ?d"
    by (rule dn_listen [OF dn_start]) (simp_all add: assms)
  then have "daemon_run lib config tls opss envs n d (Suc (Suc n)) (main_step ?d)"
    by (rule dn_main) (simp add: assms)
  moreover have "dm_main (main_step ?d) = Ended"
    using assms by (auto simp: main_step_def serve_with_shutdown_def)
  ultimately show ?thesis by blast
qed

lemma daemon_run_trans:
  assumes "daemon_run lib config tls opss envs m d0 n d"
    and "daemon_run lib config tls opss envs n d k d'"
  shows "daemon_run lib config tls opss envs m d0 k d'"
  using assms(2)
proof (induction rule: daemon_run.induct)
  case dn_start
  show ?case using assms(1) .
qed (auto intro: daemon_run.intros)

lemma stopped_can_end:
  assumes "main_ok d" and "dm_main d \<noteq> AwaitSignal"
  shows "\<exists>k d'. k \<le> 3 \<and> daemon_run lib config tls opss envs n d (n + k) d' \<and> dm_main d' = Ended"
proof (cases "dm_main d")
  case EngineStopped
  let ?d = "main_step d"
  have step: "daemon_run lib config tls opss envs n d (Suc n) ?d"
    by (rule dn_main [OF dn_start]) (simp add: EngineStopped)
  have "dm_main ?d = Joining" "dm_watch ?d" using EngineStopped by (simp_all add: main_step_def)
  from joining_can_end [OF this, of lib config tls opss envs "Suc n"]
  obtain d' where "daemon_run lib config tls opss envs (Suc n) ?d (Suc (Suc (Suc n))) d'" "dm_main d' = Ended"
    by blast
  with daemon_run_trans [OF step] show ?thesis
    by (intro exI [of _ 3] exI [of _ d']) (simp add: eval_nat_numeral)
next
  case Joining
  then have "dm_watch d" using assms(1) by (simp add: main_ok_def)
  from joining_can_end [OF Joining this, of lib config tls opss envs n]
  obtain d' where "daemon_run lib config tls opss envs n d (Suc (Suc n)) d'" "dm_main d' = Ended" by blast
  then show ?thesis by (intro exI [of _ 2] exI [of _ d']) simp
next
  case Ended
  then show ?thesis using dn_start [of lib config tls opss envs n d] by (intro exI [of _ 0] exI [of _ d]) simp
qed (use assms(2) in simp)

end
