(* ===== verification/Ctl.thy ===== *)
theory Ctl
  imports Daemon Storage_Refine
begin

text \<open>
  The administration tool (\<open>crates/smdbctl/src/main.rs\<close>): opening the database and the
  subcommands, one per run. The result is either an error, with the context the code
  attaches, or the lines printed. The parsing of the arguments is not part of it.
\<close>

datatype command =
  Status
| Machines
| MachineCmd machine_name
| CurrentCmd entity_id machine_name
| HistoryCmd entity_id machine_name "u32 option"
| DefineCmd string
| TransitionCmd entity_id machine_name event_name "actor_id option" "string option" "u64 option"

datatype ctl_error =
  CtlUnreachable
| CtlCreatingDataDir string string
| CtlOpening string storage_error
| CtlListing engine_error
| CtlMachine machine_name engine_error
| CtlCurrent entity_id machine_name engine_error
| CtlHistory entity_id machine_name engine_error
| CtlReading string string
| CtlParsing string string
| CtlDefining machine_name engine_error
| CtlContext string string
| CtlFiring event_name entity_id machine_name engine_error

definition fmt_datetime :: "shell_lib \<Rightarrow> datetime \<Rightarrow> string" where
  "fmt_datetime lib dt = sl_strftime lib ''%Y-%m-%d %H:%M:%S UTC'' dt"

definition separator :: string where
  "separator = replicate 60 (CHR ''-'')"

definition ctl_print_machine :: "shell_lib \<Rightarrow> machine_definition \<Rightarrow> string list" where
  "ctl_print_machine lib m =
     [''Machine:      '' @ md_name m,
      ''Version:      '' @ show_nat (unat (md_version m)),
      ''Created:      '' @ fmt_datetime lib (md_created_at m),
      ''Initial:      '' @ md_initial_state m,
      ''States ('' @ show_nat (length (md_states m)) @ ''):''] @
     map (\<lambda>s. ''  '' @ (if s = md_initial_state m then '' *'' else ''  '') @ s) (md_states m) @
     [''Transitions ('' @ show_nat (length (md_transitions m)) @ ''):''] @
     map (\<lambda>t. ''  '' @ pad_right 20 (rl_event t) @ '' '' @
            pad_right 30 (''['' @ join_comma (rl_from_states t) @ '']'') @ '' -> '' @ rl_to_state t @
            (if rl_guards t = [] then [] else ''  [guards: '' @ join_comma (rl_guards t) @ '']''))
       (md_transitions m) @
     (if md_effects m = [] then []
      else (''Effects ('' @ show_nat (length (md_effects m)) @ ''):'') #
        map (\<lambda>e. ''  on '' @ quoted (er_on_event e) @ '' -> emit '' @ quoted (er_effect e)) (md_effects m))"

definition ctl_machines :: "machine_definition list \<Rightarrow> string list" where
  "ctl_machines machines =
     (if machines = [] then [''No machines defined.'']
      else
        [pad_right 30 ''Name'' @ '' '' @ pad_left 7 ''Version'' @ ''  Initial State'', separator] @
        map (\<lambda>m. pad_right 30 (md_name m) @ '' '' @ pad_left 7 (show_nat (unat (md_version m))) @
               ''  '' @ md_initial_state m) machines @
        [CHR 0x0A # show_nat (length machines) @ '' machine(s) total.''])"

definition ctl_current :: "shell_lib \<Rightarrow> entity_state \<Rightarrow> string list" where
  "ctl_current lib state =
     [''Entity:    '' @ es_entity_id state,
      ''Machine:   '' @ es_machine state,
      ''State:     '' @ es_current_state state,
      ''Version:   '' @ show_nat (unat (es_version state)),
      ''Updated:   '' @ fmt_datetime lib (es_updated_at state),
      ''Created:   '' @ fmt_datetime lib (es_created_at state)]"

definition ctl_history ::
  "shell_lib \<Rightarrow> entity_id \<Rightarrow> machine_name \<Rightarrow> transition_record list \<Rightarrow> string list" where
  "ctl_history lib entity_id machine records =
     (if records = [] then [''No history found for '' @ quoted entity_id @ '' in '' @ quoted machine @ ''.'']
      else
        [pad_left 8 ''Seq'' @ ''  '' @ pad_right 22 ''Timestamp'' @ ''  '' @ pad_right 20 ''Event'' @ ''  '' @
           pad_right 20 ''From'' @ ''  '' @ pad_right 20 ''To'' @ ''  Actor'', separator] @
        map (\<lambda>r. pad_left 8 (show_nat (unat (tr_sequence r))) @ ''  '' @
               pad_right 22 (sl_strftime lib ''%Y-%m-%d %H:%M:%S'' (tr_timestamp r)) @ ''  '' @
               pad_right 20 (tr_event r) @ ''  '' @ pad_right 20 (tr_from_state r) @ ''  '' @
               pad_right 20 (tr_to_state r) @ ''  '' @ tr_actor r) records @
        [CHR 0x0A # show_nat (length records) @ '' record(s).''])"

definition ctl_define ::
  "shell_lib \<Rightarrow> 's storage_engine \<Rightarrow> 's engine \<Rightarrow> string \<Rightarrow> (ctl_error + string list) \<times> 's engine" where
  "ctl_define lib ops eng file =
     (case sl_read_file lib file of
        Inl e \<Rightarrow> (Inl (CtlReading file e), eng)
      | Inr content \<Rightarrow>
          (case sl_definition lib content of
             Inl e \<Rightarrow> (Inl (CtlParsing file e), eng)
           | Inr d \<Rightarrow>
               (case define_machine ops eng d of
                  (Inl e, eng') \<Rightarrow> (Inl (CtlDefining (md_name d) e), eng')
                | (Inr _, eng') \<Rightarrow> (Inr [''Machine '' @ quoted (md_name d) @ '' defined successfully.''], eng'))))"

definition ctl_transition ::
  "shell_lib \<Rightarrow> 's storage_engine \<Rightarrow> env \<Rightarrow> 's engine \<Rightarrow> entity_id \<Rightarrow> machine_name \<Rightarrow> event_name
    \<Rightarrow> actor_id option \<Rightarrow> string option \<Rightarrow> u64 option \<Rightarrow> (ctl_error + string list) \<times> 's engine" where
  "ctl_transition lib ops env eng entity_id machine event actor ctx expected_version =
     (case (case ctx of
              Some s \<Rightarrow> map_err (CtlContext s) (sl_value lib s)
            | None \<Rightarrow> Inr (JObject [])) of
        Inl e \<Rightarrow> (Inl e, eng)
      | Inr ctx_value \<Rightarrow>
          let actor_str = (case actor of Some a \<Rightarrow> a | None \<Rightarrow> ''smdbctl'') in
          (case transition ops env eng entity_id machine event actor_str ctx_value expected_version None of
             (Inl e, eng') \<Rightarrow> (Inl (CtlFiring event entity_id machine e), eng')
           | (Inr result, eng') \<Rightarrow>
               (Inr [''Transition applied successfully.'',
                     ''  Entity:    '' @ rs_entity_id result,
                     ''  Machine:   '' @ rs_machine result,
                     ''  From:      '' @ rs_from_state result,
                     ''  To:        '' @ rs_to_state result,
                     ''  Version:   '' @ show_nat (unat (rs_version result)),
                     ''  Seq:       '' @ show_nat (unat (rs_sequence result)),
                     ''  Txn ID:    '' @ rs_transition_id result,
                     ''  Timestamp: '' @ fmt_datetime lib (rs_timestamp result)], eng')))"

definition ctl ::
  "shell_lib \<Rightarrow> 's storage_engine \<Rightarrow> env \<Rightarrow> 's engine \<Rightarrow> command \<Rightarrow> (ctl_error + string list) \<times> 's engine" where
  "ctl lib ops env eng command =
     (case command of
        Status \<Rightarrow> (Inl CtlUnreachable, eng)
      | Machines \<Rightarrow> (rbind (map_err CtlListing (engine_list_machines ops eng)) (\<lambda>ms. Inr (ctl_machines ms)), eng)
      | MachineCmd name \<Rightarrow>
          (rbind (map_err (CtlMachine name) (engine_get_machine ops eng name)) (\<lambda>m.
             Inr (separator # ctl_print_machine lib m @ [separator])), eng)
      | CurrentCmd entity_id machine \<Rightarrow>
          (rbind (map_err (CtlCurrent entity_id machine) (current ops eng entity_id machine)) (\<lambda>state.
             Inr (ctl_current lib state)), eng)
      | HistoryCmd entity_id machine limit \<Rightarrow>
          (rbind (map_err (CtlHistory entity_id machine) (history ops eng entity_id machine limit None)) (\<lambda>rs.
             Inr (ctl_history lib entity_id machine rs)), eng)
      | DefineCmd file \<Rightarrow> ctl_define lib ops eng file
      | TransitionCmd entity_id machine event actor ctx expected_version \<Rightarrow>
          ctl_transition lib ops env eng entity_id machine event actor ctx expected_version)"

text \<open>
  The whole run: \<open>Status\<close> is answered without opening the database; for the others the data
  directory is created, the tables are opened (\<open>files\<close> gives what is found under a path), and
  the subcommand runs on a new engine. The second component is what is stored afterwards.
  \<open>canonicalize\<close> and \<open>path_exists\<close> are those of the file system.
\<close>

record ctl_args =
  ca_addr :: string
  ca_token :: "string option"
  ca_data_dir :: string
  ca_command :: command

definition ctl_main ::
  "shell_lib \<Rightarrow> host \<Rightarrow> (string \<Rightarrow> string option) \<Rightarrow> (string \<Rightarrow> bool) \<Rightarrow> 'b codec \<Rightarrow> fault \<Rightarrow> fault
    \<Rightarrow> (string \<Rightarrow> 'b db) \<Rightarrow> env \<Rightarrow> ctl_args \<Rightarrow> (ctl_error + string list) \<times> 'b db" where
  "ctl_main lib host canonicalize path_exists cd open_flt flt files env args =
     (let data_dir = ca_data_dir args;
          db_path = join_path data_dir ''statemaster.redb''
      in
      if ca_command args = Status then
        (Inr [''addr:     '' @ ca_addr args @ '' (local mode)'',
              ''data_dir: '' @ unwrap_or data_dir (canonicalize data_dir),
              ''db_file:  '' @ db_path,
              ''db_exists: '' @ (if path_exists db_path then ''yes'' else ''no'')], files db_path)
      else
        (case hs_create_dir_all host data_dir of
           Some e \<Rightarrow> (Inl (CtlCreatingDataDir data_dir e), files db_path)
         | None \<Rightarrow>
             (case redb_open open_flt (files db_path) of
                Inl e \<Rightarrow> (Inl (CtlOpening db_path e), files db_path)
              | Inr storage \<Rightarrow>
                  (case ctl lib (redb_storage cd flt) env (engine_new storage) (ca_command args) of
                     (r, eng) \<Rightarrow> (r, en_storage eng)))))"

end
