(* ===== verification/Shell_Main.thy ===== *)
theory Shell_Main
  imports Shell Daemon
begin

text \<open>
  The binary \<open>smash\<close> (\<open>crates/smash/src/main.rs\<close>, \<open>main\<close>) after its arguments are parsed: the data
  directory, the database, one command or the loop, and the exit status.
\<close>

record shell_args =
  sa_addr :: string
  sa_token :: "string option"
  sa_data_dir :: string
  sa_command :: "string option"

text \<open>How a run fails: an error with its context, or exit status 1 after a message.\<close>

datatype shell_failure =
  ShellCreatingDataDir string string
| ShellOpening string storage_error
| InitializingReadline string
| ExitOne string

text \<open>The one command of \<open>-c\<close>.\<close>

definition one_shot ::
  "shell_lib \<Rightarrow> 's storage_engine \<Rightarrow> env \<Rightarrow> string \<Rightarrow> 's engine \<Rightarrow> (shell_failure + string list) \<times> 's engine" where
  "one_shot lib ops env line eng =
     (case parse_command lib line of
        Inl msg \<Rightarrow> (Inl (ExitOne (''Parse error: '' @ msg)), eng)
      | Inr cmd \<Rightarrow>
          (case execute lib ops env eng cmd of
             (Inr _, out, eng') \<Rightarrow> (Inr out, eng')
           | (Inl e, out, eng') \<Rightarrow> (Inl (ExitOne (''Error: '' @ sl_alternate lib e)), eng')))"

text \<open>
  \<open>files\<close> gives the tables found under a path, \<open>ops\<close> and \<open>env\<close> are those of the single command, and
  \<open>inputs\<close> what the user types. The second component is what is stored afterwards.
\<close>

definition shell_main ::
  "shell_lib \<Rightarrow> host \<Rightarrow> string option \<Rightarrow> fault \<Rightarrow> (string \<Rightarrow> 'b db) \<Rightarrow> 'b db storage_engine \<Rightarrow> env
    \<Rightarrow> ('b db storage_engine \<times> env \<times> readline) list \<Rightarrow> shell_args
    \<Rightarrow> (shell_failure + string list) \<times> 'b db" where
  "shell_main lib host editor open_flt files ops env inputs args =
     (let db_path = join_path (sa_data_dir args) ''statemaster.redb'' in
      case hs_create_dir_all host (sa_data_dir args) of
        Some e \<Rightarrow> (Inl (ShellCreatingDataDir (sa_data_dir args) e), files db_path)
      | None \<Rightarrow>
          (case redb_open open_flt (files db_path) of
             Inl e \<Rightarrow> (Inl (ShellOpening db_path e), files db_path)
           | Inr storage \<Rightarrow>
               (case sa_command args of
                  Some line \<Rightarrow>
                    (case one_shot lib ops env line (engine_new storage) of (r, eng) \<Rightarrow> (r, en_storage eng))
                | None \<Rightarrow>
                    (case run_repl lib editor inputs (engine_new storage) of
                       (r, eng) \<Rightarrow> (map_err InitializingReadline r, en_storage eng)))))"

end
