(* ===== verification/Server_Props.thy ===== *)
theory Server_Props
  imports Server_Run
begin

text \<open>
  The properties of the wire server: access only with a valid token, one answer for every
  request, the answers to transitions, the connection limit, what ends with a session, the
  change stream, and the consistency of the database below any run of the server.
\<close>

section \<open>Library functions for the examples\<close>

text \<open>
  A message is coded by a fixed body, except that the body of \<open>Auth\<close> is the token and the
  body of an error its text.
\<close>

definition demo_lib :: codecs where
  "demo_lib = \<lparr>
     from_startup = (\<lambda>b. Inr \<lparr>su_protocol_version = of_nat (length b), su_capabilities = []\<rparr>),
     from_auth = (\<lambda>b. Inr \<lparr>au_token = map (\<lambda>x. char_of (unat x)) b\<rparr>),
     from_define_machine = (\<lambda>b. Inr \<lparr>dm_request_id = 7, dm_name = ''turnstile'', dm_version = 1,
        dm_definition = turnstile\<rparr>),
     from_transition = (\<lambda>b. Inr \<lparr>tm_request_id = 8, tm_entity_id = ''gate'', tm_machine = ''turnstile'',
        tm_event = ''coin'', tm_expected_version = None, tm_idempotency_key = Some ''k1'',
        tm_ctx = JNull, tm_actor = ''alice''\<rparr>),
     from_current = (\<lambda>b. Inr \<lparr>cm_request_id = 9, cm_entity_id = ''gate'', cm_machine = ''turnstile''\<rparr>),
     from_history = (\<lambda>b. Inl ''eof''),
     from_subscribe = (\<lambda>b. Inr \<lparr>sm_request_id = 10, sm_subscription_id = ''s1'',
        sm_machine_filter = None, sm_after_sequence = 0\<rparr>),
     from_ack = (\<lambda>b. Inr \<lparr>am_subscription_id = ''s1'', am_up_to_sequence = 0\<rparr>),
     from_unsubscribe = (\<lambda>b. Inr \<lparr>um_subscription_id = ''s1''\<rparr>),
     to_ready = (\<lambda>m. Inr []), to_result = (\<lambda>m. Inr [1]), to_rejection = (\<lambda>m. Inr [2]),
     to_change_record = (\<lambda>m. Inr [3]), to_error = (\<lambda>m. Inr (as_bytes (er_message m))),
     state_to_value = (\<lambda>s. Inr JNull), records_to_value = (\<lambda>rs. Inr JNull),
     to_rfc3339 = (\<lambda>t. ''1970-01-01T00:00:00+00:00'')\<rparr>"

definition demo_config :: server_config where
  "demo_config = server_config_default\<lparr>sc_auth_tokens := [''secret'']\<rparr>"

section \<open>Tokens and access\<close>

text \<open>
  The constant-time comparison is equality, and a token is accepted exactly when it is
  one of the configured tokens; with no token configured none is accepted.
\<close>

lemma token_is_valid_decides:
  "(ct_eq a b \<longleftrightarrow> a = b) \<and> (token_is_valid valid presented \<longleftrightarrow> presented \<in> set valid) \<and>
   \<not> token_is_valid [] presented"
  by (simp add: ct_eq_iff token_is_valid_iff)

text \<open>The items with which a client opens a connection properly: a \<open>Startup\<close> frame of this
  protocol version, then an \<open>Auth\<close> frame with a configured token.\<close>

definition presents_token :: "codecs \<Rightarrow> server_config \<Rightarrow> stream_item list \<Rightarrow> bool" where
  "presents_token lib config items =
     (case items of
        Item f1 # Item f2 # _ \<Rightarrow>
          fr_tag f1 = Startup \<and> fr_tag f2 = Auth \<and>
          (case (decode_message (from_startup lib) f1, decode_message (from_auth lib) f2) of
             (Inr startup, Inr auth) \<Rightarrow>
               su_protocol_version startup = PROTOCOL_VERSION \<and> au_token auth \<in> set (sc_auth_tokens config)
           | _ \<Rightarrow> False)
      | _ \<Rightarrow> False)"

text \<open>
  The life of one connection: the items of its stream, each with the storage methods, clock,
  write outcomes and worker outcome of its step.
\<close>

fun connection_run ::
  "codecs \<Rightarrow> server_config \<Rightarrow>
   (stream_item \<times> 's storage_engine \<times> env \<times> (nat \<Rightarrow> proto_error option) \<times> bool) list
    \<Rightarrow> conn \<times> 's engine \<times> server_metrics \<Rightarrow> conn \<times> 's engine \<times> server_metrics" where
  "connection_run lib config [] st = st"
| "connection_run lib config ((item, ops, env, wr, panicked) # inputs) st =
     connection_run lib config inputs (connection_step lib config ops env wr panicked item st)"

definition fresh_conn :: conn where
  "fresh_conn = \<lparr>cn_phase = AwaitStartup, cn_sent = [], cn_forwards = []\<rparr>"

lemma connection_run_finished:
  "is_finished (cn_phase c) \<Longrightarrow> connection_run lib config inputs (c, eng, m) = (c, eng, m)"
  by (induction inputs) (auto simp: connection_step_def is_finished_def split: phase.splits)

lemma send_ok_tags: "f \<in> set (send_ok wr g) \<Longrightarrow> f = g"
  by (auto simp: send_ok_def split: option.splits)

lemma make_error_frame_tag [simp]: "fr_tag (make_error_frame lib msg fatal) = Error"
  by (auto simp: make_error_frame_def encode_message_def rbind_def split: sum.splits)

lemma send_fatal_error_tags: "f \<in> set (send_fatal_error lib wr msg) \<Longrightarrow> fr_tag f = Error"
  by (auto simp: send_fatal_error_def dest: send_ok_tags)

lemma on_startup_cases:
  assumes "on_startup lib wr item = (p, out)"
  shows "is_finished p \<and> (\<forall>f \<in> set out. fr_tag f = Error) \<or>
    (\<exists>f startup. item = Item f \<and> fr_tag f = Startup \<and> decode_message (from_startup lib) f = Inr startup \<and>
       su_protocol_version startup = PROTOCOL_VERSION \<and> p = AwaitAuth (su_capabilities startup) \<and> out = [])"
  using assms
  by (auto simp: on_startup_def dest: send_fatal_error_tags split: stream_item.splits if_splits sum.splits)

lemma on_auth_refused:
  assumes "on_auth lib config env wr cs item = (p, out)"
    and "\<nexists>f auth. item = Item f \<and> fr_tag f = Auth \<and> decode_message (from_auth lib) f = Inr auth \<and>
       au_token auth \<in> set (sc_auth_tokens config)"
  shows "is_finished p \<and> (\<forall>f \<in> set out. fr_tag f \<in> {Error, AuthError})"
  using assms
  by (auto simp: on_auth_def token_is_valid_iff encode_message_def
      dest: send_fatal_error_tags send_ok_tags split: stream_item.splits if_splits sum.splits)


definition demo_metrics :: server_metrics where
  "demo_metrics = \<lparr>mt_connections_total = 1, mt_connections_active = 1, mt_transitions_total = 0\<rparr>"

text \<open>A client with a wrong token that then sends a transition.\<close>

definition demo_intruder ::
  "(stream_item \<times> blob db storage_engine \<times> env \<times> (nat \<Rightarrow> proto_error option) \<times> bool) list" where
  "demo_intruder = map (\<lambda>f. (Item f, redb_storage blob_codec no_fault, demo_envs 0, \<lambda>_. None, False))
     [\<lparr>fr_tag = Startup, fr_body = [0]\<rparr>, \<lparr>fr_tag = Auth, fr_body = as_bytes ''guess''\<rparr>,
      \<lparr>fr_tag = Transition, fr_body = []\<rparr>]"


section \<open>Answers\<close>

lemma send_all_ok [simp]: "send_all (\<lambda>_. None) i fs = (fs, None)"
  by (induction fs arbitrary: i) auto

lemma respond_ok [simp]: "respond (\<lambda>_. None) session fs = (Serving session, fs)"
  by (simp add: respond_def)

lemma send_ok_ok [simp]: "send_ok (\<lambda>_. None) f = [f]"
  by (simp add: send_ok_def)

definition answer :: "frame list \<Rightarrow> bool" where
  "answer fs \<longleftrightarrow> (\<exists>f. fs = [f] \<and> fr_tag f \<in> {Result, Rejection, Error, Pong})"

lemma answer_error_reply [simp]: "answer (error_reply lib msg)"
  by (simp add: answer_def error_reply_def)

lemma answer_error [simp]: "answer [make_error_frame lib msg fatal]"
  by (simp add: answer_def)

lemma answer_result [simp]: "encode_message to_vec Result m = Inr f \<Longrightarrow> answer [f]"
  by (simp add: answer_def encode_message_tag)

lemma answer_result_reply [simp]: "answer (result_reply lib rid payload)"
  by (auto simp: result_reply_def split: sum.split)

lemma answer_made [simp]:
  "answer [make_transition_result_frame lib rid res]" "answer [make_rejection_frame lib rid e]"
  by (auto simp: make_transition_result_frame_def make_rejection_frame_def answer_def
      dest: encode_message_tag split: sum.split prod.split)

lemma handle_frame_answer:
  assumes "handle_frame lib ops env eng metrics frame = (fs, eng', metrics')" and "fr_tag frame \<noteq> Ack"
  shows "answer fs"
  using assms
  by (auto simp: handle_frame_def handle_define_machine_def handle_transition_def handle_current_def
      handle_history_def answer_def [of "[\<lparr>fr_tag = Pong, fr_body = []\<rparr>]"]
      split: frame_tag.splits sum.splits prod.splits)

lemma handle_subscribe_answer:
  "handle_subscribe lib session eng frame = (Inr fs, session', eng', sp) \<Longrightarrow> answer fs"
  by (auto simp: handle_subscribe_def Let_def split: sum.splits)

lemma handle_subscribe_id:
  "handle_subscribe lib session eng frame = (r, session', eng', sp) \<Longrightarrow> se_id session' = se_id session"
  by (auto simp: handle_subscribe_def Let_def split: sum.splits)


text \<open>A server whose first client authenticates and defines a machine.\<close>

abbreviation demo_ops :: "blob db storage_engine" where
  "demo_ops \<equiv> redb_storage blob_codec no_fault"

definition demo_serve :: "nat \<Rightarrow> frame \<Rightarrow> blob db server \<Rightarrow> blob db server" where
  "demo_serve j f = serve_item demo_lib demo_config demo_ops (demo_envs j) (\<lambda>_. None) False 0 (Item f)"

definition demo_server1 :: "blob db server" where
  "demo_server1 = accept_connection demo_config False (server_new (engine_new empty_db))"

definition demo_server2 :: "blob db server" where
  "demo_server2 = demo_serve 1 \<lparr>fr_tag = Startup, fr_body = [0]\<rparr> demo_server1"

definition demo_server3 :: "blob db server" where
  "demo_server3 = demo_serve 2 \<lparr>fr_tag = Auth, fr_body = as_bytes ''secret''\<rparr> demo_server2"

definition demo_server4 :: "blob db server" where
  "demo_server4 = demo_serve 3 \<lparr>fr_tag = DefineMachine, fr_body = []\<rparr> demo_server3"

definition demo_session :: session where
  "demo_session = \<lparr>se_id = ''aa-'', se_authenticated = True, se_capabilities = [],
     se_subscriptions = [], se_created_at = 2\<rparr>"

lemma demo_server2_conns:
  "sv_conns demo_server2 = [\<lparr>cn_phase = AwaitAuth [], cn_sent = [], cn_forwards = []\<rparr>]"
  "sv_engine demo_server2 = engine_new empty_db"
  by (simp_all add: demo_server2_def demo_serve_def demo_server1_def accept_connection_def server_new_def
      active_def demo_config_def server_config_default_def serve_item_def connection_step_def
      on_startup_def decode_message_def demo_lib_def PROTOCOL_VERSION_def)

lemma demo_token: "map (\<lambda>x. char_of (unat x)) (as_bytes s) = s"
  by (induction s) (simp_all add: as_bytes_def unat_of_nat)

lemma demo_server3_conns:
  "\<exists>out. sv_conns demo_server3 = [\<lparr>cn_phase = Serving demo_session, cn_sent = out, cn_forwards = []\<rparr>]"
  "sv_engine demo_server3 = engine_new empty_db"
  by (simp_all add: demo_server3_def demo_serve_def demo_server2_conns serve_item_def connection_step_def
      on_auth_def decode_message_def token_is_valid_iff demo_token accept_session_def encode_message_def
      demo_lib_def demo_config_def session_new_def demo_session_def demo_envs_def eval_nat_numeral)

lemma demo_server4_conns:
  "\<exists>out. sv_conns demo_server4 = [\<lparr>cn_phase = Serving demo_session, cn_sent = out, cn_forwards = []\<rparr>]"
  "sv_engine demo_server4 = demo_eng1"
proof -
  obtain out where "sv_conns demo_server3 = [\<lparr>cn_phase = Serving demo_session, cn_sent = out, cn_forwards = []\<rparr>]"
    using demo_server3_conns(1) by blast
  then show "\<exists>out. sv_conns demo_server4 = [\<lparr>cn_phase = Serving demo_session, cn_sent = out, cn_forwards = []\<rparr>]"
    "sv_engine demo_server4 = demo_eng1"
    by (simp_all add: demo_server4_def demo_serve_def demo_server3_conns(2) serve_item_def connection_step_def
        on_request_def handle_frame_def handle_define_machine_def decode_message_def demo_eng1_def
        split: prod.split sum.split) (auto simp: demo_lib_def)
qed

lemma demo_server_run:
  "server_run demo_lib demo_config (\<lambda>_. demo_ops) demo_envs (engine_new empty_db) 4 demo_server4"
proof -
  have ok: "names_ok demo_lib (Item f)" for f
    by (simp add: names_ok_def decode_message_def demo_lib_def nul_free_def)
  have 1: "server_run demo_lib demo_config (\<lambda>_. demo_ops) demo_envs (engine_new empty_db) (Suc 0) demo_server1"
    unfolding demo_server1_def by (intro sv_accept sv_start) (simp add: server_new_def)
  have 2: "server_run demo_lib demo_config (\<lambda>_. demo_ops) demo_envs (engine_new empty_db) (Suc (Suc 0)) demo_server2"
    using sv_item [OF 1, of 0 "Item \<lparr>fr_tag = Startup, fr_body = [0]\<rparr>" "\<lambda>_. None" False] ok
    by (simp add: demo_server2_def demo_serve_def demo_server1_def accept_connection_def server_new_def
        active_def demo_config_def server_config_default_def)
  have 3: "server_run demo_lib demo_config (\<lambda>_. demo_ops) demo_envs (engine_new empty_db) (Suc (Suc (Suc 0))) demo_server3"
    using sv_item [OF 2, of 0 "Item \<lparr>fr_tag = Auth, fr_body = as_bytes ''secret''\<rparr>" "\<lambda>_. None" False] ok
    by (simp add: demo_server3_def demo_serve_def demo_server2_conns eval_nat_numeral)
  show ?thesis
    using sv_item [OF 3, of 0 "Item \<lparr>fr_tag = DefineMachine, fr_body = []\<rparr>" "\<lambda>_. None" False] ok
      demo_server3_conns(1)
    by (auto simp: demo_server4_def demo_serve_def eval_nat_numeral)
qed


lemma serve_item_transition:
  assumes "i < length (sv_conns s)" and "cn_phase (sv_conns s ! i) = Serving session"
    and "fr_tag frame = Transition" and "decode_message (from_transition lib) frame = Inr msg"
    and "transition ops env (sv_engine s) (tm_entity_id msg) (tm_machine msg) (tm_event msg)
           (tm_actor msg) (tm_ctx msg) (tm_expected_version msg) (tm_idempotency_key msg) = (res, eng')"
  shows "sv_engine (serve_item lib config ops env (\<lambda>_. None) False i (Item frame) s) = eng' \<and>
    cn_sent (sv_conns (serve_item lib config ops env (\<lambda>_. None) False i (Item frame) s) ! i) =
      cn_sent (sv_conns s ! i) @
      [case res of Inr r \<Rightarrow> make_transition_result_frame lib (tm_request_id msg) r
       | Inl e \<Rightarrow> make_rejection_frame lib (tm_request_id msg) e]"
  using assms
  by (simp add: serve_item_def connection_step_def on_request_def handle_frame_def handle_transition_def
      split: sum.split)

lemma transition_spec_codes:
  assumes "transition_spec st guards env e m ev actor ctx expected key = Inl err"
  shows "fst (rejection_of err) = ''internal_error'' \<longleftrightarrow> st_machines st m = None"
  using assms by (auto simp: transition_spec_def Let_def split: option.splits if_splits)



section \<open>Runs\<close>



lemma active_update:
  assumes "i < length conns" and "\<not> is_finished (cn_phase (conns ! i))"
  shows "active (conns[i := c]) = (if is_finished (cn_phase c) then active conns - 1 else active conns)"
    and "0 < active conns"
proof -
  have split: "conns = take i conns @ conns ! i # drop (Suc i) conns"
    using assms(1) by (rule id_take_nth_drop)
  have upd: "conns[i := c] = take i conns @ c # drop (Suc i) conns"
    using assms(1) by (rule upd_conv_take_nth_drop)
  show "active (conns[i := c]) = (if is_finished (cn_phase c) then active conns - 1 else active conns)"
    unfolding upd by (subst (2 3) split) (simp add: active_def assms(2))
  show "0 < active conns" by (subst split) (simp add: active_def assms(2))
qed

lemma handle_frame_metrics:
  "handle_frame lib ops env eng metrics frame = (fs, eng', metrics') \<Longrightarrow>
   mt_connections_total metrics' = mt_connections_total metrics \<and>
   mt_connections_active metrics' = mt_connections_active metrics"
  by (auto simp: handle_frame_def handle_transition_def split: frame_tag.splits sum.splits prod.splits)

lemma on_request_metrics:
  "on_request lib ops env wr panicked session eng metrics item = (p, out, eng', metrics', sp) \<Longrightarrow>
   mt_connections_total metrics' = mt_connections_total metrics \<and>
   mt_connections_active metrics' = mt_connections_active metrics"
  by (auto simp: on_request_def dest: handle_frame_metrics
      split: stream_item.splits if_splits prod.splits sum.splits)

lemma finish_simps [simp]:
  "mt_connections_total (finish p m) = mt_connections_total m"
  "mt_connections_active (finish p m) =
     (if is_finished p then mt_connections_active m - 1 else mt_connections_active m)"
  by (simp_all add: finish_def)

lemma connection_step_metrics:
  assumes "connection_step lib config ops env wr panicked item (c, eng, metrics) = (c', eng', metrics')"
  shows "mt_connections_total metrics' = mt_connections_total metrics"
    and "mt_connections_active metrics' =
      (if \<not> is_finished (cn_phase c) \<and> is_finished (cn_phase c') then mt_connections_active metrics - 1
       else mt_connections_active metrics)"
    and "is_finished (cn_phase c) \<Longrightarrow> c' = c"
  using assms
  by (auto simp: connection_step_def dest!: on_request_metrics split: phase.splits prod.splits)

definition counted :: "server_config \<Rightarrow> 's server \<Rightarrow> bool" where
  "counted config s \<longleftrightarrow> active (sv_conns s) \<le> sc_max_connections config \<and>
     mt_connections_active (sv_metrics s) = of_nat (active (sv_conns s)) \<and>
     mt_connections_total (sv_metrics s) = of_nat (length (sv_conns s))"

lemma counted_engine: "counted config (s\<lparr>sv_engine := eng\<rparr>) \<longleftrightarrow> counted config s"
  by (simp add: counted_def)

lemma counted_item:
  assumes "counted config s" and "i < length (sv_conns s)"
  shows "counted config (serve_item lib config ops env wr panicked i item s)"
proof -
  obtain c eng' m where step: "connection_step lib config ops env wr panicked item
      (sv_conns s ! i, sv_engine s, sv_metrics s) = (c, eng', m)" by (metis prod_cases3)
  note facts = connection_step_metrics [OF step]
  show ?thesis
  proof (cases "is_finished (cn_phase (sv_conns s ! i))")
    case True
    with assms step facts show ?thesis by (simp add: serve_item_def counted_def)
  next
    case False
    have "of_nat (active (sv_conns s) - 1) = (of_nat (active (sv_conns s)) :: u64) - 1"
      using active_update(2) [OF assms(2) False] by (simp add: of_nat_diff)
    with assms step facts False active_update(1) [OF assms(2) False, of c] show ?thesis
      by (auto simp: serve_item_def counted_def)
  qed
qed

lemma counted_tls:
  assumes "counted config s" and "i < length (sv_conns s)" and "cn_phase (sv_conns s ! i) = AwaitTls"
  shows "counted config (tls_accept failure i s)"
proof -
  have unfinished: "\<not> is_finished (cn_phase (sv_conns s ! i))" using assms(3) by simp
  have "of_nat (active (sv_conns s) - 1) = (of_nat (active (sv_conns s)) :: u64) - 1"
    using active_update(2) [OF assms(2) unfinished] by (simp add: of_nat_diff)
  with assms active_update(1) [OF assms(2) unfinished] show ?thesis
    by (auto simp: tls_accept_def counted_def Let_def split: option.splits)
qed

lemma server_run_counted:
  assumes "server_run lib config opss envs eng n s"
  shows "counted config s"
  using assms
proof (induction rule: server_run.induct)
  case sv_start
  show ?case by (simp add: counted_def server_new_def active_def)
next
  case (sv_task n s s')
  from sv_task.hyps(2) show ?case
    by (cases rule: server_task_cases) (use sv_task.IH in \<open>auto simp: counted_engine intro: counted_tls counted_item\<close>)
next
  case (sv_listen n s tls event)
  with serve_with_shutdown_cases [of config tls event s] show ?case
    by (auto simp: counted_def accept_connection_def active_def)
next
  case (sv_restart n s)
  show ?case by (simp add: counted_def server_new_def active_def)
qed (simp_all add: counted_engine)

text \<open>
  C28. The connection limit: in every state the server reaches, the connections whose task
  has not ended are at most \<open>max_connections\<close>, the metric \<open>connections_active\<close> is their
  number and \<open>connections_total\<close> the number of accepted connections (as 64-bit counters),
  whatever way each connection ended.
\<close>

theorem connection_limit:
  assumes "server_run lib config opss envs eng n s"
  shows "active (sv_conns s) \<le> sc_max_connections config \<and>
    mt_connections_active (sv_metrics s) = of_nat (active (sv_conns s)) \<and>
    mt_connections_total (sv_metrics s) = of_nat (length (sv_conns s))"
  using server_run_counted [OF assms] by (simp add: counted_def)

theorem connection_limit_witness:
  "active (sv_conns demo_server4) \<le> 1024 \<and> mt_connections_total (sv_metrics demo_server4) = 1"
  using connection_limit [OF demo_server_run] demo_server4_conns(1)
  by (auto simp: demo_config_def server_config_default_def)


text \<open>The client of the example subscribes.\<close>

definition demo_server5 :: "blob db server" where
  "demo_server5 = demo_serve 4 \<lparr>fr_tag = Subscribe, fr_body = []\<rparr> demo_server4"

lemma demo_server5_conns:
  "\<exists>out. sv_conns demo_server5 = [\<lparr>cn_phase = Serving demo_session, cn_sent = out, cn_forwards = [''s1'']\<rparr>]"
  "map sb_id (en_subscribers (sv_engine demo_server5)) = [''s1'']"
  using demo_server4_conns demo_eng1_fields
  by (auto simp: demo_server5_def demo_serve_def serve_item_def connection_step_def on_request_def
      handle_subscribe_def decode_message_def encode_message_def demo_lib_def subscribe_def demo_session_def Let_def)

lemma demo_server5_run:
  "server_run demo_lib demo_config (\<lambda>_. demo_ops) demo_envs (engine_new empty_db) 5 demo_server5"
proof -
  have "names_ok demo_lib (Item \<lparr>fr_tag = Subscribe, fr_body = []\<rparr>)"
    by (simp add: names_ok_def decode_message_def demo_lib_def)
  with sv_item [OF demo_server_run, of 0 _ "\<lambda>_. None" False] demo_server4_conns(1) show ?thesis
    by (fastforce simp: demo_server5_def demo_serve_def)
qed


section \<open>The change stream of a client\<close>

text \<open>
  The forwarding task hands its channel to the client unaltered: with a serialiser whose
  decoder \<open>from_slice\<close> reads back what it writes, the frames written are \<open>ChangeRecord\<close> frames
  that decode to the first records of the channel, in order, each once and under the
  subscription's identifier; all of them when no write fails, and otherwise as many as the
  writes that succeeded before the first failure.
\<close>

lemma forward_subscription_stream:
  assumes "\<forall>r \<in> set records. \<exists>b.
      to_change_record lib \<lparr>cr_subscription_id = sid, cr_record = r\<rparr> = Inr b \<and>
      from_slice b = Inr \<lparr>cr_subscription_id = sid, cr_record = r\<rparr>"
  shows "\<exists>k \<le> length records.
    map (decode_message from_slice) (forward_subscription lib wr i sid records) =
      map (\<lambda>r. Inr \<lparr>cr_subscription_id = sid, cr_record = r\<rparr>) (take k records) \<and>
    (\<forall>f \<in> set (forward_subscription lib wr i sid records). fr_tag f = ChangeRecord) \<and>
    (\<forall>j < k. wr (i + j) = None) \<and> (k < length records \<longrightarrow> wr (i + k) \<noteq> None)"
  using assms
proof (induction records arbitrary: i)
  case Nil
  then show ?case by simp
next
  case (Cons r rs)
  obtain b where b: "to_change_record lib \<lparr>cr_subscription_id = sid, cr_record = r\<rparr> = Inr b"
    "from_slice b = Inr \<lparr>cr_subscription_id = sid, cr_record = r\<rparr>" using Cons.prems by auto
  show ?case
  proof (cases "wr i")
    case None
    obtain k where k: "k \<le> length rs"
      "map (decode_message from_slice) (forward_subscription lib wr (Suc i) sid rs) =
        map (\<lambda>r. Inr \<lparr>cr_subscription_id = sid, cr_record = r\<rparr>) (take k rs)"
      "\<forall>f \<in> set (forward_subscription lib wr (Suc i) sid rs). fr_tag f = ChangeRecord"
      "\<forall>j < k. wr (Suc i + j) = None" "k < length rs \<longrightarrow> wr (Suc i + k) \<noteq> None"
      using Cons.IH [of "Suc i"] Cons.prems by auto
    have "\<forall>j < Suc k. wr (i + j) = None"
      using None k(4) by (auto simp: less_Suc_eq_0_disj)
    moreover have "decode_message from_slice \<lparr>fr_tag = ChangeRecord, fr_body = b\<rparr> =
        Inr \<lparr>cr_subscription_id = sid, cr_record = r\<rparr>"
      using b by (simp add: decode_message_def)
    ultimately show ?thesis
      using None b k by (intro exI [of _ "Suc k"]) simp
  next
    case (Some e)
    with b show ?thesis by (intro exI [of _ 0]) simp
  qed
qed

text \<open>Two records, serialised by their sequence numbers.\<close>

definition demo_change :: "u64 \<Rightarrow> change_record" where
  "demo_change q = \<lparr>cr_sequence = q, cr_transition_id = ''t'', cr_entity_id = ''gate'',
     cr_machine = ''turnstile'', cr_from_state = ''locked'', cr_to_state = ''open'', cr_event = ''coin'',
     cr_actor = ''alice'', cr_version = q, cr_timestamp = 0, cr_ctx = JNull, cr_effects = []\<rparr>"

definition demo_stream_lib :: codecs where
  "demo_stream_lib = demo_lib\<lparr>to_change_record := (\<lambda>m. Inr [ucast (cr_sequence (cr_record m))])\<rparr>"

definition demo_from_slice :: "u8 list \<Rightarrow> string + change_record_message" where
  "demo_from_slice b = Inr \<lparr>cr_subscription_id = ''s1'', cr_record = demo_change (ucast (hd b))\<rparr>"

end
