(* ===== verification/Shell_Props.thy ===== *)
theory Shell_Props
  imports Shell Database
begin

text \<open>
  The properties of the shell: words survive the tokenizer, a printed command parses back,
  and a session of the shell is a run of the engine.
\<close>

section \<open>Words\<close>

text \<open>
  \<open>spells w t\<close>: the text \<open>w\<close> stands for the word \<open>t\<close>, either plainly, or in single quotes.
\<close>

definition spells :: "string \<Rightarrow> string \<Rightarrow> bool" where
  "spells w t \<longleftrightarrow> t \<noteq> [] \<and> quote \<notin> set t \<and>
     (w = t \<and> CHR '' '' \<notin> set t \<and> CHR 0x09 \<notin> set t \<or> w = quote # t @ [quote])"

lemma tokenize_plain:
  "\<forall>c \<in> set t. c \<noteq> quote \<and> c \<noteq> CHR '' '' \<and> c \<noteq> CHR 0x09 \<Longrightarrow>
   tokenize_loop cur False toks (t @ rest) = tokenize_loop (cur @ t) False toks rest"
  by (induction t arbitrary: cur) auto

lemma tokenize_inside:
  "quote \<notin> set t \<Longrightarrow> tokenize_loop cur True toks (t @ rest) = tokenize_loop (cur @ t) True toks rest"
  by (induction t arbitrary: cur) auto

lemma tokenize_word:
  "spells w t \<Longrightarrow> tokenize_loop [] False toks (w @ rest) = tokenize_loop t False toks rest"
  using tokenize_plain [of t "[]" toks rest] tokenize_inside [of t "[]" toks "quote # rest"]
  by (auto simp: spells_def)

lemma tokenize_words:
  "list_all2 spells ws ts \<Longrightarrow> tokenize_loop [] False toks (join_space ws) = toks @ ts"
proof (induction ws arbitrary: ts toks rule: join_space.induct)
  case 1
  then show ?case by simp
next
  case (2 w)
  then obtain t where "ts = [t]" "spells w t" by (auto simp: list_all2_Cons1)
  with tokenize_word [of w t toks "[]"] show ?case by (auto simp: spells_def)
next
  case (3 w v ws)
  then obtain t ts' where "ts = t # ts'" "spells w t" "list_all2 spells (v # ws) ts'"
    by (auto simp: list_all2_Cons1)
  with 3 tokenize_word [of w t toks "'' '' @ join_space (v # ws)"] show ?case
    by (auto simp: spells_def)
qed

text \<open>
  Words survive the tokenizer: when each word is written plainly (without blanks) or in
  single quotes (with any blanks), no word is empty or contains a quote, and the written
  words are joined by blanks, the tokenizer returns exactly the words.
\<close>

lemma tokenize_join:
  assumes "list_all2 spells ws ts"
  shows "tokenize (join_space ws) = ts"
  using tokenize_words [OF assms, of "[]"] by (simp add: tokenize_def)

section \<open>Numbers\<close>

lemma digits_loop_append:
  "digits_loop mx acc (xs @ ys) = Option.bind (digits_loop mx acc xs) (\<lambda>a. digits_loop mx a ys)"
  by (induction xs arbitrary: acc) (auto simp: Let_def)

lemma digits_loop_show: "n \<le> mx \<Longrightarrow> digits_loop mx 0 (show_nat n) = Some n"
proof (induction n rule: show_nat.induct)
  case (1 n)
  have digit: "digits_loop mx a [digit d] = (if mx < a * 10 + d then None else Some (a * 10 + d))" if "d < 10" for a d
    using that by (simp add: digit_def of_char_of)
  show ?case
  proof (cases "n < 10")
    case True
    with 1 digit show ?thesis by (simp add: show_nat.simps [of n])
  next
    case False
    with 1 digit [of "n mod 10"] show ?thesis
      by (simp add: show_nat.simps [of n] digits_loop_append)
  qed
qed

lemma show_nat_digits: "c \<in> set (show_nat n) \<Longrightarrow> 48 \<le> (of_char c :: nat) \<and> (of_char c :: nat) \<le> 57"
proof (induction n rule: show_nat.induct)
  case (1 n)
  then show ?case
    by (subst (asm) (2) show_nat.simps) (auto simp: digit_def of_char_of split: if_splits)
qed

lemma show_nat_nonempty [simp]: "show_nat n \<noteq> []"
  by (subst show_nat.simps) simp

lemma show_nat_not_in: "48 \<le> (of_char c :: nat) \<and> (of_char c :: nat) \<le> 57 \<or> c \<notin> set (show_nat n)"
  using show_nat_digits by blast

lemma parse_uint_show: "n \<le> mx \<Longrightarrow> parse_uint mx (show_nat n) = Some n"
proof -
  assume "n \<le> mx"
  obtain c cs where s: "show_nat n = c # cs" by (cases "show_nat n") auto
  with show_nat_digits [of c n] have "c \<noteq> CHR ''+''" by auto
  with s digits_loop_show [OF \<open>n \<le> mx\<close>] show ?thesis by (simp add: parse_uint_def)
qed

lemma parse_u64_show [simp]: "parse_u64 (show_nat (unat v)) = Some v"
proof -
  have "unat v < 2 ^ 64" using unsigned_less [of v] by simp
  then have "unat v \<le> 2 ^ 64 - 1" by simp
  then show ?thesis by (simp add: parse_u64_def parse_uint_show)
qed

lemma parse_u32_show [simp]: "parse_u32 (show_nat (unat v)) = Some v"
proof -
  have "unat v < 2 ^ 32" using unsigned_less [of v] by simp
  then have "unat v \<le> 2 ^ 32 - 1" by simp
  then show ?thesis by (simp add: parse_u32_def parse_uint_show)
qed

section \<open>Printing and parsing commands\<close>

text \<open>The command line for a command; \<open>to_str\<close> writes a JSON value.\<close>

fun print_words :: "(json \<Rightarrow> string) \<Rightarrow> cmd \<Rightarrow> (string \<times> string) list" where
  "print_words to_str (CmdTransition e m ev actor ctx expected) =
     [(''transition'', ''transition''), (quoted e, e), (quoted m, m), (quoted ev, ev),
      (''--actor'', ''--actor''), (quoted actor, actor), (''--ctx'', ''--ctx''), (quoted (to_str ctx), to_str ctx)] @
     (case expected of
        None \<Rightarrow> []
      | Some v \<Rightarrow> [(''--expect-version'', ''--expect-version''), (show_nat (unat v), show_nat (unat v))])"
| "print_words to_str (CmdCurrent e m) = [(''current'', ''current''), (quoted e, e), (quoted m, m)]"
| "print_words to_str (CmdHistory e m limit) =
     [(''history'', ''history''), (quoted e, e), (quoted m, m)] @
     (case limit of
        None \<Rightarrow> []
      | Some n \<Rightarrow> [(''--limit'', ''--limit''), (show_nat (unat n), show_nat (unat n))])"
| "print_words to_str (CmdDefine source) = [(''define'', ''define''), (quoted source, source)]"
| "print_words to_str CmdHelp = [(''help'', ''help'')]"
| "print_words to_str CmdQuit = [(''quit'', ''quit'')]"
| "print_words to_str _ = []"

fun print_command :: "(json \<Rightarrow> string) \<Rightarrow> cmd \<Rightarrow> string" where
  "print_command to_str CmdListMachines = CHR 0x5C # ''machines''"
| "print_command to_str (CmdDescribeMachine name) = CHR 0x5C # ''machine '' @ name"
| "print_command to_str (CmdDescribeEntity e) = CHR 0x5C # ''entity '' @ e"
| "print_command to_str c = join_space (map fst (print_words to_str c))"

text \<open>A word that can be quoted, and the commands that can be written.\<close>

definition word_ok :: "string \<Rightarrow> bool" where
  "word_ok s \<longleftrightarrow> s \<noteq> [] \<and> quote \<notin> set s"

definition trimmed :: "string \<Rightarrow> bool" where
  "trimmed s \<longleftrightarrow> s \<noteq> [] \<and> \<not> is_whitespace (hd s) \<and> \<not> is_whitespace (last s)"

fun printable :: "shell_lib \<Rightarrow> (json \<Rightarrow> string) \<Rightarrow> cmd \<Rightarrow> bool" where
  "printable lib to_str (CmdTransition e m ev actor ctx expected) \<longleftrightarrow>
     word_ok e \<and> word_ok m \<and> word_ok ev \<and> word_ok actor \<and> word_ok (to_str ctx) \<and>
     sl_value lib (to_str ctx) = Inr ctx"
| "printable lib to_str (CmdCurrent e m) \<longleftrightarrow> word_ok e \<and> word_ok m"
| "printable lib to_str (CmdHistory e m limit) \<longleftrightarrow> word_ok e \<and> word_ok m"
| "printable lib to_str (CmdDefine source) \<longleftrightarrow> word_ok source"
| "printable lib to_str (CmdDescribeMachine name) \<longleftrightarrow> trimmed name"
| "printable lib to_str (CmdDescribeEntity e) \<longleftrightarrow> trimmed e"
| "printable lib to_str _ \<longleftrightarrow> True"

lemma spells_quoted: "spells (quoted s) s \<longleftrightarrow> word_ok s"
  by (auto simp: spells_def word_ok_def quoted_def)

lemma spells_show_nat: "spells (show_nat n) (show_nat n)"
  using show_nat_not_in [of quote n] show_nat_not_in [of "CHR '' ''" n] show_nat_not_in [of "CHR 0x09" n]
  by (simp add: spells_def)

lemma print_words_spell:
  "printable lib to_str c \<Longrightarrow> list_all2 spells (map fst (print_words to_str c)) (map snd (print_words to_str c))"
  by (cases c) (auto simp: spells_quoted spells_show_nat spells_def [of "_ # _" "_ # _"] split: option.split)

lemma trim_trimmed: "trimmed s \<Longrightarrow> trim s = s"
proof -
  assume t: "trimmed s"
  have "dropWhile is_whitespace xs = xs" if "xs \<noteq> []" "\<not> is_whitespace (hd xs)" for xs
    using that by (cases xs) auto
  with t show ?thesis by (simp add: trim_def trimmed_def hd_rev)
qed

lemma last_join: "ws \<noteq> [] \<Longrightarrow> \<forall>w \<in> set ws. w \<noteq> [] \<Longrightarrow>
    join_space ws \<noteq> [] \<and> hd (join_space ws) = hd (hd ws) \<and> last (join_space ws) = last (last ws)"
  by (induction ws rule: join_space.induct) auto

lemma parse_command_words:
  assumes "list_all2 spells ws ts" and "ws \<noteq> []" and "trimmed (join_space ws)"
    and "hd (join_space ws) \<noteq> CHR ''#''" and "hd (join_space ws) \<noteq> CHR 0x5C"
  shows "parse_command lib (join_space ws) = parse_tokens lib ts"
proof -
  from assms(3) obtain c rest where "join_space ws = c # rest" by (cases "join_space ws") (auto simp: trimmed_def)
  moreover have "ts \<noteq> []" using assms(1,2) by auto
  moreover have "tokenize (join_space ws) = ts"
    using tokenize_words [OF assms(1), of "[]"] by (simp add: tokenize_def)
  ultimately show ?thesis
    using assms(3-5) by (simp add: parse_command_def trim_trimmed)
qed

lemma last_show_nat: "\<not> is_whitespace (last (show_nat n))"
  using show_nat_digits [of "last (show_nat n)" n] by (auto simp: is_whitespace_def)

lemma print_words_ends:
  assumes "map fst (print_words to_str c) = ws" and "ws \<noteq> []"
  shows "hd (hd ws) \<in> set ''tchdq''" and "hd ws \<noteq> []" and "last ws \<noteq> []" and "\<not> is_whitespace (last (last ws))"
  using assms
  by (cases c; auto simp: quoted_def is_whitespace_def [of quote] is_whitespace_def [of "CHR ''p''"]
      is_whitespace_def [of "CHR ''t''"] last_show_nat split: option.splits)+

lemma spells_nonempty: "list_all2 spells ws ts \<Longrightarrow> \<forall>w \<in> set ws. w \<noteq> []"
  by (induction rule: list_all2_induct) (auto simp: spells_def)

lemma parse_print_words:
  assumes "printable lib to_str c" and "print_words to_str c \<noteq> []"
  shows "parse_command lib (join_space (map fst (print_words to_str c))) =
    parse_tokens lib (map snd (print_words to_str c))"
proof (rule parse_command_words)
  let ?ws = "map fst (print_words to_str c)"
  show spell: "list_all2 spells ?ws (map snd (print_words to_str c))" by (rule print_words_spell [OF assms(1)])
  show ne: "?ws \<noteq> []" using assms(2) by simp
  have "\<forall>w \<in> set ?ws. w \<noteq> []"
    by (rule spells_nonempty [OF spell])
  note join = last_join [OF ne this] and ends = print_words_ends [OF refl ne]
  from join ends show "trimmed (join_space ?ws)"
    by (auto simp: trimmed_def is_whitespace_def)
  from join ends show "hd (join_space ?ws) \<noteq> CHR ''#''" "hd (join_space ?ws) \<noteq> CHR 0x5C" by auto
qed

lemma trimmed_nonempty: "trimmed a \<Longrightarrow> a \<noteq> []"
  by (simp add: trimmed_def)

lemma split_space_word: "CHR '' '' \<notin> set w \<Longrightarrow> split_space (w @ CHR '' '' # a) = (w, Some a)"
  by (induction w) (auto simp: split_space_def)

lemma parse_meta_arg:
  assumes "trimmed a"
  shows "parse_meta (''machine '' @ a) = Inr (CmdDescribeMachine a)"
    and "parse_meta (''entity '' @ a) = Inr (CmdDescribeEntity a)"
proof -
  have s: "split_space (''machine '' @ a) = (''machine'', Some a)" "split_space (''entity '' @ a) = (''entity'', Some a)"
    using split_space_word [of "''machine''" a] split_space_word [of "''entity''" a] by simp_all
  show "parse_meta (''machine '' @ a) = Inr (CmdDescribeMachine a)"
    and "parse_meta (''entity '' @ a) = Inr (CmdDescribeEntity a)"
    unfolding parse_meta_def s using assms by (simp_all add: trim_trimmed trimmed_nonempty)
qed

lemma parse_command_meta:
  "trimmed (CHR 0x5C # rest) \<Longrightarrow> parse_command lib (CHR 0x5C # rest) = parse_meta rest"
  by (simp add: parse_command_def trim_trimmed)

lemma trimmed_meta:
  "trimmed (CHR 0x5C # ''machines'')"
  "trimmed a \<Longrightarrow> trimmed (CHR 0x5C # ''machine '' @ a)"
  "trimmed a \<Longrightarrow> trimmed (CHR 0x5C # ''entity '' @ a)"
  by (simp_all add: trimmed_def is_whitespace_def)

lemma parse_empty: "parse_command lib [] = Inr CmdEmpty"
  by (simp add: parse_command_def trim_def)

lemma parse_machines: "parse_meta ''machines'' = Inr CmdListMachines"
  by (simp add: parse_meta_def split_space_def)

lemma lower_words:
  "to_lowercase ''transition'' = ''transition''" "to_lowercase ''current'' = ''current''"
  "to_lowercase ''history'' = ''history''" "to_lowercase ''define'' = ''define''"
  "to_lowercase ''quit'' = ''quit''" "to_lowercase ''help'' = ''help''"
  by (simp_all add: to_lowercase_def lower_char_def)

lemma parse_tokens_words:
  "parse_tokens lib (''transition'' # args) = parse_transition lib (''transition'' # args)"
  "parse_tokens lib (''current'' # args) = parse_current (''current'' # args)"
  "parse_tokens lib (''history'' # args) = parse_history (''history'' # args)"
  "parse_tokens lib (''define'' # args) = parse_define (''define'' # args)"
  "parse_tokens lib (''quit'' # args) = Inr CmdQuit"
  "parse_tokens lib (''help'' # args) = Inr CmdHelp"
  by (simp_all add: parse_tokens_def lower_words)

text \<open>
  C24. A command that is printed parses back: for every command whose words are non-empty and
  free of single quotes (and whose meta-command argument has no blanks at its ends), the
  command line that writes its words in quotes and its options in full is parsed to exactly
  this command, with the numbers and the JSON context it had.
\<close>

theorem parse_print_command:
  assumes "printable lib to_str c"
  shows "parse_command lib (print_command to_str c) = Inr c"
proof (cases "print_words to_str c = []")
  case False
  have "print_command to_str c = join_space (map fst (print_words to_str c))"
    using False by (cases c) simp_all
  moreover have "parse_tokens lib (map snd (print_words to_str c)) = Inr c"
    using False assms by (cases c) (simp_all add: parse_tokens_words parse_transition_def
        parse_current_def parse_history_def parse_define_def split: option.split)
  ultimately show ?thesis
    using parse_print_words [OF assms False] by simp
next
  case True
  with assms show ?thesis
    by (cases c) (simp_all add: parse_command_meta trimmed_meta [simplified] parse_meta_arg [simplified]
        trimmed_meta(1) parse_empty parse_machines)
qed

theorem parse_print_command_witness:
  "\<exists>lib. parse_command lib (''transition '' @ quoted ''order 7'' @ '' '' @ quoted ''order'' @ '' '' @ quoted ''pay'' @
     '' --actor '' @ quoted ''ann'' @ '' --ctx '' @ quoted ''null'' @ '' --expect-version 41'') =
     Inr (CmdTransition ''order 7'' ''order'' ''pay'' ''ann'' JNull (Some 41))"
proof -
  define lib where "lib = \<lparr>sl_value = (\<lambda>s. if s = ''null'' then Inr JNull else Inl ''eof''),
    sl_definition = (\<lambda>_. Inl []), sl_read_file = (\<lambda>_. Inl []), sl_strftime = (\<lambda>_ _. []), sl_alternate = (\<lambda>_. [])\<rparr>"
  have "printable lib (\<lambda>_. ''null'') (CmdTransition ''order 7'' ''order'' ''pay'' ''ann'' JNull (Some 41))"
    by (simp add: lib_def word_ok_def)
  moreover have "show_nat 41 = ''41''" by code_simp
  ultimately show ?thesis
    using parse_print_command [of lib "\<lambda>_. ''null''" "CmdTransition ''order 7'' ''order'' ''pay'' ''ann'' JNull (Some 41)"]
    by (intro exI [of _ lib]) (simp add: quoted_def)
qed

section \<open>A session is a run of the engine\<close>

definition line_ok :: "shell_lib \<Rightarrow> readline \<Rightarrow> bool" where
  "line_ok lib input =
     (case input of
        Line line \<Rightarrow>
          (case parse_command lib line of
             Inr (CmdTransition e m _ _ _ _) \<Rightarrow> nul_free e \<and> nul_free m
           | _ \<Rightarrow> True)
      | _ \<Rightarrow> True)"

lemma shell_define_run:
  assumes "engine_run opss envs eng0 n eng" and "shell_define lib (opss n) eng source = (r, eng')"
  shows "engine_run opss envs eng0 (Suc n) eng'"
proof -
  have "eng' = eng \<or> (\<exists>d res. define_machine (opss n) eng d = (res, eng'))"
    using assms(2) by (auto simp: shell_define_def Let_def split: sum.splits prod.splits list.splits if_splits)
  with assms(1) show ?thesis by (auto intro: run_read run_define)
qed

lemma shell_transition_run:
  assumes "engine_run opss envs eng0 n eng" and "nul_free e" and "nul_free m"
    and "shell_transition (opss n) (envs n) eng e m ev actor ctx expected = (out, eng')"
  shows "engine_run opss envs eng0 (Suc n) eng'"
proof -
  have "\<exists>res. transition (opss n) (envs n) eng e m ev actor ctx expected None = (res, eng')"
    using assms(4) by (auto simp: shell_transition_def split: sum.splits prod.splits)
  with assms(1-3) show ?thesis by (auto intro: run_transition)
qed

lemma execute_run:
  assumes "engine_run opss envs eng0 n eng" and "execute lib (opss n) (envs n) eng cmd = (r, out, eng')"
    and "case cmd of CmdTransition e m _ _ _ _ \<Rightarrow> nul_free e \<and> nul_free m | _ \<Rightarrow> True"
  shows "engine_run opss envs eng0 (Suc n) eng'"
proof (cases cmd)
  case (CmdTransition e m ev actor ctx expected)
  with assms show ?thesis
    by (auto simp: execute_def split: prod.splits intro: shell_transition_run)
next
  case (CmdDefine source)
  with assms show ?thesis
    by (auto simp: execute_def split: prod.splits sum.splits intro: shell_define_run)
qed (use assms in \<open>auto simp: execute_def split: sum.splits intro: run_read\<close>)

lemma repl_line_run:
  assumes "engine_run opss envs eng0 n eng" and "repl_line lib (opss n) (envs n) eng input = (b, out, eng')"
    and "line_ok lib input"
  shows "engine_run opss envs eng0 (Suc n) eng'"
proof (cases input)
  case (Line line)
  show ?thesis
  proof (cases "parse_command lib line")
    case (Inr cmd)
    obtain r out' eng1 where ex: "execute lib (opss n) (envs n) eng cmd = (r, out', eng1)" by (metis prod_cases3)
    with assms(2) Line Inr have "eng' = eng1" by (auto simp: repl_line_def split: sum.splits)
    moreover have "case cmd of CmdTransition e m _ _ _ _ \<Rightarrow> nul_free e \<and> nul_free m | _ \<Rightarrow> True"
      using assms(3) Line Inr by (auto simp: line_ok_def split: cmd.splits)
    ultimately show ?thesis using execute_run [OF assms(1) ex] by simp
  qed (use assms Line in \<open>auto simp: repl_line_def intro: run_read\<close>)
qed (use assms in \<open>auto simp: repl_line_def intro: run_read\<close>)

lemma repl_loop_run:
  assumes "engine_run opss envs eng0 n eng" and "list_all (line_ok lib) lines"
    and "repl_loop lib (map (\<lambda>(i, l). (opss i, envs i, l)) (enumerate n lines)) eng = (out, eng')"
  shows "\<exists>k \<le> length lines. engine_run opss envs eng0 (n + k) eng'"
  using assms
proof (induction lines arbitrary: n eng out)
  case Nil
  then show ?case by auto
next
  case (Cons l lines)
  obtain b out1 eng1 where line: "repl_line lib (opss n) (envs n) eng l = (b, out1, eng1)" by (metis prod_cases3)
  have run: "engine_run opss envs eng0 (Suc n) eng1"
    using repl_line_run [OF Cons.prems(1) line] Cons.prems(2) by simp
  show ?case
  proof (cases b)
    case True
    with Cons.prems line obtain out2 where
      "repl_loop lib (map (\<lambda>(i, l). (opss i, envs i, l)) (enumerate (Suc n) lines)) eng1 = (out2, eng')"
      by (auto split: prod.splits)
    from Cons.IH [OF run _ this] Cons.prems(2) obtain k where
      "k \<le> length lines" "engine_run opss envs eng0 (Suc n + k) eng'" by auto
    then show ?thesis by (intro exI [of _ "Suc k"]) simp
  next
    case False
    with Cons.prems line have "eng' = eng1" by auto
    with run show ?thesis by (intro exI [of _ 1]) simp
  qed
qed

definition demo_shell_lib :: shell_lib where
  "demo_shell_lib = \<lparr>sl_value = (\<lambda>s. Inr JNull), sl_definition = (\<lambda>s. Inr turnstile),
     sl_read_file = (\<lambda>p. Inl ''not found''), sl_strftime = (\<lambda>f t. ''2026''), sl_alternate = (\<lambda>e. ''error'')\<rparr>"

end
