(* ===== verification/Daemon_Props.thy ===== *)
theory Daemon_Props
  imports Daemon_Run Ctl Shell_Main Server_Props Shell_Props
begin

text \<open>
  The properties of the daemon, the shell and the administration tool: what the configuration
  resolves to, what a started daemon serves, how it shuts
  down, that a shell session keeps the database consistent, and that a failed command changes nothing.
\<close>

section \<open>Configuration\<close>

text \<open>A configuration the daemon can run with.\<close>

definition usable :: "host \<Rightarrow> config \<Rightarrow> bool" where
  "usable host cfg \<longleftrightarrow>
     socket_addr (cf_listen_addr cfg) \<and> socket_addr (cf_metrics_addr cfg) \<and>
     cf_log_level cfg \<in> set LEVELS \<and>
     0 < cf_dispatcher_interval_ms cfg \<and>
     (cf_tls_cert_path cfg = None \<longleftrightarrow> cf_tls_key_path cfg = None) \<and>
     list_all (hs_is_file host) (map the (filter (\<lambda>p. p \<noteq> None) [cf_tls_cert_path cfg, cf_tls_key_path cfg]))"

lemma validate_config_iff: "validate_config host cfg = Inr () \<longleftrightarrow> usable host cfg"
  by (auto simp: validate_config_def usable_def word_gt_0 split: option.splits)

lemma unwrap_or_or_else: "unwrap_or d (or_else x y) = unwrap_or (unwrap_or d y) x"
  by (simp add: unwrap_or_def or_else_def split: option.split)

text \<open>The fields of the resolved configuration, by precedence: flag, environment, file.\<close>

lemma resolve_config_fields:
  assumes "resolve_config host args = Inr (cfg, source)"
  obtains fcfg where
    "load host (unwrap_or ''statemaster.toml'' (ag_config args)) (ag_config args \<noteq> None) = Inr (fcfg, source)"
    "cf_listen_addr cfg = unwrap_or (ss_listen_addr (fc_server fcfg)) (ag_listen args)"
    "cf_log_level cfg = unwrap_or (unwrap_or (ls_level (fc_logging fcfg)) (hs_env_var host ''SMDB_LOG_LEVEL''))
       (ag_log_level args)"
    "cf_tls_cert_path cfg = or_else (ag_tls_cert args) (ts_cert_path (fc_tls fcfg))"
    "cf_auth_tokens cfg = resolve_tokens host fcfg" "usable host cfg"
proof -
  from assms obtain fcfg where "load host (unwrap_or ''statemaster.toml'' (ag_config args)) (ag_config args \<noteq> None) =
      Inr (fcfg, source)" by (auto simp: resolve_config_def Let_def)
  with assms show ?thesis
    by (intro that [of fcfg])
      (auto simp: resolve_config_def Let_def validate_config_iff unwrap_or_or_else)
qed

lemmas default_config_defs = file_config_default_def server_section_default_def storage_section_default_def
  logging_section_default_def dispatcher_section_default_def

lemma default_addrs: "socket_addr ''0.0.0.0:7632''" "socket_addr ''0.0.0.0:7633''"
  by (simp_all add: socket_addr_def ipv4_addr_def ipv4_octet_def)


definition demo_host :: host where
  "demo_host = \<lparr>hs_read_to_string = (\<lambda>_. Inl IoNotFound), hs_toml = (\<lambda>_. Inl ''no toml''),
     hs_env_var = (\<lambda>_. None), hs_is_file = (\<lambda>_. False), hs_create_dir_all = (\<lambda>_. None),
     hs_bind = (\<lambda>_. None)\<rparr>"

definition demo_args :: args where
  "demo_args = \<lparr>ag_config = None, ag_listen = None, ag_metrics_addr = None, ag_data_dir = None,
     ag_log_level = None, ag_tls_cert = None, ag_tls_key = None\<rparr>"

definition demo_daemon_config :: config where
  "demo_daemon_config = \<lparr>cf_listen_addr = ''0.0.0.0:7632'', cf_metrics_addr = ''0.0.0.0:7633'',
     cf_data_dir = ''data'', cf_log_level = ''info'', cf_log_format = Json, cf_dispatcher_interval_ms = 100,
     cf_tls_cert_path = None, cf_tls_key_path = None, cf_auth_tokens = []\<rparr>"


section \<open>The daemon\<close>

lemma redb_open_same: "redb_open flt db = Inr db' \<Longrightarrow> db' = db"
  by (auto simp: redb_open_def ensure_tables_def write_tx_Inr_iff redb_do_Inr_iff split: prod.splits sum.splits)

lemma redb_open_no_fault: "redb_open no_fault db = Inr db"
  by (simp add: redb_open_def ensure_tables_def write_tx_no_fault)

lemma build_tls_config_None:
  "build_tls_config tls config = Inr None \<longleftrightarrow> sc_tls_cert_path config = None \<or> sc_tls_key_path config = None"
  by (auto simp: build_tls_config_def split: option.splits)

lemma daemon_start_Inr:
  assumes "daemon_start host tls flt files args = Inr (config, speaks_tls, s0)"
  obtains cfg source where
    "resolve_config host args = Inr (cfg, source)" "config = server_config_of cfg" "usable host cfg"
    "s0 = server_new (engine_new (files (join_path (cf_data_dir cfg) ''statemaster.redb'')))"
    "speaks_tls \<longleftrightarrow> cf_tls_cert_path cfg \<noteq> None"
proof -
  obtain cfg source where r: "resolve_config host args = Inr (cfg, source)"
    using assms by (cases "resolve_config host args") (auto simp: daemon_start_def)
  obtain db t where db: "redb_open flt (files (join_path (cf_data_dir cfg) ''statemaster.redb'')) = Inr db"
    and t: "build_tls_config tls (server_config_of cfg) = Inr t"
    and s: "config = server_config_of cfg" "speaks_tls = (t \<noteq> None)" "s0 = server_new (engine_new db)"
    using assms r by (auto simp: daemon_start_def Let_def split: option.splits if_splits)
  have "usable host cfg" using resolve_config_fields [OF r] by metis
  moreover have "t = None \<longleftrightarrow> cf_tls_cert_path cfg = None"
    using \<open>usable host cfg\<close> t build_tls_config_None [of tls "server_config_of cfg"]
    by (auto simp: usable_def server_config_of_def)
  ultimately show ?thesis
    using that [of cfg source] r s redb_open_same [OF db] by simp
qed


definition demo_tls :: "(unit, unit, unit, unit) tls_lib" where
  "demo_tls = \<lparr>tl_open = (\<lambda>_. Inl ''no file''), tl_certs = (\<lambda>_. []), tl_items = (\<lambda>_. []), tl_single_cert = (\<lambda>_ _. Inr ())\<rparr>"

lemma demo_resolved: "resolve_config demo_host demo_args = Inr (demo_daemon_config, Defaults)"
  by (simp add: resolve_config_def load_def unwrap_or_def or_else_def default_config_defs default_addrs
      resolve_tokens_def validate_config_def LEVELS_def Let_def
      demo_host_def demo_args_def demo_daemon_config_def)

lemma demo_started:
  "daemon_start demo_host demo_tls no_fault (\<lambda>_. empty_db :: blob db) demo_args =
     Inr (server_config_of demo_daemon_config, False, server_new (engine_new empty_db))"
  by (simp add: daemon_start_def demo_resolved redb_open_no_fault Let_def)
    (simp add: demo_host_def build_tls_config_def server_config_of_def demo_daemon_config_def redb_open_no_fault
      default_addrs)



text \<open>The example daemon receives the signal in its first step; then \<open>main\<close> sets the watch.\<close>

definition demo_daemon :: "blob db daemon" where
  "demo_daemon = daemon_new demo_host ''0.0.0.0:7633'' (server_new (engine_new empty_db))"


section \<open>The shell\<close>

lemma one_shot_run:
  assumes "one_shot lib (opss 0) (envs 0) line (engine_new db) = (r, eng)" and "line_ok lib (Line line)"
  shows "engine_run opss envs (engine_new db) 1 eng"
proof (cases "parse_command lib line")
  case (Inr cmd)
  obtain q out eng1 where ex: "execute lib (opss 0) (envs 0) (engine_new db) cmd = (q, out, eng1)" by (metis prod_cases3)
  with assms(1) Inr have "eng = eng1" by (auto simp: one_shot_def split: sum.splits)
  moreover have "case cmd of CmdTransition e m _ _ _ _ \<Rightarrow> nul_free e \<and> nul_free m | _ \<Rightarrow> True"
    using assms(2) Inr by (auto simp: line_ok_def split: cmd.splits)
  ultimately show ?thesis using execute_run [where opss = opss and envs = envs, OF run_start ex] by simp
qed (use assms(1) run_read [OF run_start, of opss envs "engine_new db"] in \<open>auto simp: one_shot_def\<close>)

lemma shell_main_run:
  assumes "shell_main lib host editor open_flt files (opss 0) (envs 0)
      (map (\<lambda>(i, l). (opss i, envs i, l)) (enumerate 0 lines)) args = (r, db)"
    and "list_all (line_ok lib) (case sa_command args of None \<Rightarrow> lines | Some line \<Rightarrow> [Line line])"
  obtains k eng where "k \<le> (if sa_command args = None then length lines else 1)" "db = en_storage eng"
    "engine_run opss envs (engine_new (files (join_path (sa_data_dir args) ''statemaster.redb''))) k eng"
proof -
  let ?db = "files (join_path (sa_data_dir args) ''statemaster.redb'')"
  let ?inputs = "map (\<lambda>(i, l). (opss i, envs i, l)) (enumerate 0 lines)"
  consider (early) "db = ?db"
    | (command) line q eng where "sa_command args = Some line"
        "one_shot lib (opss 0) (envs 0) line (engine_new ?db) = (q, eng)" "db = en_storage eng"
    | (session) out eng where "sa_command args = None" "repl_loop lib ?inputs (engine_new ?db) = (out, eng)" "db = en_storage eng"
    using assms(1)
    by (auto simp: shell_main_def run_repl_def engine_new_def Let_def
        split: option.splits sum.splits prod.splits dest!: redb_open_same)
  then show ?thesis
  proof cases
    case early
    with run_start show ?thesis by (intro that [of 0 "engine_new ?db"]) (simp_all add: engine_new_def)
  next
    case command
    with assms(2) one_shot_run [where opss = opss and envs = envs, OF command(2)] show ?thesis by (intro that [of 1 eng]) simp_all
  next
    case session
    with assms(2) repl_loop_run [where opss = opss and envs = envs, OF run_start _ session(2)] that show ?thesis by auto
  qed
qed


definition demo_shell_args :: shell_args where
  "demo_shell_args = \<lparr>sa_addr = ''localhost:7632'', sa_token = None, sa_data_dir = ''data'', sa_command = None\<rparr>"


section \<open>The administration tool\<close>

text \<open>Each subcommand on its own.\<close>

lemma ctl_error_no_change:
  "case ctl lib (redb_storage cd flt) env eng c of
     (Inl e, eng') \<Rightarrow> eng' = eng
   | (Inr out, eng') \<Rightarrow>
       (case c of
          TransitionCmd e m ev actor ctx expected \<Rightarrow>
            \<exists>a cv res. transition (redb_storage cd flt) env eng e m ev a cv expected None = (Inr res, eng') \<and>
              take 7 (tl out) =
                [''  Entity:    '' @ rs_entity_id res, ''  Machine:   '' @ rs_machine res,
                 ''  From:      '' @ rs_from_state res, ''  To:        '' @ rs_to_state res,
                 ''  Version:   '' @ show_nat (unat (rs_version res)), ''  Seq:       '' @ show_nat (unat (rs_sequence res)),
                 ''  Txn ID:    '' @ rs_transition_id res]
        | DefineCmd f \<Rightarrow> \<exists>d. define_machine (redb_storage cd flt) eng d = (Inr (), eng')
        | _ \<Rightarrow> eng' = eng)"
proof (cases c)
  case (TransitionCmd e m ev actor ctx expected)
  have "eng' = eng" if "transition (redb_storage cd flt) env eng e m ev a cv expected None = (Inl err, eng')" for a cv err eng'
    using transition_frame [where cd = cd and flt = flt and env = env and eng = eng and e = e and m = m and
        ev = ev and actor = a and ctx = cv and expected = expected and key = None] that by simp
  with TransitionCmd show ?thesis
    by (fastforce simp: ctl_def ctl_transition_def Let_def split: sum.splits prod.splits)
next
  case (DefineCmd f)
  have "eng' = eng" if "define_machine (redb_storage cd flt) eng d = (Inl err, eng')" for d err eng'
    using that
    by (auto simp: define_machine_def map_err_Inl_iff dest!: redb_atomic.store_machine_atomic [simplified]
        split: sum.splits prod.splits)
  with DefineCmd show ?thesis
    by (auto simp: ctl_def ctl_define_def split: sum.splits prod.splits)
qed (simp_all add: ctl_def split: sum.split)

text \<open>
  C40. \<open>smdbctl\<close> reports truthfully: whatever database calls fail, a run that ends with an error
  has left the stored tables as they were, and so has every run of a reading subcommand; and a
  transition that is printed as applied is one the engine carried out on the stored tables, printed
  with its states, version and sequence.
\<close>

theorem ctl_main_truthful:
  "case ctl_main lib host canonicalize path_exists cd open_flt flt files env args of
     (Inl e, db) \<Rightarrow> db = files (join_path (ca_data_dir args) ''statemaster.redb'')
   | (Inr out, db) \<Rightarrow>
       (case ca_command args of
          TransitionCmd e m ev actor ctx expected \<Rightarrow>
            \<exists>a cv res eng'. transition (redb_storage cd flt) env
                (engine_new (files (join_path (ca_data_dir args) ''statemaster.redb''))) e m ev a cv expected None =
                (Inr res, eng') \<and> db = en_storage eng' \<and>
              take 7 (tl out) =
                [''  Entity:    '' @ rs_entity_id res, ''  Machine:   '' @ rs_machine res,
                 ''  From:      '' @ rs_from_state res, ''  To:        '' @ rs_to_state res,
                 ''  Version:   '' @ show_nat (unat (rs_version res)), ''  Seq:       '' @ show_nat (unat (rs_sequence res)),
                 ''  Txn ID:    '' @ rs_transition_id res]
        | DefineCmd f \<Rightarrow> \<exists>d eng'. define_machine (redb_storage cd flt)
            (engine_new (files (join_path (ca_data_dir args) ''statemaster.redb''))) d = (Inr (), eng') \<and>
            db = en_storage eng'
        | _ \<Rightarrow> db = files (join_path (ca_data_dir args) ''statemaster.redb''))"
proof -
  let ?db = "files (join_path (ca_data_dir args) ''statemaster.redb'')"
  let ?c = "ca_command args"
  consider (early) r where "ctl_main lib host canonicalize path_exists cd open_flt flt files env args = (r, ?db)"
      "isl r \<or> ?c = Status"
    | (opened) r eng where "ctl lib (redb_storage cd flt) env (engine_new ?db) ?c = (r, eng)"
      "ctl_main lib host canonicalize path_exists cd open_flt flt files env args = (r, en_storage eng)"
  proof (cases "?c = Status \<or> hs_create_dir_all host (ca_data_dir args) \<noteq> None \<or> isl (redb_open open_flt ?db)")
    case True
    then show ?thesis
      by (intro that(1) [of "fst (ctl_main lib host canonicalize path_exists cd open_flt flt files env args)"])
        (auto simp: ctl_main_def Let_def split: option.split sum.split)
  next
    case False
    then obtain db where "redb_open open_flt ?db = Inr db" by (cases "redb_open open_flt ?db") auto
    with redb_open_same have op: "redb_open open_flt ?db = Inr ?db" by metis
    obtain r eng where run: "ctl lib (redb_storage cd flt) env (engine_new ?db) ?c = (r, eng)" by force
    from False op run show ?thesis by (intro that(2) [OF run]) (simp add: ctl_main_def Let_def)
  qed
  then show ?thesis
  proof cases
    case early
    then show ?thesis by (cases r) auto
  next
    case opened
    have stored: "en_storage (engine_new ?db) = ?db" by (simp add: engine_new_def)
    from opened ctl_error_no_change [where lib = lib and cd = cd and flt = flt and env = env
        and eng = "engine_new ?db" and c = ?c] show ?thesis
      by (auto simp: stored split: sum.splits command.splits)
  qed
qed

end
