(* ===== verification/Client.thy ===== *)
theory Client
  imports Server
begin

text \<open>
  The client library (\<open>crates/smdb-sdk/src\<close>: \<open>config.rs\<close>, \<open>error.rs\<close>, \<open>connection.rs\<close>,
  \<open>client.rs\<close>): configuration, handshake, the routing of server frames to waiting requests and
  subscriptions, the requests and the reading of their answers, and connecting with retries.
  A request that waits is known by its request identifier. The serialisers at the client's
  message types are the fields of the parameter \<open>cl\<close>.
\<close>

section \<open>Errors and configuration\<close>

datatype sdk_error =
  ConnectionFailed string
| AuthFailed string
| Timeout
| Rejected string string "string option" "u64 option"
| SdkProto proto_error
| SdkIo string
| Disconnected
| SdkInternal string

text \<open>Durations are in milliseconds.\<close>

record client_config =
  cg_addr :: string
  cg_token :: string
  cg_tls :: bool
  cg_pool_size :: nat
  cg_connect_timeout :: nat
  cg_request_timeout :: nat
  cg_max_retries :: u32

definition client_config_default :: client_config where
  "client_config_default = \<lparr>cg_addr = ''localhost:7632'', cg_token = [], cg_tls = False, cg_pool_size = 8,
     cg_connect_timeout = 5000, cg_request_timeout = 30000, cg_max_retries = 3\<rparr>"

definition client_builder_new :: "string \<Rightarrow> client_config" where
  "client_builder_new addr = client_config_default\<lparr>cg_addr := addr\<rparr>"

text \<open>The methods of \<open>ClientBuilder\<close>.\<close>

definition set_token :: "string \<Rightarrow> client_config \<Rightarrow> client_config" where
  "set_token token c = c\<lparr>cg_token := token\<rparr>"

definition set_tls :: "bool \<Rightarrow> client_config \<Rightarrow> client_config" where
  "set_tls tls c = c\<lparr>cg_tls := tls\<rparr>"

definition set_pool_size :: "nat \<Rightarrow> client_config \<Rightarrow> client_config" where
  "set_pool_size n c = c\<lparr>cg_pool_size := n\<rparr>"

definition set_connect_timeout :: "nat \<Rightarrow> client_config \<Rightarrow> client_config" where
  "set_connect_timeout t c = c\<lparr>cg_connect_timeout := t\<rparr>"

definition set_request_timeout :: "nat \<Rightarrow> client_config \<Rightarrow> client_config" where
  "set_request_timeout t c = c\<lparr>cg_request_timeout := t\<rparr>"

definition set_max_retries :: "u32 \<Rightarrow> client_config \<Rightarrow> client_config" where
  "set_max_retries n c = c\<lparr>cg_max_retries := n\<rparr>"

section \<open>Serialisers\<close>

record client_lib =
  cl_startup :: "startup_message \<Rightarrow> string + u8 list"
  cl_auth :: "auth_message \<Rightarrow> string + u8 list"
  cl_define_machine :: "define_machine_message \<Rightarrow> string + u8 list"
  cl_transition :: "transition_message \<Rightarrow> string + u8 list"
  cl_current :: "current_message \<Rightarrow> string + u8 list"
  cl_history :: "history_message \<Rightarrow> string + u8 list"
  cl_subscribe :: "subscribe_message \<Rightarrow> string + u8 list"
  cl_result :: "u8 list \<Rightarrow> string + result_message"
  cl_rejection :: "u8 list \<Rightarrow> string + rejection_message"
  cl_error :: "u8 list \<Rightarrow> string + error_message"
  cl_change_record :: "u8 list \<Rightarrow> string + change_record_message"
  cl_request_id :: "u8 list \<Rightarrow> u64 option"
  cl_state_value :: "json \<Rightarrow> string + entity_state"
  cl_records_value :: "json \<Rightarrow> string + transition_record list"
  cl_change_value :: "json \<Rightarrow> string + change_record"

section \<open>Handshake\<close>

text \<open>The two frames a client opens with.\<close>

definition startup_frame :: "client_lib \<Rightarrow> sdk_error + frame" where
  "startup_frame cl = map_err SdkProto (encode_message (cl_startup cl) Startup
     \<lparr>su_protocol_version = PROTOCOL_VERSION, su_capabilities = [''subscribe'', ''history'']\<rparr>)"

definition auth_frame :: "client_lib \<Rightarrow> client_config \<Rightarrow> sdk_error + frame" where
  "auth_frame cl config = map_err SdkProto (encode_message (cl_auth cl) Auth \<lparr>au_token = cg_token config\<rparr>)"

text \<open>
  What the client sees until it has both \<open>AuthOk\<close> and \<open>Ready\<close>; \<open>None\<close> is the timeout. The
  result is the rest of the stream, which the reader task takes over.
\<close>

fun await_ready ::
  "client_lib \<Rightarrow> bool \<Rightarrow> bool \<Rightarrow> stream_item option list \<Rightarrow> sdk_error + stream_item option list" where
  "await_ready cl got_auth_ok got_ready [] =
     (if got_auth_ok \<and> got_ready then Inr [] else Inl (ConnectionFailed ''handshake timeout''))"
| "await_ready cl got_auth_ok got_ready (event # rest) =
     (if got_auth_ok \<and> got_ready then Inr (event # rest)
      else
        (case event of
           None \<Rightarrow> Inl (ConnectionFailed ''handshake timeout'')
         | Some StreamEnd \<Rightarrow> Inl (ConnectionFailed ''server closed connection during handshake'')
         | Some (StreamError e) \<Rightarrow> Inl (ConnectionFailed (proto_error_display e))
         | Some (Item frame) \<Rightarrow>
             if fr_tag frame = AuthOk then await_ready cl True got_ready rest
             else if fr_tag frame = AuthError then
               Inl (AuthFailed
                 (case decode_message (cl_error cl) frame of
                    Inr msg \<Rightarrow> er_message msg | Inl _ \<Rightarrow> ''auth error''))
             else if fr_tag frame = Ready then await_ready cl got_auth_ok True rest
             else if fr_tag frame = Error then
               Inl (ConnectionFailed
                 (case decode_message (cl_error cl) frame of
                    Inr msg \<Rightarrow> er_message msg | Inl _ \<Rightarrow> ''server error''))
             else await_ready cl got_auth_ok got_ready rest))"

section \<open>The reader\<close>

text \<open>
  \<open>cs_pending\<close> are the identifiers of requests that wait, \<open>cs_answers\<close> what was sent into
  their one-shot channels, and \<open>cs_channels\<close> what was sent into each subscription's channel.
\<close>

record client_state =
  cs_next_request_id :: u64
  cs_pending :: "u64 set"
  cs_answers :: "u64 \<rightharpoonup> frame"
  cs_channels :: "string \<rightharpoonup> change_record list"
  cs_dead :: bool

definition client_state_new :: client_state where
  "client_state_new = \<lparr>cs_next_request_id = 1, cs_pending = {}, cs_answers = Map.empty,
     cs_channels = Map.empty, cs_dead = False\<rparr>"

text \<open>
  \<open>Connection::connect\<close>. The outside gives: how connecting the socket ends, whether a frame
  can be sent, and what the stream yields. A connection starts with a new state and the part of the
  stream the handshake has not consumed; \<open>fmt\<close> is the debug output of a duration.
\<close>

datatype tcp_outcome = Connected | ConnectError string | ConnectTimeout

definition send_frame :: "(frame \<Rightarrow> string option) \<Rightarrow> frame \<Rightarrow> sdk_error + unit" where
  "send_frame sink frame = (case sink frame of None \<Rightarrow> Inr () | Some e \<Rightarrow> Inl (ConnectionFailed e))"

definition connect ::
  "client_lib \<Rightarrow> (nat \<Rightarrow> string) \<Rightarrow> client_config \<Rightarrow> tcp_outcome \<Rightarrow> (frame \<Rightarrow> string option)
    \<Rightarrow> stream_item option list \<Rightarrow> sdk_error + client_state \<times> stream_item option list" where
  "connect cl fmt config tcp sink events =
     (case tcp of
        ConnectTimeout \<Rightarrow> Inl (ConnectionFailed (''connect timeout after '' @ fmt (cg_connect_timeout config)))
      | ConnectError e \<Rightarrow> Inl (ConnectionFailed e)
      | Connected \<Rightarrow>
          if cg_tls config
          then Inl (SdkInternal ''TLS support requires tokio-rustls integration (not yet wired)'')
          else
            rbind (startup_frame cl) (\<lambda>startup.
            rbind (send_frame sink startup) (\<lambda>_.
            rbind (auth_frame cl config) (\<lambda>auth.
            rbind (send_frame sink auth) (\<lambda>_.
            rbind (await_ready cl False False events) (\<lambda>rest.
            Inr (client_state_new, rest)))))))"

definition extract_request_id :: "client_lib \<Rightarrow> frame \<Rightarrow> u64 option" where
  "extract_request_id cl frame = cl_request_id cl (fr_body frame)"

definition settle :: "u64 option \<Rightarrow> frame \<Rightarrow> client_state \<Rightarrow> client_state" where
  "settle rid frame st =
     (case rid of
        None \<Rightarrow> st
      | Some r \<Rightarrow>
          if r \<in> cs_pending st
          then st\<lparr>cs_pending := cs_pending st - {r}, cs_answers := (cs_answers st)(r \<mapsto> frame)\<rparr>
          else st)"

definition route_frame :: "client_lib \<Rightarrow> frame \<Rightarrow> client_state \<Rightarrow> client_state" where
  "route_frame cl frame st =
     (if fr_tag frame \<in> {Result, Rejection, Error} then settle (extract_request_id cl frame) frame st
      else if fr_tag frame = ChangeRecord then
        (case decode_message (cl_change_record cl) frame of
           Inl _ \<Rightarrow> st
         | Inr msg \<Rightarrow>
             (case cs_channels st (cr_subscription_id msg) of
                None \<Rightarrow> st
              | Some records \<Rightarrow>
                  st\<lparr>cs_channels := (cs_channels st)(cr_subscription_id msg \<mapsto> records @ [cr_record msg])\<rparr>))
      else st)"

text \<open>The reader task has ended: all waiting senders are dropped.\<close>

definition reader_end :: "client_state \<Rightarrow> client_state" where
  "reader_end st = st\<lparr>cs_dead := True, cs_pending := {}\<rparr>"

fun reader :: "client_lib \<Rightarrow> stream_item list \<Rightarrow> client_state \<Rightarrow> client_state" where
  "reader cl [] st = st"
| "reader cl (Item frame # items) st = reader cl items (route_frame cl frame st)"
| "reader cl (StreamError e # items) st = reader_end st"
| "reader cl (StreamEnd # items) st = reader_end st"

section \<open>Requests\<close>

definition next_request_id :: "client_state \<Rightarrow> u64 \<times> client_state" where
  "next_request_id st = (cs_next_request_id st, st\<lparr>cs_next_request_id := cs_next_request_id st + 1\<rparr>)"

text \<open>
  \<open>send_request\<close> up to the write (\<open>written\<close> tells whether it succeeded), which registers a new
  one-shot channel, and its end: an answer, a dropped sender, or the timeout; \<open>None\<close> while it
  still waits.
\<close>

definition begin_request :: "bool \<Rightarrow> u64 \<Rightarrow> client_state \<Rightarrow> (sdk_error + unit) \<times> client_state" where
  "begin_request written request_id st =
     (if cs_dead st then (Inl Disconnected, st)
      else
        let st' = st\<lparr>cs_pending := insert request_id (cs_pending st),
                     cs_answers := (cs_answers st)(request_id := None)\<rparr> in
        (if written then Inr () else Inl Disconnected, st'))"

definition end_request ::
  "bool \<Rightarrow> u64 \<Rightarrow> client_state \<Rightarrow> (sdk_error + frame) option \<times> client_state" where
  "end_request elapsed request_id st =
     (case cs_answers st request_id of
        Some frame \<Rightarrow> (Some (Inr frame), st)
      | None \<Rightarrow>
          if request_id \<notin> cs_pending st then (Some (Inl Disconnected), st)
          else if elapsed then (Some (Inl Timeout), st\<lparr>cs_pending := cs_pending st - {request_id}\<rparr>)
          else (None, st))"

text \<open>
  The whole of \<open>send_request\<close>. What happens outside is the parameter \<open>net\<close>: of the frame sent it
  tells whether the write succeeds, what the reader task receives while the request waits,
  and whether the timeout elapses. A frame that expects no answer is only written.
\<close>

type_synonym network = "frame \<Rightarrow> bool \<times> stream_item list \<times> bool"

definition send_request ::
  "client_lib \<Rightarrow> network \<Rightarrow> frame_tag \<Rightarrow> u8 list \<Rightarrow> u64 \<Rightarrow> client_state
    \<Rightarrow> (sdk_error + frame) option \<times> client_state" where
  "send_request cl net tag body request_id st =
     (case net \<lparr>fr_tag = tag, fr_body = body\<rparr> of (written, items, elapsed) \<Rightarrow>
        (case begin_request written request_id st of
           (Inl e, st') \<Rightarrow> (Some (Inl e), st')
         | (Inr _, st') \<Rightarrow> end_request elapsed request_id (reader cl items st')))"

definition send_fire_and_forget :: "network \<Rightarrow> frame_tag \<Rightarrow> u8 list \<Rightarrow> sdk_error + unit" where
  "send_fire_and_forget net tag body =
     (case net \<lparr>fr_tag = tag, fr_body = body\<rparr> of (written, _) \<Rightarrow> if written then Inr () else Inl Disconnected)"

section \<open>The frames of requests and the reading of answers\<close>

definition define_machine_frame :: "client_lib \<Rightarrow> u64 \<Rightarrow> machine_definition \<Rightarrow> sdk_error + frame" where
  "define_machine_frame cl request_id definition =
     map_err SdkProto (encode_message (cl_define_machine cl) DefineMachine
       \<lparr>dm_request_id = request_id, dm_name = md_name definition, dm_version = md_version definition,
        dm_definition = definition\<rparr>)"

definition current_frame :: "client_lib \<Rightarrow> u64 \<Rightarrow> entity_id \<Rightarrow> machine_name \<Rightarrow> sdk_error + frame" where
  "current_frame cl request_id entity_id machine =
     map_err SdkProto (encode_message (cl_current cl) Current
       \<lparr>cm_request_id = request_id, cm_entity_id = entity_id, cm_machine = machine\<rparr>)"

record history_builder =
  hb_entity_id :: entity_id
  hb_machine :: machine_name
  hb_limit :: "u32 option"
  hb_after_sequence :: "u64 option"

definition client_history :: "entity_id \<Rightarrow> machine_name \<Rightarrow> history_builder" where
  "client_history entity_id machine =
     \<lparr>hb_entity_id = entity_id, hb_machine = machine, hb_limit = None, hb_after_sequence = None\<rparr>"

definition set_limit :: "u32 \<Rightarrow> history_builder \<Rightarrow> history_builder" where
  "set_limit limit b = b\<lparr>hb_limit := Some limit\<rparr>"

definition set_after_sequence :: "u64 \<Rightarrow> history_builder \<Rightarrow> history_builder" where
  "set_after_sequence sq b = b\<lparr>hb_after_sequence := Some sq\<rparr>"

definition history_frame :: "client_lib \<Rightarrow> u64 \<Rightarrow> history_builder \<Rightarrow> sdk_error + frame" where
  "history_frame cl request_id b =
     map_err SdkProto (encode_message (cl_history cl) History
       \<lparr>hm_request_id = request_id, hm_entity_id = hb_entity_id b, hm_machine = hb_machine b,
        hm_limit = hb_limit b, hm_after_sequence = hb_after_sequence b\<rparr>)"

record transition_builder =
  tb_entity_id :: entity_id
  tb_machine :: machine_name
  tb_event :: event_name
  tb_expected_version :: "u64 option"
  tb_ctx :: json
  tb_actor :: actor_id
  tb_idempotency_key :: "string option"

definition client_transition :: "entity_id \<Rightarrow> machine_name \<Rightarrow> event_name \<Rightarrow> transition_builder" where
  "client_transition entity_id machine event = \<lparr>tb_entity_id = entity_id, tb_machine = machine,
     tb_event = event, tb_expected_version = None, tb_ctx = JNull, tb_actor = [], tb_idempotency_key = None\<rparr>"

text \<open>The methods of the two request builders.\<close>

definition set_expected_version :: "u64 \<Rightarrow> transition_builder \<Rightarrow> transition_builder" where
  "set_expected_version version b = b\<lparr>tb_expected_version := Some version\<rparr>"

definition set_ctx :: "json \<Rightarrow> transition_builder \<Rightarrow> transition_builder" where
  "set_ctx ctx b = b\<lparr>tb_ctx := ctx\<rparr>"

definition set_actor :: "actor_id \<Rightarrow> transition_builder \<Rightarrow> transition_builder" where
  "set_actor actor b = b\<lparr>tb_actor := actor\<rparr>"

definition set_idempotency_key :: "string \<Rightarrow> transition_builder \<Rightarrow> transition_builder" where
  "set_idempotency_key key b = b\<lparr>tb_idempotency_key := Some key\<rparr>"

definition transition_frame_of :: "client_lib \<Rightarrow> u64 \<Rightarrow> transition_builder \<Rightarrow> sdk_error + frame" where
  "transition_frame_of cl request_id b =
     map_err SdkProto (encode_message (cl_transition cl) Transition
       \<lparr>tm_request_id = request_id, tm_entity_id = tb_entity_id b, tm_machine = tb_machine b,
        tm_event = tb_event b, tm_expected_version = tb_expected_version b,
        tm_idempotency_key = tb_idempotency_key b, tm_ctx = tb_ctx b, tm_actor = tb_actor b\<rparr>)"

text \<open>The three arms every answer has besides \<open>Result\<close>.\<close>

definition refused :: "client_lib \<Rightarrow> frame \<Rightarrow> sdk_error" where
  "refused cl frame =
     (if fr_tag frame = Rejection then
        (case decode_message (cl_rejection cl) frame of
           Inl e \<Rightarrow> SdkProto e
         | Inr rej \<Rightarrow> Rejected (rj_code rej) (rj_message rej) (rj_current_state rej) (rj_version rej))
      else if fr_tag frame = Error then
        SdkInternal (case decode_message (cl_error cl) frame of
           Inr msg \<Rightarrow> er_message msg | Inl _ \<Rightarrow> ''unknown server error'')
      else SdkInternal (''unexpected response tag: '' @ tag_debug (fr_tag frame)))"

definition define_machine_response :: "client_lib \<Rightarrow> frame \<Rightarrow> sdk_error + unit" where
  "define_machine_response cl frame = (if fr_tag frame = Result then Inr () else Inl (refused cl frame))"

definition decode_result_payload ::
  "client_lib \<Rightarrow> (json \<Rightarrow> string + 'a) \<Rightarrow> frame \<Rightarrow> sdk_error + 'a" where
  "decode_result_payload cl from_value frame =
     (if fr_tag frame = Result then
        rbind (map_err SdkProto (decode_message (cl_result cl) frame)) (\<lambda>result_msg.
          map_err (\<lambda>e. SdkInternal (''deserialize payload: '' @ e)) (from_value (re_payload result_msg)))
      else Inl (refused cl frame))"

record transition_response =
  tp_entity_id :: string
  tp_machine :: string
  tp_from_state :: string
  tp_to_state :: string
  tp_version :: u64
  tp_transition_id :: string
  tp_sequence :: u64
  tp_timestamp :: datetime

definition transition_response_of :: "client_lib \<Rightarrow> frame \<Rightarrow> sdk_error + transition_response" where
  "transition_response_of cl frame =
     (if fr_tag frame = Result then
        rbind (map_err SdkProto (decode_message (cl_result cl) frame)) (\<lambda>result_msg.
        rbind (map_err (\<lambda>e. SdkInternal (''deserialize transition result: '' @ e))
                 (cl_change_value cl (re_payload result_msg))) (\<lambda>cr.
        Inr \<lparr>tp_entity_id = cr_entity_id cr, tp_machine = cr_machine cr,
             tp_from_state = cr_from_state cr, tp_to_state = cr_to_state cr, tp_version = cr_version cr,
             tp_transition_id = cr_transition_id cr, tp_sequence = cr_sequence cr,
             tp_timestamp = cr_timestamp cr\<rparr>))
      else Inl (refused cl frame))"

section \<open>Calls\<close>

text \<open>
  The calls of the public interface on the connection \<open>conn\<close> returns: encode the request (the first
  error ends the call), send it, and read the answer.
\<close>

definition client_call ::
  "client_lib \<Rightarrow> network \<Rightarrow> (u64 \<Rightarrow> sdk_error + frame) \<Rightarrow> (frame \<Rightarrow> sdk_error + 'a) \<Rightarrow> client_state
    \<Rightarrow> (sdk_error + 'a) option \<times> client_state" where
  "client_call cl net encode_request read_answer st =
     (case next_request_id st of (request_id, st1) \<Rightarrow>
        (case encode_request request_id of
           Inl e \<Rightarrow> (Some (Inl e), st1)
         | Inr frame \<Rightarrow>
             (case send_request cl net (fr_tag frame) (fr_body frame) request_id st1 of
                (r, st2) \<Rightarrow> (map_option (\<lambda>r. rbind r read_answer) r, st2))))"

definition define_machine_call ::
  "client_lib \<Rightarrow> network \<Rightarrow> machine_definition \<Rightarrow> client_state \<Rightarrow> (sdk_error + unit) option \<times> client_state" where
  "define_machine_call cl net definition =
     client_call cl net (\<lambda>request_id. define_machine_frame cl request_id definition) (define_machine_response cl)"

definition current_call ::
  "client_lib \<Rightarrow> network \<Rightarrow> entity_id \<Rightarrow> machine_name \<Rightarrow> client_state
    \<Rightarrow> (sdk_error + entity_state) option \<times> client_state" where
  "current_call cl net entity_id machine =
     client_call cl net (\<lambda>request_id. current_frame cl request_id entity_id machine)
       (decode_result_payload cl (cl_state_value cl))"

definition transition_send ::
  "client_lib \<Rightarrow> network \<Rightarrow> transition_builder \<Rightarrow> client_state
    \<Rightarrow> (sdk_error + transition_response) option \<times> client_state" where
  "transition_send cl net b =
     client_call cl net (\<lambda>request_id. transition_frame_of cl request_id b) (transition_response_of cl)"

definition history_send ::
  "client_lib \<Rightarrow> network \<Rightarrow> history_builder \<Rightarrow> client_state
    \<Rightarrow> (sdk_error + transition_record list) option \<times> client_state" where
  "history_send cl net b =
     client_call cl net (\<lambda>request_id. history_frame cl request_id b)
       (decode_result_payload cl (cl_records_value cl))"

section \<open>Subscriptions\<close>

text \<open>The channel is registered before the frame is sent, and removed when the server refuses.\<close>

definition subscribe_begin ::
  "client_lib \<Rightarrow> u64 \<Rightarrow> string \<Rightarrow> string option \<Rightarrow> u64 \<Rightarrow> client_state
    \<Rightarrow> (sdk_error + frame) \<times> client_state" where
  "subscribe_begin cl request_id subscription_id machine_filter after_sequence st =
     (map_err SdkProto (encode_message (cl_subscribe cl) Subscribe
        \<lparr>sm_request_id = request_id, sm_subscription_id = subscription_id,
         sm_machine_filter = machine_filter, sm_after_sequence = after_sequence\<rparr>),
      st\<lparr>cs_channels := (cs_channels st)(subscription_id \<mapsto> [])\<rparr>)"

definition subscribe_response ::
  "client_lib \<Rightarrow> string \<Rightarrow> frame \<Rightarrow> client_state \<Rightarrow> (sdk_error + string) \<times> client_state" where
  "subscribe_response cl subscription_id frame st =
     (if fr_tag frame = Result then (Inr subscription_id, st)
      else (Inl (refused cl frame),
            if fr_tag frame \<in> {Rejection, Error}
            then st\<lparr>cs_channels := (cs_channels st)(subscription_id := None)\<rparr> else st))"

definition subscribe_call ::
  "client_lib \<Rightarrow> network \<Rightarrow> string \<Rightarrow> string option \<Rightarrow> u64 \<Rightarrow> client_state
    \<Rightarrow> (sdk_error + string) option \<times> client_state" where
  "subscribe_call cl net subscription_id machine_filter after_sequence st =
     (case next_request_id st of (request_id, st1) \<Rightarrow>
        (case subscribe_begin cl request_id subscription_id machine_filter after_sequence st1 of
           (Inl e, st2) \<Rightarrow> (Some (Inl e), st2)
         | (Inr frame, st2) \<Rightarrow>
             (case send_request cl net (fr_tag frame) (fr_body frame) request_id st2 of
                (None, st3) \<Rightarrow> (None, st3)
              | (Some (Inl e), st3) \<Rightarrow> (Some (Inl e), st3)
              | (Some (Inr resp), st3) \<Rightarrow>
                  (case subscribe_response cl subscription_id resp st3 of (r, st4) \<Rightarrow> (Some r, st4)))))"

text \<open>
  \<open>Subscription::next\<close>: \<open>Some (Some r)\<close> is the next record, \<open>Some None\<close> the end of the stream once
  the sender is dropped, and \<open>None\<close> means that the caller waits.
\<close>

definition subscription_next :: "string \<Rightarrow> client_state \<Rightarrow> change_record option option \<times> client_state" where
  "subscription_next subscription_id st =
     (case cs_channels st subscription_id of
        None \<Rightarrow> (Some None, st)
      | Some [] \<Rightarrow> (None, st)
      | Some (r # records) \<Rightarrow>
          (Some (Some r), st\<lparr>cs_channels := (cs_channels st)(subscription_id \<mapsto> records)\<rparr>))"

section \<open>Connecting with retries\<close>

text \<open>The base delay of an attempt, and the loop: the result and the delays slept.\<close>

definition base_ms :: "u32 \<Rightarrow> u64" where
  "base_ms attempt = 100 * 2 ^ unat (min attempt 6)"

partial_function (option) connect_loop ::
  "(u32 \<Rightarrow> sdk_error + 'c) \<Rightarrow> (u32 \<Rightarrow> u64) \<Rightarrow> u32 \<Rightarrow> u32 \<Rightarrow> sdk_error
    \<Rightarrow> ((sdk_error + 'c) \<times> u64 list) option" where
  "connect_loop try_connect jitter max_retries attempt last_err =
     (if attempt \<le> max_retries then
        (case try_connect attempt of
           Inr conn \<Rightarrow> Some (Inr conn, [])
         | Inl e \<Rightarrow>
             Option.bind (connect_loop try_connect jitter max_retries (attempt + 1) e) (\<lambda>(r, delays).
               Some (r, (if attempt < max_retries then [base_ms attempt + jitter attempt] else []) @ delays)))
      else Some (Inl last_err, []))"

definition connect_with_retry ::
  "(u32 \<Rightarrow> sdk_error + 'c) \<Rightarrow> (u32 \<Rightarrow> u64) \<Rightarrow> client_config \<Rightarrow> ((sdk_error + 'c) \<times> u64 list) option" where
  "connect_with_retry try_connect jitter config =
     connect_loop try_connect jitter (cg_max_retries config) 0 (SdkInternal ''no attempts made'')"

text \<open>\<open>Client::connect\<close>; all clones of a client share its one connection, which \<open>conn\<close> returns as it is.\<close>

record client =
  ct_config :: client_config
  ct_connection :: client_state

definition client_connect ::
  "(u32 \<Rightarrow> sdk_error + client_state) \<Rightarrow> (u32 \<Rightarrow> u64) \<Rightarrow> client_config
    \<Rightarrow> ((sdk_error + client) \<times> u64 list) option" where
  "client_connect try_connect jitter config =
     Option.bind (connect_with_retry try_connect jitter config) (\<lambda>(r, delays).
       Some (rbind r (\<lambda>conn. Inr \<lparr>ct_config = config, ct_connection = conn\<rparr>), delays))"

definition conn_of :: "client \<Rightarrow> client_state" where
  "conn_of client = ct_connection client"

end
