(* ===== verification/Client_Props.thy ===== *)
theory Client_Props
  imports Client Server_Props
begin

text \<open>
  The properties of the client library: answers reach the requests they belong to and
  records their subscriptions, what client and server do together, and how often and how
  long a client retries.
\<close>

section \<open>Routing\<close>

definition answers_to :: "client_lib \<Rightarrow> u64 \<Rightarrow> frame \<Rightarrow> bool" where
  "answers_to cl rid f \<longleftrightarrow> fr_tag f \<in> {Result, Rejection, Error} \<and> extract_request_id cl f = Some rid"

text \<open>The records a sequence of frames carries for a subscription.\<close>

fun records_for :: "client_lib \<Rightarrow> string \<Rightarrow> frame list \<Rightarrow> change_record list" where
  "records_for cl sid [] = []"
| "records_for cl sid (f # fs) =
     (case decode_message (cl_change_record cl) f of
        Inr msg \<Rightarrow>
          if fr_tag f = ChangeRecord \<and> cr_subscription_id msg = sid then cr_record msg # records_for cl sid fs
          else records_for cl sid fs
      | Inl _ \<Rightarrow> records_for cl sid fs)"

lemma route_frame_answers:
  "cs_answers (route_frame cl f st) rid =
     (if rid \<in> cs_pending st \<and> answers_to cl rid f then Some f else cs_answers st rid)"
  "rid \<in> cs_pending (route_frame cl f st) \<longleftrightarrow> rid \<in> cs_pending st \<and> \<not> answers_to cl rid f"
  by (auto simp: route_frame_def settle_def answers_to_def split: option.splits sum.splits)

lemma route_frame_channels:
  "cs_channels st sid = Some ch \<Longrightarrow> cs_channels (route_frame cl f st) sid = Some (ch @ records_for cl sid [f])"
  by (auto simp: route_frame_def settle_def split: option.splits sum.splits)

lemma reader_settled:
  "rid \<notin> cs_pending st \<Longrightarrow>
   cs_answers (reader cl (map Item fs) st) rid = cs_answers st rid \<and> rid \<notin> cs_pending (reader cl (map Item fs) st)"
  by (induction fs arbitrary: st) (simp_all add: route_frame_answers)

lemma reader_answers:
  "rid \<in> cs_pending st \<Longrightarrow> cs_answers st rid = None \<Longrightarrow>
   cs_answers (reader cl (map Item fs) st) rid = find (answers_to cl rid) fs \<and>
   (rid \<in> cs_pending (reader cl (map Item fs) st) \<longleftrightarrow> find (answers_to cl rid) fs = None)"
proof (induction fs arbitrary: st)
  case Nil
  then show ?case by simp
next
  case (Cons f fs)
  show ?case
  proof (cases "answers_to cl rid f")
    case True
    with Cons.prems reader_settled [of rid "route_frame cl f st" cl fs] show ?thesis
      by (simp add: route_frame_answers)
  next
    case False
    with Cons.prems Cons.IH [of "route_frame cl f st"] show ?thesis
      by (simp add: route_frame_answers)
  qed
qed

lemma records_for_Cons: "records_for cl sid (f # fs) = records_for cl sid [f] @ records_for cl sid fs"
  by (simp split: sum.split)

lemma reader_channels:
  "cs_channels st sid = Some ch \<Longrightarrow>
   cs_channels (reader cl (map Item fs) st) sid = Some (ch @ records_for cl sid fs)"
proof (induction fs arbitrary: st ch)
  case Nil
  then show ?case by simp
next
  case (Cons f fs)
  from Cons.IH [OF route_frame_channels [OF Cons.prems]] show ?case
    by (simp only: list.map reader.simps records_for_Cons [of cl sid f fs] append_assoc)
qed

text \<open>A client library in which a body is the request identifier, for the example.\<close>

definition demo_client :: client_lib where
  "demo_client = \<lparr>cl_startup = (\<lambda>m. Inr [0]), cl_auth = (\<lambda>m. Inr (as_bytes (au_token m))),
     cl_define_machine = (\<lambda>m. Inr []), cl_transition = (\<lambda>m. Inr []), cl_current = (\<lambda>m. Inr []),
     cl_history = (\<lambda>m. Inr []), cl_subscribe = (\<lambda>m. Inr []),
     cl_result = (\<lambda>b. Inr \<lparr>re_request_id = ucast (hd b), re_payload = JNull\<rparr>),
     cl_rejection = (\<lambda>b. Inl ''eof''), cl_error = (\<lambda>b. Inl ''eof''), cl_change_record = demo_from_slice,
     cl_request_id = (\<lambda>b. if b = [] then None else Some (ucast (hd b))),
     cl_state_value = (\<lambda>v. Inl ''missing field''), cl_records_value = (\<lambda>v. Inl ''missing field''),
     cl_change_value = (\<lambda>v. Inl ''missing field'')\<rparr>"

definition demo_waiting :: client_state where
  "demo_waiting = client_state_new\<lparr>cs_pending := {1, 2}, cs_channels := [''s1'' \<mapsto> []]\<rparr>"

section \<open>Client and server together\<close>

text \<open>
  A network with the server at its other end: every frame is written and the reader receives
  what the server writes in answer, after the frames \<open>before\<close> that were under way.
\<close>

definition server_net ::
  "codecs \<Rightarrow> 's storage_engine \<Rightarrow> env \<Rightarrow> session \<Rightarrow> 's engine \<Rightarrow> server_metrics \<Rightarrow> frame list \<Rightarrow> bool \<Rightarrow> network" where
  "server_net lib ops env session eng metrics before elapsed f =
     (True, map Item (before @ fst (snd (on_request lib ops env (\<lambda>_. None) False session eng metrics (Item f)))), elapsed)"

text \<open>A call on a live connection: the first answer with its identifier, or the timeout.\<close>

lemma send_request_answered:
  fixes cl rid
  assumes "\<not> cs_dead st" and "net \<lparr>fr_tag = t, fr_body = b\<rparr> = (True, map Item frames, elapsed)"
  defines "st1 \<equiv> reader cl (map Item frames) (st\<lparr>cs_pending := insert rid (cs_pending st),
    cs_answers := (cs_answers st)(rid := None)\<rparr>)"
  shows "send_request cl net t b rid st =
    (case find (answers_to cl rid) frames of
       Some g \<Rightarrow> (Some (Inr g), st1)
     | None \<Rightarrow> if elapsed then (Some (Inl Timeout), st1\<lparr>cs_pending := cs_pending st1 - {rid}\<rparr>) else (None, st1))"
proof -
  let ?st = "st\<lparr>cs_pending := insert rid (cs_pending st), cs_answers := (cs_answers st)(rid := None)\<rparr>"
  have "rid \<in> cs_pending ?st" "cs_answers ?st rid = None" by simp_all
  from reader_answers [OF this, of cl frames] assms show ?thesis
    by (auto simp: send_request_def begin_request_def end_request_def Let_def split: option.splits)
qed

lemma client_call_answered:
  assumes "\<not> cs_dead st" and "encode_request (cs_next_request_id st) = Inr f"
    and "net f = (True, map Item frames, elapsed)"
  shows "fst (client_call cl net encode_request read_answer st) =
    (case find (answers_to cl (cs_next_request_id st)) frames of
       Some g \<Rightarrow> Some (read_answer g)
     | None \<Rightarrow> if elapsed then Some (Inl Timeout) else None)"
proof -
  have "net \<lparr>fr_tag = fr_tag f, fr_body = fr_body f\<rparr> = (True, map Item frames, elapsed)"
    using assms(3) by (cases f) simp
  from send_request_answered [where net = net and cl = cl and rid = "cs_next_request_id st", OF _ this,
      of "st\<lparr>cs_next_request_id := cs_next_request_id st + 1\<rparr>"] assms(1,2)
  show ?thesis by (auto simp: client_call_def next_request_id_def split: option.splits prod.splits)
qed

lemma find_append_None: "\<forall>x \<in> set xs. \<not> P x \<Longrightarrow> find P (xs @ ys) = find P ys"
  by (induction xs) auto

text \<open>
  C19. Reading the current state end to end: when the engine has the entity's state, a client
  with a live connection that calls \<open>current\<close> gets that very state. Its frame makes the server
  answer with one frame, and whatever other frames arrive first, the reader hands this one to
  the call, which decodes it. The serialisers are assumed to read back the three values that
  cross the wire and the request identifier.
\<close>

theorem client_current_end_to_end:
  assumes "current ops eng e m = Inr state"
    and "\<not> cs_dead st" and "cs_next_request_id st = rid"
    and "cl_current cl \<lparr>cm_request_id = rid, cm_entity_id = e, cm_machine = m\<rparr> = Inr b"
    and "from_current lib b = Inr \<lparr>cm_request_id = rid, cm_entity_id = e, cm_machine = m\<rparr>"
    and "state_to_value lib state = Inr v" and "cl_state_value cl v = Inr state"
    and "to_result lib \<lparr>re_request_id = rid, re_payload = v\<rparr> = Inr b'"
    and "cl_result cl b' = Inr \<lparr>re_request_id = rid, re_payload = v\<rparr>" and "cl_request_id cl b' = Some rid"
    and "\<forall>f \<in> set before. \<not> answers_to cl rid f"
  shows "fst (current_call cl (server_net lib ops env session eng metrics before elapsed) e m st) = Some (Inr state)"
proof -
  let ?f = "\<lparr>fr_tag = Current, fr_body = b\<rparr>" and ?g = "\<lparr>fr_tag = Result, fr_body = b'\<rparr>"
  have f: "current_frame cl (cs_next_request_id st) e m = Inr ?f"
    using assms(3,4) by (simp add: current_frame_def)
  have net: "server_net lib ops env session eng metrics before elapsed ?f = (True, map Item (before @ [?g]), elapsed)"
    using assms by (simp add: server_net_def on_request_def handle_frame_def handle_current_def decode_message_def
        result_reply_def)
  have "find (answers_to cl rid) (before @ [?g]) = Some ?g"
    using assms(10,11) by (simp add: find_append_None answers_to_def extract_request_id_def)
  moreover have "decode_result_payload cl (cl_state_value cl) ?g = Inr state"
    using assms(7,9) by (simp add: decode_result_payload_def decode_message_def)
  ultimately show ?thesis
    using client_call_answered [where encode_request = "\<lambda>rid. current_frame cl rid e m" and cl = cl and
        read_answer = "decode_result_payload cl (cl_state_value cl)" and
        net = "server_net lib ops env session eng metrics before elapsed", OF assms(2) f net] assms(3)
    by (simp add: current_call_def)
qed

text \<open>The example database after one transition, and a client whose request 9 waits.\<close>

lemma demo_eng2_store:
  obtains st where "represents blob_codec (en_storage demo_eng2) st"
    "transition_spec demo_store1 registry_new (demo_envs 1) ''gate'' ''turnstile'' ''coin'' ''alice'' JNull None
       (Some ''k1'') = Inr (demo_result, st)"
    "st_states st (''gate'', ''turnstile'') \<noteq> None" "length (log_after st 0) = 1"
proof -
  have nul: "nul_free ''gate''" "nul_free ''turnstile''" by (simp_all add: nul_free_def)
  obtain st where spec: "transition_spec demo_store1 registry_new (demo_envs 1) ''gate'' ''turnstile'' ''coin''
      ''alice'' JNull None (Some ''k1'') = Inr (demo_result, st)" using demo_spec by blast
  then have some: "st_states st (''gate'', ''turnstile'') \<noteq> None" "length (log_after st 0) = 1"
    by (auto simp: transition_spec_def demo_store1_def empty_store_def keyed_record_def turnstile_def state_of_def
        version_of_def rule_fires_def registry_evaluate_def registry_new_def Let_def spec_state_def spec_record_def
        commit_store_def log_after_def next_seq_def)
  then have "st \<noteq> demo_store1" by (auto simp: demo_store1_def empty_store_def)
  then have "\<exists>s'. represents blob_codec s' st \<and> demo_eng2 = demo_eng1\<lparr>en_storage := s', en_notify := True\<rparr>"
    using redb.transition_refines_spec [OF demo_store1_rep demo_store1_consistent nul demo_envs_good
        demo_store1_drawn _ demo_eng1_fields(2), of "''coin''" "''alice''" JNull None "Some ''k1''"] spec demo_first
    by (auto simp: demo_eng1_fields(1))
  then obtain s' where s': "represents blob_codec s' st"
    and eq: "demo_eng2 = demo_eng1\<lparr>en_storage := s', en_notify := True\<rparr>" by blast
  have "en_storage demo_eng2 = s'" using arg_cong [OF eq, of en_storage] by simp
  with s' that spec some show ?thesis by simp
qed

lemma demo_eng2_current: "\<exists>s. current demo_ops demo_eng2 ''gate'' ''turnstile'' = Inr s"
proof -
  obtain st where "represents blob_codec (en_storage demo_eng2) st" "st_states st (''gate'', ''turnstile'') \<noteq> None"
    by (rule demo_eng2_store)
  from get_entity_state_rep [OF this(1), of "''gate''" "''turnstile''"] this(2) show ?thesis
    by (auto simp: current_def nul_free_def)
qed

lemma demo_eng1_current: "\<exists>e. current demo_ops demo_eng1 ''gate'' ''turnstile'' = Inl e"
  using get_entity_state_rep [OF demo_store1_rep, of "''gate''" "''turnstile''"]
  by (simp add: current_def nul_free_def demo_store1_def empty_store_def)

definition demo_client9 :: "entity_state \<Rightarrow> client_lib" where
  "demo_client9 s = demo_client\<lparr>cl_result := (\<lambda>b. Inr \<lparr>re_request_id = 9, re_payload = JNull\<rparr>),
     cl_request_id := (\<lambda>b. if b = [1] then Some 9 else None), cl_state_value := (\<lambda>v. Inr s)\<rparr>"

definition demo_ready9 :: client_state where
  "demo_ready9 = client_state_new\<lparr>cs_next_request_id := 9\<rparr>"

theorem client_current_end_to_end_witness:
  "\<exists>s. current demo_ops demo_eng2 ''gate'' ''turnstile'' = Inr s \<and>
     fst (current_call (demo_client9 s)
       (server_net demo_lib demo_ops (demo_envs 5) demo_session demo_eng2 demo_metrics
          [\<lparr>fr_tag = Pong, fr_body = []\<rparr>] False) ''gate'' ''turnstile'' demo_ready9) = Some (Inr s)"
proof -
  obtain s where s: "current demo_ops demo_eng2 ''gate'' ''turnstile'' = Inr s" using demo_eng2_current by blast
  have "\<not> cs_dead demo_ready9" "cs_next_request_id demo_ready9 = 9"
    by (simp_all add: demo_ready9_def client_state_new_def)
  from client_current_end_to_end [where cl = "demo_client9 s" and b = "[]" and lib = demo_lib and v = JNull
      and b' = "[1]" and before = "[\<lparr>fr_tag = Pong, fr_body = []\<rparr>]" and env = "demo_envs 5" and
      session = demo_session and metrics = demo_metrics and elapsed = False, OF s this] s
  show ?thesis by (auto simp: demo_client9_def demo_client_def demo_lib_def answers_to_def)
qed



text \<open>
  C38. No transition succeeds for the client. The server's payload has the keys \<open>from\<close>, \<open>state\<close>
  and \<open>ts\<close>, but the client reads it as a \<open>ChangeRecord\<close>, whose deserialiser requires among
  others the field \<open>from_state\<close>. So whenever the server carries a client's transition out and
  commits it, the client's call returns an internal error. The other serialisers are
  assumed to read back what crosses the wire.
\<close>

theorem client_transition_unreadable:
  assumes "\<forall>v cr. cl_change_value cl v = Inr cr \<longrightarrow> (\<exists>fields. v = JObject fields \<and> ''from_state'' \<in> fst ` set fields)"
    and "transition ops env eng (tb_entity_id t) (tb_machine t) (tb_event t) (tb_actor t) (tb_ctx t)
           (tb_expected_version t) (tb_idempotency_key t) = (Inr res, eng')"
    and "\<not> cs_dead st" and "cs_next_request_id st = rid"
    and "transition_frame_of cl rid t = Inr f" and "from_transition lib (fr_body f) = Inr
      \<lparr>tm_request_id = rid, tm_entity_id = tb_entity_id t, tm_machine = tb_machine t, tm_event = tb_event t,
       tm_expected_version = tb_expected_version t, tm_idempotency_key = tb_idempotency_key t, tm_ctx = tb_ctx t,
       tm_actor = tb_actor t\<rparr>"
    and "to_result lib \<lparr>re_request_id = rid, re_payload = transition_payload lib res\<rparr> = Inr b"
    and "cl_result cl b = Inr \<lparr>re_request_id = rid, re_payload = transition_payload lib res\<rparr>"
    and "cl_request_id cl b = Some rid"
  shows "(\<exists>e. fst (transition_send cl (server_net lib ops env session eng metrics [] elapsed) t st) =
      Some (Inl (SdkInternal (''deserialize transition result: '' @ e)))) \<and>
    fst (snd (snd (on_request lib ops env (\<lambda>_. None) False session eng metrics (Item f)))) = eng'"
proof -
  let ?g = "\<lparr>fr_tag = Result, fr_body = b\<rparr>"
  obtain e where e: "cl_change_value cl (transition_payload lib res) = Inl e"
    using assms(1) by (cases "cl_change_value cl (transition_payload lib res)") (force simp: transition_payload_def)+
  have "fr_tag f = Transition"
    using assms(5) by (auto simp: transition_frame_of_def encode_message_def map_err_Inr_iff split: sum.splits)
  then have run: "on_request lib ops env (\<lambda>_. None) False session eng metrics (Item f) =
      (Serving session, [?g], eng', metrics\<lparr>mt_transitions_total := mt_transitions_total metrics + 1\<rparr>, None)"
    using assms(2,6,7) by (simp add: on_request_def handle_frame_def handle_transition_def decode_message_def
        make_transition_result_frame_def)
  then have net: "server_net lib ops env session eng metrics [] elapsed f = (True, map Item [?g], elapsed)"
    by (simp add: server_net_def)
  have f: "transition_frame_of cl (cs_next_request_id st) t = Inr f" using assms(4,5) by simp
  have "find (answers_to cl rid) [?g] = Some ?g"
    using assms(9) by (simp add: answers_to_def extract_request_id_def)
  moreover have "transition_response_of cl ?g = Inl (SdkInternal (''deserialize transition result: '' @ e))"
    using assms(8) e by (simp add: transition_response_of_def decode_message_def)
  ultimately show ?thesis
    using client_call_answered [where encode_request = "\<lambda>rid. transition_frame_of cl rid t" and cl = cl and
        read_answer = "transition_response_of cl" and net = "server_net lib ops env session eng metrics [] elapsed",
        OF assms(3) f net] assms(4) run
    by (simp add: transition_send_def)
qed

text \<open>A client whose deserialiser looks for the field, and reads back the server's payload.\<close>

definition demo_strict_client :: client_lib where
  "demo_strict_client = demo_client\<lparr>
     cl_result := (\<lambda>b. Inr \<lparr>re_request_id = 1, re_payload = transition_payload demo_lib demo_result\<rparr>),
     cl_request_id := (\<lambda>b. Some 1),
     cl_change_value := (\<lambda>v. case v of
        JObject entries \<Rightarrow>
          if list_ex (\<lambda>(k, _). k = ''from_state'') entries then Inr (demo_change 1) else Inl ''missing field''
      | _ \<Rightarrow> Inl ''invalid type'')\<rparr>"

definition demo_coin :: transition_builder where
  "demo_coin = set_idempotency_key ''k1'' (set_actor ''alice'' (client_transition ''gate'' ''turnstile'' ''coin''))"

definition demo_coin_lib :: codecs where
  "demo_coin_lib = demo_lib\<lparr>from_transition := (\<lambda>b. Inr \<lparr>tm_request_id = 1, tm_entity_id = ''gate'',
     tm_machine = ''turnstile'', tm_event = ''coin'', tm_expected_version = None, tm_idempotency_key = Some ''k1'',
     tm_ctx = JNull, tm_actor = ''alice''\<rparr>)\<rparr>"

theorem client_transition_unreadable_witness:
  "\<exists>e. fst (transition_send demo_strict_client (server_net demo_coin_lib demo_ops (demo_envs 1) demo_session demo_eng1
     demo_metrics [] False) demo_coin client_state_new) = Some (Inl (SdkInternal (''deserialize transition result: '' @ e)))"
proof -
  have strict: "\<forall>v cr. cl_change_value demo_strict_client v = Inr cr \<longrightarrow>
      (\<exists>fields. v = JObject fields \<and> ''from_state'' \<in> fst ` set fields)"
    by (force simp: demo_strict_client_def list_ex_iff split: json.splits if_splits)
  have coin: "tb_entity_id demo_coin = ''gate''" "tb_machine demo_coin = ''turnstile''" "tb_event demo_coin = ''coin''"
    "tb_actor demo_coin = ''alice''" "tb_ctx demo_coin = JNull" "tb_expected_version demo_coin = None"
    "tb_idempotency_key demo_coin = Some ''k1''"
    by (simp_all add: demo_coin_def set_idempotency_key_def set_actor_def client_transition_def)
  have first: "transition demo_ops (demo_envs 1) demo_eng1 (tb_entity_id demo_coin) (tb_machine demo_coin)
      (tb_event demo_coin) (tb_actor demo_coin) (tb_ctx demo_coin) (tb_expected_version demo_coin)
      (tb_idempotency_key demo_coin) = (Inr demo_result, demo_eng2)"
    unfolding coin by (rule demo_first)
  have frame: "transition_frame_of demo_strict_client 1 demo_coin = Inr \<lparr>fr_tag = Transition, fr_body = []\<rparr>"
    by (simp add: transition_frame_of_def demo_strict_client_def demo_client_def)
  have "\<not> cs_dead client_state_new" "cs_next_request_id client_state_new = 1" by (simp_all add: client_state_new_def)
  from client_transition_unreadable [where lib = demo_coin_lib and session = demo_session and metrics = demo_metrics
      and elapsed = False, OF strict first this frame] show ?thesis
    by (auto simp: coin demo_coin_lib_def demo_lib_def demo_strict_client_def transition_payload_def)
qed

text \<open>
  C18. The handshakes of client and server fit together: with a configured token the client's two
  frames bring the server into its request loop, and what the server writes lets the client
  connect, consuming exactly these answers; with any other token the server stays out of it
  and the client fails with \<open>AuthFailed\<close>. The engine is not touched. The serialisers are
  assumed to succeed on the messages of the handshake and to read back what they wrote.
\<close>

theorem client_server_handshake:
  assumes "\<not> cg_tls config"
    and "cl_startup cl m1 = Inr b1" and "from_startup lib b1 = Inr m1"
    and "m1 = \<lparr>su_protocol_version = PROTOCOL_VERSION, su_capabilities = [''subscribe'', ''history'']\<rparr>"
    and "cl_auth cl \<lparr>au_token = cg_token config\<rparr> = Inr b2"
    and "from_auth lib b2 = Inr \<lparr>au_token = cg_token config\<rparr>"
    and "to_error lib \<lparr>er_message = ''ok'', er_fatal = False\<rparr> = Inr b3"
    and "\<exists>b. to_ready lib \<lparr>rm_session_id = uuid env 0, rm_server_version = SERVER_VERSION,
      rm_protocol_version = PROTOCOL_VERSION,
      rm_capabilities = [''subscribe'', ''history'', ''define_machine'']\<rparr> = Inr b"
    and "to_error lib \<lparr>er_message = ''invalid token'', er_fatal = True\<rparr> = Inr b4"
    and "cl_error cl b4 = Inr \<lparr>er_message = ''invalid token'', er_fatal = True\<rparr>"
  shows "\<exists>f1 f2 c metrics'. startup_frame cl = Inr f1 \<and> auth_frame cl config = Inr f2 \<and>
    connection_run lib sconfig [(Item f1, ops, env, \<lambda>_. None, False), (Item f2, ops, env, \<lambda>_. None, False)]
      (fresh_conn, eng, metrics) = (c, eng, metrics') \<and>
    ((\<exists>session. cn_phase c = Serving session) \<longleftrightarrow> cg_token config \<in> set (sc_auth_tokens sconfig)) \<and>
    connect cl fmt config Connected (\<lambda>_. None) (map (\<lambda>f. Some (Item f)) (cn_sent c) @ rest) =
      (if cg_token config \<in> set (sc_auth_tokens sconfig) then Inr (client_state_new, rest)
       else Inl (AuthFailed ''invalid token''))"
proof -
  let ?f1 = "\<lparr>fr_tag = Startup, fr_body = b1\<rparr>" and ?f2 = "\<lparr>fr_tag = Auth, fr_body = b2\<rparr>"
  let ?in = "[(Item ?f1, ops, env, \<lambda>_. None, False), (Item ?f2, ops, env, \<lambda>_. None, False)]"
  have f1: "startup_frame cl = Inr ?f1" using assms(2,4) by (simp add: startup_frame_def)
  have f2: "auth_frame cl config = Inr ?f2" using assms(5) by (simp add: auth_frame_def)
  have s1: "on_startup lib (\<lambda>_. None) (Item ?f1) = (AwaitAuth (su_capabilities m1), [])"
    using assms(3,4) by (simp add: on_startup_def decode_message_def)
  have opens: "connect cl fmt config Connected (\<lambda>_. None) evs =
      rbind (await_ready cl False False evs) (\<lambda>rest. Inr (client_state_new, rest))" for evs
    using assms(1) f1 f2 by (simp add: connect_def send_frame_def)
  show ?thesis
  proof (cases "cg_token config \<in> set (sc_auth_tokens sconfig)")
    case True
    obtain b where "to_ready lib \<lparr>rm_session_id = uuid env 0, rm_server_version = SERVER_VERSION,
        rm_protocol_version = PROTOCOL_VERSION,
        rm_capabilities = [''subscribe'', ''history'', ''define_machine'']\<rparr> = Inr b"
      using assms(8) by blast
    then have s2: "on_auth lib sconfig env (\<lambda>_. None) cs (Item ?f2) =
        (Serving ((session_new (clock env 0) (uuid env 0))\<lparr>se_authenticated := True, se_capabilities := cs\<rparr>),
         [\<lparr>fr_tag = AuthOk, fr_body = b3\<rparr>, \<lparr>fr_tag = Ready, fr_body = b\<rparr>])" for cs
      using assms(6,7) True
      by (simp add: on_auth_def accept_session_def decode_message_def token_is_valid_iff Let_def)
    have "\<exists>c. connection_run lib sconfig ?in (fresh_conn, eng, metrics) = (c, eng, metrics) \<and>
        (\<exists>session. cn_phase c = Serving session) \<and>
        cn_sent c = [\<lparr>fr_tag = AuthOk, fr_body = b3\<rparr>, \<lparr>fr_tag = Ready, fr_body = b\<rparr>]"
      by (simp add: s1 s2 connection_step_def fresh_conn_def finish_def)
    then obtain c where run: "connection_run lib sconfig ?in (fresh_conn, eng, metrics) = (c, eng, metrics)"
      and c: "\<exists>session. cn_phase c = Serving session"
        "cn_sent c = [\<lparr>fr_tag = AuthOk, fr_body = b3\<rparr>, \<lparr>fr_tag = Ready, fr_body = b\<rparr>]" by blast
    moreover have "connect cl fmt config Connected (\<lambda>_. None) (map (\<lambda>f. Some (Item f)) (cn_sent c) @ rest) =
        Inr (client_state_new, rest)"
      by (cases rest) (simp_all add: c opens)
    ultimately show ?thesis using f1 f2 run c True
      by (intro exI [of _ ?f1] exI [of _ ?f2] exI [of _ c] exI [of _ metrics]) (simp del: connection_run.simps)
  next
    case False
    have s2: "on_auth lib sconfig env (\<lambda>_. None) cs (Item ?f2) =
        (Finished (Inl (WireAuth ''invalid auth token'')), [\<lparr>fr_tag = AuthError, fr_body = b4\<rparr>])" for cs
      using assms(6,9) False
      by (simp add: on_auth_def decode_message_def token_is_valid_iff send_ok_def)
    have "\<exists>c m'. connection_run lib sconfig ?in (fresh_conn, eng, metrics) = (c, eng, m') \<and>
        cn_phase c = Finished (Inl (WireAuth ''invalid auth token'')) \<and>
        cn_sent c = [\<lparr>fr_tag = AuthError, fr_body = b4\<rparr>]"
      by (simp add: s1 s2 connection_step_def fresh_conn_def finish_def)
    then obtain c metrics' where run: "connection_run lib sconfig ?in (fresh_conn, eng, metrics) = (c, eng, metrics')"
      and c: "cn_phase c = Finished (Inl (WireAuth ''invalid auth token''))"
        "cn_sent c = [\<lparr>fr_tag = AuthError, fr_body = b4\<rparr>]" by blast
    show ?thesis
      by (intro exI [of _ ?f1] exI [of _ ?f2] exI [of _ c] exI [of _ metrics'])
        (simp add: f1 f2 run c False opens assms(10) decode_message_def del: connection_run.simps)
  qed
qed

text \<open>A client and a server that agree on the handshake's messages.\<close>

definition demo_hello :: codecs where
  "demo_hello = demo_lib\<lparr>from_startup := (\<lambda>b. Inr \<lparr>su_protocol_version = PROTOCOL_VERSION,
     su_capabilities = [''subscribe'', ''history'']\<rparr>), from_auth := (\<lambda>b. Inr \<lparr>au_token = ''secret''\<rparr>)\<rparr>"

definition demo_dialler :: client_lib where
  "demo_dialler = demo_client\<lparr>cl_error := (\<lambda>b. Inr \<lparr>er_message = ''invalid token'', er_fatal = True\<rparr>)\<rparr>"

theorem client_server_handshake_witness:
  "\<exists>f1 f2 c metrics'. startup_frame demo_dialler = Inr f1 \<and>
    connection_run demo_hello demo_config
      [(Item f1, demo_ops, demo_envs 5, \<lambda>_. None, False), (Item f2, demo_ops, demo_envs 5, \<lambda>_. None, False)]
      (fresh_conn, demo_eng1, demo_metrics) = (c, demo_eng1, metrics') \<and>
    (\<exists>session. cn_phase c = Serving session) \<and>
    connect demo_dialler (\<lambda>_. ''5s'') (set_token ''secret'' (client_builder_new ''db:7632'')) Connected (\<lambda>_. None)
      (map (\<lambda>f. Some (Item f)) (cn_sent c) @ [None]) = Inr (client_state_new, [None])"
proof -
  let ?cfg = "set_token ''secret'' (client_builder_new ''db:7632'')"
  have cfg: "\<not> cg_tls ?cfg" "cg_token ?cfg = ''secret''"
    by (simp_all add: set_token_def client_builder_new_def client_config_default_def)
  have mem: "cg_token ?cfg \<in> set (sc_auth_tokens demo_config)" by (simp add: cfg demo_config_def)
  have "cl_startup demo_dialler \<lparr>su_protocol_version = PROTOCOL_VERSION,
        su_capabilities = [''subscribe'', ''history'']\<rparr> = Inr [0]"
    "cl_auth demo_dialler \<lparr>au_token = cg_token ?cfg\<rparr> = Inr (as_bytes ''secret'')"
    "from_startup demo_hello [0] = Inr \<lparr>su_protocol_version = PROTOCOL_VERSION,
        su_capabilities = [''subscribe'', ''history'']\<rparr>"
    "from_auth demo_hello (as_bytes ''secret'') = Inr \<lparr>au_token = cg_token ?cfg\<rparr>"
    "to_error demo_hello m = Inr (as_bytes (er_message m))" "\<exists>b. to_ready demo_hello r = Inr b"
    "cl_error demo_dialler b = Inr \<lparr>er_message = ''invalid token'', er_fatal = True\<rparr>" for m r b
    by (simp_all add: demo_dialler_def demo_client_def demo_hello_def demo_lib_def cfg)
  note facts = this
  from client_server_handshake [where sconfig = demo_config and ops = demo_ops and eng = demo_eng1
      and metrics = demo_metrics and fmt = "\<lambda>_. ''5s''" and rest = "[None]" and env = "demo_envs 5",
      OF cfg(1) facts(1,3) refl facts(2,4,5,6,5,7)]
  show ?thesis unfolding if_P [OF mem] using mem by blast
qed

section \<open>Subscriptions\<close>

text \<open>What a caller gets who asks for the next record several times.\<close>

fun next_results :: "nat \<Rightarrow> string \<Rightarrow> client_state \<Rightarrow> change_record option option list" where
  "next_results 0 sid st = []"
| "next_results (Suc n) sid st = (case subscription_next sid st of (r, st') \<Rightarrow> r # next_results n sid st')"

lemma next_results_channel:
  "cs_channels st sid = Some rs \<Longrightarrow>
   next_results (length rs + k) sid st = map (\<lambda>r. Some (Some r)) rs @ replicate k None"
proof (induction rs arbitrary: st)
  case Nil
  then show ?case by (induction k) (simp_all add: subscription_next_def)
next
  case (Cons r rs)
  then show ?case by (simp add: subscription_next_def)
qed

text \<open>
  C39. A subscription hands out its records once each and in order, and nothing else; but it
  does not end with the connection: when the server closes the connection, the reader drops
  the waiting requests and keeps the subscriptions' senders, so a caller who has read every
  record waits for ever and is never told that the stream is over.
\<close>

theorem subscription_outlives_connection:
  assumes "cs_channels st sid = Some ch"
    and "st' = reader cl (map Item frames @ [StreamEnd]) st"
  shows "cs_dead st' \<and> cs_pending st' = {} \<and>
    next_results (length (ch @ records_for cl sid frames) + k) sid st' =
      map (\<lambda>r. Some (Some r)) (ch @ records_for cl sid frames) @ replicate k None"
proof -
  have "reader cl (map Item frames @ [StreamEnd]) st = reader_end (reader cl (map Item frames) st)"
    by (induction frames arbitrary: st) simp_all
  with assms(2) have st': "st' = reader_end (reader cl (map Item frames) st)" by simp
  then have "cs_channels st' sid = Some (ch @ records_for cl sid frames)"
    using reader_channels [OF assms(1), of cl frames] by (simp add: reader_end_def)
  from next_results_channel [OF this, of k] st' show ?thesis by (simp add: reader_end_def)
qed

theorem subscription_outlives_connection_witness:
  "next_results 3 ''s1'' (reader demo_client (map Item [\<lparr>fr_tag = ChangeRecord, fr_body = [3]\<rparr>] @ [StreamEnd])
     demo_waiting) = [Some (Some (demo_change 3)), None, None]"
proof -
  have "records_for demo_client ''s1'' [\<lparr>fr_tag = ChangeRecord, fr_body = [3]\<rparr>] = [demo_change 3]"
    by (simp add: decode_message_def demo_client_def demo_from_slice_def)
  moreover have "cs_channels demo_waiting ''s1'' = Some []" by (simp add: demo_waiting_def client_state_new_def)
  ultimately show ?thesis
    using subscription_outlives_connection [OF _ refl, of demo_waiting "''s1''" "[]" demo_client
        "[\<lparr>fr_tag = ChangeRecord, fr_body = [3]\<rparr>]" 2]
    by (simp add: numeral_3_eq_3 numeral_2_eq_2 del: reader.simps next_results.simps records_for.simps)
qed

section \<open>Retries\<close>

lemma connect_loop_total:
  assumes "max_retries \<noteq> - 1" and "unat attempt \<le> Suc (unat max_retries)"
  shows "\<exists>r delays. connect_loop try_connect jitter max_retries attempt last_err = Some (r, delays) \<and>
    length delays \<le> unat max_retries - unat attempt \<and>
    (case r of
       Inr c \<Rightarrow> \<exists>a. attempt \<le> a \<and> a \<le> max_retries \<and> try_connect a = Inr c \<and> (\<forall>a'. attempt \<le> a' \<and> a' < a \<longrightarrow> isl (try_connect a'))
     | Inl e \<Rightarrow> (\<forall>a. attempt \<le> a \<and> a \<le> max_retries \<longrightarrow> isl (try_connect a)) \<and>
         (if attempt \<le> max_retries then try_connect max_retries = Inl e else e = last_err))"
  using assms(2)
proof (induction "Suc (unat max_retries) - unat attempt" arbitrary: attempt last_err)
  case 0
  then have "\<not> attempt \<le> max_retries" by (simp add: word_le_nat_alt)
  then show ?case by (subst connect_loop.simps) auto
next
  case (Suc k)
  then have le: "attempt \<le> max_retries" by (simp add: word_le_nat_alt)
  have "unat max_retries + 1 < 2 ^ 32"
  proof (rule ccontr)
    assume "\<not> unat max_retries + 1 < 2 ^ 32"
    moreover have "unat max_retries < 2 ^ 32" using unsigned_less [of max_retries] by simp
    ultimately have "unat max_retries = unat (- 1 :: u32)"
      by (simp add: unsigned_minus_1_eq_mask mask_eq_exp_minus_1)
    with assms(1) show False by (simp add: word_unat_eq_iff)
  qed
  with le have suc: "unat (attempt + 1) = Suc (unat attempt)"
    by (simp add: unat_plus_one word_le_nat_alt)
  have ext: "attempt \<le> a \<longleftrightarrow> a = attempt \<or> attempt + 1 \<le> a" for a
    using suc by (auto simp: word_le_nat_alt word_unat_eq_iff)
  show ?case
  proof (cases "try_connect attempt")
    case (Inr c)
    with le show ?thesis by (subst connect_loop.simps) (auto simp: not_less)
  next
    case (Inl e)
    have "k = Suc (unat max_retries) - unat (attempt + 1)" "unat (attempt + 1) \<le> Suc (unat max_retries)"
      using Suc(2) suc le by (simp_all add: word_le_nat_alt)
    from Suc(1) [OF this, of e] obtain r delays where
      rec: "connect_loop try_connect jitter max_retries (attempt + 1) e = Some (r, delays)"
        "length delays \<le> unat max_retries - unat (attempt + 1)"
      and r: "case r of
         Inr c \<Rightarrow> \<exists>a. attempt + 1 \<le> a \<and> a \<le> max_retries \<and> try_connect a = Inr c \<and>
           (\<forall>a'. attempt + 1 \<le> a' \<and> a' < a \<longrightarrow> isl (try_connect a'))
       | Inl e' \<Rightarrow> (\<forall>a. attempt + 1 \<le> a \<and> a \<le> max_retries \<longrightarrow> isl (try_connect a)) \<and>
           (if attempt + 1 \<le> max_retries then try_connect max_retries = Inl e' else e' = e)" by blast
    let ?d = "(if attempt < max_retries then [base_ms attempt + jitter attempt] else []) @ delays"
    have "connect_loop try_connect jitter max_retries attempt last_err = Some (r, ?d)"
      using le Inl rec(1) by (subst connect_loop.simps) simp
    moreover have "length ?d \<le> unat max_retries - unat attempt"
      using rec(2) suc by (auto simp: word_less_nat_alt)
    moreover have "case r of
       Inr c \<Rightarrow> \<exists>a. attempt \<le> a \<and> a \<le> max_retries \<and> try_connect a = Inr c \<and> (\<forall>a'. attempt \<le> a' \<and> a' < a \<longrightarrow> isl (try_connect a'))
     | Inl e \<Rightarrow> (\<forall>a. attempt \<le> a \<and> a \<le> max_retries \<longrightarrow> isl (try_connect a)) \<and>
         (if attempt \<le> max_retries then try_connect max_retries = Inl e else e = last_err)"
      using r Inl le ext [of max_retries] by (auto simp: ext split: sum.splits if_splits)
    ultimately show ?thesis by blast
  qed
qed

lemma connect_loop_returns:
  assumes "connect_loop try_connect jitter max_retries attempt last_err = Some y"
  shows "(\<forall>a. isl (try_connect a)) \<longrightarrow> max_retries \<noteq> - 1"
proof (rule connect_loop.raw_induct [OF _ assms, where P = "\<lambda>try_connect _ max_retries _ _ _.
    (\<forall>a. isl (try_connect a)) \<longrightarrow> max_retries \<noteq> - 1"])
  fix loop and try_connect :: "u32 \<Rightarrow> sdk_error + 'a" and jitter max_retries attempt last_err y
  assume IH: "\<And>try_connect jitter max_retries attempt last_err y.
      loop try_connect jitter max_retries attempt last_err = Some y \<Longrightarrow> (\<forall>a. isl (try_connect a)) \<longrightarrow> max_retries \<noteq> - 1"
    and body: "(if attempt \<le> max_retries
      then case try_connect attempt of
             Inl e \<Rightarrow> Option.bind (loop try_connect jitter max_retries (attempt + 1) e)
               (\<lambda>(r, delays). Some (r, (if attempt < max_retries then [base_ms attempt + jitter attempt] else []) @ delays))
           | Inr conn \<Rightarrow> Some (Inr conn, [])
      else Some (Inl last_err, [])) = Some y"
  show "(\<forall>a. isl (try_connect a)) \<longrightarrow> max_retries \<noteq> - 1"
  proof (intro impI notI)
    assume fails: "\<forall>a. isl (try_connect a)" and mx: "max_retries = - 1"
    obtain e where "try_connect attempt = Inl e" using fails by (meson isl_def)
    with body mx obtain y' where "loop try_connect jitter max_retries (attempt + 1) e = Some y'"
      by (auto simp: bind_eq_Some_conv)
    from IH [OF this] fails mx show False by blast
  qed
qed

lemma base_ms_bounds: "100 \<le> base_ms attempt \<and> base_ms attempt \<le> 6400"
proof -
  have "unat (min attempt 6) \<le> 6" by (simp add: min_def word_le_nat_alt)
  then have "unat (min attempt 6) \<in> {0, 1, 2, 3, 4, 5, 6}" by auto
  then show ?thesis by (auto simp: base_ms_def)
qed

text \<open>
  C26. Retries are bounded: unless \<open>max_retries\<close> is the largest 32-bit number, connecting
  returns, after at most \<open>max_retries + 1\<close> attempts and at most \<open>max_retries\<close> delays, with the
  connection of the first attempt that succeeds, or with the error of the last attempt when
  none does; the base delay starts at 100 ms and never exceeds 6400 ms. With the largest
  number the attempt counter wraps, and a client that cannot connect tries for ever.
\<close>

theorem connect_with_retry_bounded:
  "(cg_max_retries config \<noteq> - 1 \<longrightarrow>
     (\<exists>r delays. connect_with_retry try_connect jitter config = Some (r, delays) \<and>
        length delays \<le> unat (cg_max_retries config) \<and>
        (case r of
           Inr c \<Rightarrow> \<exists>a \<le> cg_max_retries config. try_connect a = Inr c \<and> (\<forall>a' < a. isl (try_connect a'))
         | Inl e \<Rightarrow> (\<forall>a \<le> cg_max_retries config. isl (try_connect a)) \<and>
             try_connect (cg_max_retries config) = Inl e))) \<and>
   (cg_max_retries config = - 1 \<and> (\<forall>a. isl (try_connect a)) \<longrightarrow> connect_with_retry try_connect jitter config = None) \<and>
   100 \<le> base_ms attempt \<and> base_ms attempt \<le> 6400"
proof (intro conjI impI)
  assume "cg_max_retries config \<noteq> - 1"
  from connect_loop_total [OF this, of 0 try_connect jitter "SdkInternal ''no attempts made''"]
  obtain r delays where run: "connect_with_retry try_connect jitter config = Some (r, delays)"
    "length delays \<le> unat (cg_max_retries config) - unat (0 :: u32)"
    and r: "case r of
       Inr c \<Rightarrow> \<exists>a. 0 \<le> a \<and> a \<le> cg_max_retries config \<and> try_connect a = Inr c \<and> (\<forall>a'. 0 \<le> a' \<and> a' < a \<longrightarrow> isl (try_connect a'))
     | Inl e \<Rightarrow> (\<forall>a. 0 \<le> a \<and> a \<le> cg_max_retries config \<longrightarrow> isl (try_connect a)) \<and>
         (if 0 \<le> cg_max_retries config then try_connect (cg_max_retries config) = Inl e
          else e = SdkInternal ''no attempts made'')"
    unfolding connect_with_retry_def by auto
  have "case r of
           Inr c \<Rightarrow> \<exists>a \<le> cg_max_retries config. try_connect a = Inr c \<and> (\<forall>a' < a. isl (try_connect a'))
         | Inl e \<Rightarrow> (\<forall>a \<le> cg_max_retries config. isl (try_connect a)) \<and>
             try_connect (cg_max_retries config) = Inl e"
    using r by (cases r) auto
  with run show "\<exists>r delays. connect_with_retry try_connect jitter config = Some (r, delays) \<and>
        length delays \<le> unat (cg_max_retries config) \<and>
        (case r of
           Inr c \<Rightarrow> \<exists>a \<le> cg_max_retries config. try_connect a = Inr c \<and> (\<forall>a' < a. isl (try_connect a'))
         | Inl e \<Rightarrow> (\<forall>a \<le> cg_max_retries config. isl (try_connect a)) \<and>
             try_connect (cg_max_retries config) = Inl e)"
    by (intro exI [of _ r] exI [of _ delays]) simp
next
  assume never: "cg_max_retries config = - 1 \<and> (\<forall>a. isl (try_connect a))"
  show "connect_with_retry try_connect jitter config = None"
  proof (cases "connect_with_retry try_connect jitter config")
    case (Some y)
    with connect_loop_returns [of try_connect jitter "cg_max_retries config" 0 _ y] never show ?thesis
      by (simp add: connect_with_retry_def)
  qed
next
  show "100 \<le> base_ms attempt" "base_ms attempt \<le> 6400" using base_ms_bounds [of attempt] by simp_all
qed

theorem connect_with_retry_bounded_witness:
  "\<exists>r delays. connect_with_retry (\<lambda>a. if a = 2 then Inr ''conn'' else Inl Timeout) (\<lambda>_. 0) client_config_default =
     Some (r, delays) \<and> length delays \<le> 3"
proof -
  have mx: "cg_max_retries client_config_default = 3" by (simp add: client_config_default_def)
  have "cg_max_retries client_config_default \<noteq> - 1" unfolding mx by simp
  with connect_with_retry_bounded [of client_config_default "\<lambda>a. if a = 2 then Inr ''conn'' else Inl Timeout" "\<lambda>_. 0" 0]
  obtain r delays where
    "connect_with_retry (\<lambda>a. if a = 2 then Inr ''conn'' else Inl Timeout) (\<lambda>_. 0) client_config_default = Some (r, delays)"
    "length delays \<le> unat (cg_max_retries client_config_default)"
    by blast
  with mx show ?thesis by auto
qed

end
