(* ===== verification/Client_Stream.thy ===== *)
theory Client_Stream
  imports Client_Props
begin

text \<open>
  The change stream from the log to the subscriber's code: the client's \<open>subscribe\<close>
  (\<open>crates/smdb-sdk/src/client.rs\<close>), the server's \<open>handle_subscribe\<close> and \<open>forward_subscription\<close>
  (\<open>crates/smdb-wire/src/server.rs\<close>), the engine's \<open>dispatch_pass\<close>, the client's reader and
  \<open>Subscription::next\<close>, composed.
\<close>

section \<open>Subscribing\<close>

text \<open>The serialisers agree on the two messages of a subscription that is accepted.\<close>

definition subscribe_codecs ::
  "codecs \<Rightarrow> client_lib \<Rightarrow> u64 \<Rightarrow> string \<Rightarrow> string option \<Rightarrow> u64 \<Rightarrow> bool" where
  "subscribe_codecs lib cl rid sid flt after \<longleftrightarrow>
     (\<exists>b b'. cl_subscribe cl \<lparr>sm_request_id = rid, sm_subscription_id = sid, sm_machine_filter = flt,
          sm_after_sequence = after\<rparr> = Inr b \<and>
        from_subscribe lib b = Inr \<lparr>sm_request_id = rid, sm_subscription_id = sid, sm_machine_filter = flt,
          sm_after_sequence = after\<rparr> \<and>
        to_result lib \<lparr>re_request_id = rid, re_payload = JObject [(''subscription_id'', JString sid), (''ok'', JBool True)]\<rparr> =
          Inr b' \<and>
        cl_request_id cl b' = Some rid)"

lemma subscribe_call_served:
  assumes "\<not> cs_dead st" and "cs_next_request_id st = rid" and "subscribe_codecs lib cl rid sid flt after"
  obtains f st' session' out where
    "subscribe_call cl (server_net lib ops env session eng metrics [] elapsed) sid flt after st = (Some (Inr sid), st')"
    "cs_channels st' sid = Some []"
    "on_request lib ops env (\<lambda>_. None) False session eng metrics (Item f) =
       (Serving session', out, subscribe eng sid flt after, metrics, Some sid)"
    "fst (subscribe_begin cl rid sid flt after st) = Inr f"
proof -
  obtain b b' where
    b: "cl_subscribe cl \<lparr>sm_request_id = rid, sm_subscription_id = sid, sm_machine_filter = flt,
          sm_after_sequence = after\<rparr> = Inr b"
      "from_subscribe lib b = Inr \<lparr>sm_request_id = rid, sm_subscription_id = sid, sm_machine_filter = flt,
          sm_after_sequence = after\<rparr>"
    and b': "to_result lib \<lparr>re_request_id = rid, re_payload = JObject [(''subscription_id'', JString sid),
          (''ok'', JBool True)]\<rparr> = Inr b'" "cl_request_id cl b' = Some rid"
    using assms(3) by (auto simp: subscribe_codecs_def)
  let ?f = "\<lparr>fr_tag = Subscribe, fr_body = b\<rparr>" and ?g = "\<lparr>fr_tag = Result, fr_body = b'\<rparr>"
  let ?session = "session\<lparr>se_subscriptions := removeAll sid (se_subscriptions session)\<rparr>"
  have run: "on_request lib ops env (\<lambda>_. None) False session eng metrics (Item ?f) =
      (Serving ?session, [?g], subscribe eng sid flt after, metrics, Some sid)"
    using b b' by (simp add: on_request_def handle_subscribe_def decode_message_def respond_def Let_def)
  then have net: "server_net lib ops env session eng metrics [] elapsed ?f = (True, map Item [?g], elapsed)"
    by (simp add: server_net_def)
  define st2 where "st2 = st\<lparr>cs_next_request_id := rid + 1, cs_channels := (cs_channels st)(sid \<mapsto> [])\<rparr>"
  define st3 where "st3 = reader cl (map Item [?g]) (st2\<lparr>cs_pending := insert rid (cs_pending st2),
      cs_answers := (cs_answers st2)(rid := None)\<rparr>)"
  have begins: "subscribe_begin cl rid sid flt after (snd (next_request_id st)) = (Inr ?f, st2)"
    using assms(2) b by (simp add: subscribe_begin_def next_request_id_def st2_def)
  have "find (answers_to cl rid) [?g] = Some ?g"
    using b' by (simp add: answers_to_def extract_request_id_def)
  then have sends: "send_request cl (server_net lib ops env session eng metrics [] elapsed) Subscribe b rid st2 =
      (Some (Inr ?g), st3)"
    using send_request_answered [where cl = cl and rid = rid and
        net = "server_net lib ops env session eng metrics [] elapsed", OF _ net, of st2] assms(1)
    by (simp add: st2_def st3_def)
  have "cs_channels st3 sid = Some []"
    using reader_channels [of _ sid "[]" cl "[?g]"] by (simp add: st3_def st2_def split: sum.split)
  moreover have "subscribe_call cl (server_net lib ops env session eng metrics [] elapsed) sid flt after st =
      (Some (Inr sid), st3)"
    using begins sends assms(2)
    by (simp add: subscribe_call_def next_request_id_def subscribe_response_def)
  moreover have "fst (subscribe_begin cl rid sid flt after st) = Inr ?f" using b by (simp add: subscribe_begin_def)
  ultimately show ?thesis using that run by blast
qed

section \<open>Forwarding and receiving\<close>

definition carries :: "client_lib \<Rightarrow> string \<Rightarrow> frame \<Rightarrow> bool" where
  "carries cl sid f \<longleftrightarrow> records_for cl sid [f] \<noteq> []"

lemma records_for_carried: "records_for cl sid (filter (carries cl sid) fs) = records_for cl sid fs"
  by (induction fs) (auto simp: carries_def split: sum.splits if_splits)

text \<open>The serialisers agree on a record sent under a subscription's identifier.\<close>

definition record_codecs :: "codecs \<Rightarrow> client_lib \<Rightarrow> string \<Rightarrow> change_record \<Rightarrow> bool" where
  "record_codecs lib cl sid r \<longleftrightarrow>
     (\<exists>b. to_change_record lib \<lparr>cr_subscription_id = sid, cr_record = r\<rparr> = Inr b \<and>
        cl_change_record cl b = Inr \<lparr>cr_subscription_id = sid, cr_record = r\<rparr>)"

lemma records_for_forward:
  "\<forall>r \<in> set rs. record_codecs lib cl sid r \<Longrightarrow>
   records_for cl sid (forward_subscription lib (\<lambda>_. None) i sid rs) = rs"
  by (induction rs arbitrary: i) (auto simp: record_codecs_def decode_message_def)

section \<open>A new subscriber\<close>

lemma new_subscriber_served:
  assumes "codec_ok cd" and "good_supply envs" and "Suc (Suc n) < 2 ^ 64"
    and "engine_run (\<lambda>i. redb_storage cd (flts i)) envs (engine_new empty_db) n eng"
    and "\<forall>sub \<in> set (en_subscribers eng). sb_delivered_through sub \<noteq> - 1 \<and> sb_id sub \<noteq> sid"
    and "after \<noteq> - 1"
  obtains st chg k eng' sub where "represents cd (en_storage eng) st" "\<forall>r \<in> set (st_log st). is_change st r (chg r)"
    "dispatch_pass (redb_storage cd no_fault) (subscribe eng sid flt after) = Some (k, eng')"
    "filter (\<lambda>sub. sb_id sub = sid) (en_subscribers eng') = [sub]"
    "sb_queue sub = map chg (filter (passes_filter flt) (log_after st after))"
proof -
  let ?eng = "subscribe eng sid flt after"
  let ?new = "\<lparr>sb_id = sid, sb_machine_filter = flt, sb_queue = [], sb_open = True, sb_delivered_through = after\<rparr>"
  have subs: "en_subscribers ?eng = en_subscribers eng @ [?new]" "en_storage ?eng = en_storage eng"
    by (simp_all add: subscribe_def)
  have "\<forall>sub \<in> set (en_subscribers ?eng). sb_delivered_through sub \<noteq> - 1" using assms(5,6) by (auto simp: subs)
  from dispatch_pass_sent [OF assms(1,2,3) run_subscribe [OF assms(4)] this] obtain st chg where
    st: "represents cd (en_storage eng) st" "\<forall>r \<in> set (st_log st). is_change st r (chg r)"
    and pass: "dispatch_pass (redb_storage cd no_fault) ?eng =
      Some (sum_list (map (\<lambda>sub. length (sent st chg sub)) (en_subscribers ?eng)),
        ?eng\<lparr>en_subscribers := map (\<lambda>sub. sub\<lparr>sb_queue := sb_queue sub @ sent st chg sub,
                 sb_delivered_through := last_seq (sb_delivered_through sub) (log_after st (sb_delivered_through sub))\<rparr>)
            (filter (\<lambda>sub. sb_id sub \<notin> set (lost_ids st (en_subscribers ?eng))) (en_subscribers ?eng))\<rparr>)"
    unfolding subs(2) by blast
  have "sid \<notin> set (lost_ids st (en_subscribers ?eng))"
    using assms(5) by (auto simp: lost_ids_def lost_def subs)
  moreover have "filter (\<lambda>sub. sb_id sub = sid) (filter P (en_subscribers eng)) = []" for P
    using assms(5) by (auto simp: filter_empty_conv)
  ultimately show ?thesis
    by (intro that [OF st pass, of "?new\<lparr>sb_queue := sent st chg ?new,
          sb_delivered_through := last_seq after (log_after st after)\<rparr>"])
      (simp_all add: subs filter_map o_def sent_def owed_def)
qed

section \<open>From the log to the caller\<close>

text \<open>
  C12. The change stream end to end. On any state the engine reaches, a client with a live
  connection calls \<open>subscribe\<close> with a machine filter and a sequence number to start after; the
  call returns the subscription. The next pass of the dispatcher returns, and the new
  subscriber's channel then holds exactly the change records of the logged transitions after that
  number that pass the filter, in log order, each with the effects stored for it. The server's
  task writes them as frames; and whatever other frames the client receives in between, the
  caller's calls of \<open>next\<close> yield exactly these records, in order and each once, and then wait. The
  identifier is a new UUID; the serialisers are assumed to read back the messages that cross
  the wire.
\<close>

theorem change_stream_end_to_end:
  assumes "codec_ok cd" and "good_supply envs" and "Suc (Suc n) < 2 ^ 64"
    and "engine_run (\<lambda>i. redb_storage cd (flts i)) envs (engine_new empty_db) n eng"
    and "\<forall>sub \<in> set (en_subscribers eng). sb_delivered_through sub \<noteq> - 1 \<and> sb_id sub \<noteq> sid"
    and "after \<noteq> - 1"
    and "\<not> cs_dead st" and "cs_next_request_id st = rid" and "subscribe_codecs lib cl rid sid flt after"
  shows "\<exists>f st' session' out db chg k eng' sub records.
    fst (subscribe_begin cl rid sid flt after st) = Inr f \<and>
    on_request lib ops env (\<lambda>_. None) False session eng metrics (Item f) =
      (Serving session', out, subscribe eng sid flt after, metrics, Some sid) \<and>
    subscribe_call cl (server_net lib ops env session eng metrics [] elapsed) sid flt after st = (Some (Inr sid), st') \<and>
    represents cd (en_storage eng) db \<and> (\<forall>r \<in> set (st_log db). is_change db r (chg r)) \<and>
    records = map chg (filter (passes_filter flt) (log_after db after)) \<and>
    dispatch_pass (redb_storage cd no_fault) (subscribe eng sid flt after) = Some (k, eng') \<and>
    filter (\<lambda>sub. sb_id sub = sid) (en_subscribers eng') = [sub] \<and> sb_queue sub = records \<and>
    ((\<forall>r \<in> set records. record_codecs lib cl sid r) \<longrightarrow>
      (\<forall>frames j. filter (carries cl sid) frames = forward_subscription lib (\<lambda>_. None) 0 sid (sb_queue sub) \<longrightarrow>
        next_results (length records + j) sid (reader cl (map Item frames) st') =
          map (\<lambda>r. Some (Some r)) records @ replicate j None))"
proof -
  obtain f st' session' out where call:
    "subscribe_call cl (server_net lib ops env session eng metrics [] elapsed) sid flt after st = (Some (Inr sid), st')"
    "cs_channels st' sid = Some []"
    "on_request lib ops env (\<lambda>_. None) False session eng metrics (Item f) =
       (Serving session', out, subscribe eng sid flt after, metrics, Some sid)"
    "fst (subscribe_begin cl rid sid flt after st) = Inr f"
    by (rule subscribe_call_served [OF assms(7-9)])
  obtain db chg k eng' sub where db: "represents cd (en_storage eng) db" "\<forall>r \<in> set (st_log db). is_change db r (chg r)"
    and pass: "dispatch_pass (redb_storage cd no_fault) (subscribe eng sid flt after) = Some (k, eng')"
    "filter (\<lambda>sub. sb_id sub = sid) (en_subscribers eng') = [sub]"
    "sb_queue sub = map chg (filter (passes_filter flt) (log_after db after))"
    by (rule new_subscriber_served [OF assms(1-6)])
  let ?records = "map chg (filter (passes_filter flt) (log_after db after))"
  have "next_results (length ?records + j) sid (reader cl (map Item frames) st') =
      map (\<lambda>r. Some (Some r)) ?records @ replicate j None"
    if "\<forall>r \<in> set ?records. record_codecs lib cl sid r"
      "filter (carries cl sid) frames = forward_subscription lib (\<lambda>_. None) 0 sid ?records" for frames j
  proof (rule next_results_channel)
    have "records_for cl sid frames = ?records"
      using records_for_forward [OF that(1)] records_for_carried [of cl sid frames] that(2) by metis
    with reader_channels [OF call(2), of cl frames] show "cs_channels (reader cl (map Item frames) st') sid = Some ?records"
      by simp
  qed
  with call db pass show ?thesis
    by (intro exI [of _ f] exI [of _ st'] exI [of _ session'] exI [of _ out] exI [of _ db] exI [of _ chg]
        exI [of _ k] exI [of _ eng'] exI [of _ sub] exI [of _ ?records] conjI impI allI) simp_all
qed

text \<open>The example database has one logged transition; its record is sent as the body \<open>[3]\<close>.\<close>

lemma demo_eng2_log:
  assumes "represents blob_codec (en_storage demo_eng2) st"
  shows "length (log_after st 0) = 1"
proof -
  obtain st1 where st1: "represents blob_codec (en_storage demo_eng2) st1" "length (log_after st1 0) = 1"
    by (rule demo_eng2_store)
  have "take (unat (256 :: u32)) (log_after st 0) = take (unat (256 :: u32)) (log_after st1 0)"
    using get_transitions_after_rep [OF assms, of 0 256] get_transitions_after_rep [OF st1(1), of 0 256] by simp
  then have "length (take (unat (256 :: u32)) (log_after st 0)) = length (take (unat (256 :: u32)) (log_after st1 0))"
    by simp
  with st1(2) show ?thesis by (simp add: min_def split: if_splits)
qed

definition demo_subscriber :: "change_record \<Rightarrow> client_lib" where
  "demo_subscriber r = demo_client\<lparr>cl_request_id := (\<lambda>b. Some 10),
     cl_change_record := (\<lambda>b. Inr \<lparr>cr_subscription_id = ''s1'', cr_record = r\<rparr>)\<rparr>"

definition demo_ready10 :: client_state where
  "demo_ready10 = client_state_new\<lparr>cs_next_request_id := 10\<rparr>"

theorem change_stream_end_to_end_witness:
  "\<exists>r st'. subscribe_call (demo_subscriber r)
       (server_net demo_lib demo_ops (demo_envs 5) demo_session demo_eng2 demo_metrics [] False) ''s1'' None 0 demo_ready10 =
       (Some (Inr ''s1''), st') \<and>
     next_results 2 ''s1'' (reader (demo_subscriber r)
       (map Item [\<lparr>fr_tag = Pong, fr_body = []\<rparr>, \<lparr>fr_tag = ChangeRecord, fr_body = [3]\<rparr>]) st') = [Some (Some r), None]"
proof -
  have n: "Suc (Suc 2) < 2 ^ 64" and subs: "\<forall>sub \<in> set (en_subscribers demo_eng2).
      sb_delivered_through sub \<noteq> - 1 \<and> sb_id sub \<noteq> ''s1''" and zero: "(0 :: sequence) \<noteq> - 1"
    by (simp_all add: demo_eng2_fields)
  note demo = blob_codec_ok demo_envs_good n demo_run2 subs zero
  obtain st chg k eng' sub where d: "represents blob_codec (en_storage demo_eng2) st"
    "dispatch_pass demo_ops (subscribe demo_eng2 ''s1'' None 0) = Some (k, eng')"
    "filter (\<lambda>sub. sb_id sub = ''s1'') (en_subscribers eng') = [sub]"
    "sb_queue sub = map chg (filter (passes_filter None) (log_after st 0))"
    by (rule new_subscriber_served [OF demo])
  have "length (sb_queue sub) = 1"
    using demo_eng2_log [OF d(1)] d(4) by (simp add: passes_filter_def)
  then obtain r where r: "sb_queue sub = [r]" by (auto simp: length_Suc_conv)
  have ready: "\<not> cs_dead demo_ready10" "cs_next_request_id demo_ready10 = 10"
    "subscribe_codecs demo_lib (demo_subscriber r) 10 ''s1'' None 0" "record_codecs demo_lib (demo_subscriber r) ''s1'' r"
    by (simp_all add: demo_ready10_def client_state_new_def subscribe_codecs_def record_codecs_def demo_subscriber_def
        demo_client_def demo_lib_def)
  let ?frames = "[\<lparr>fr_tag = Pong, fr_body = []\<rparr>, \<lparr>fr_tag = ChangeRecord, fr_body = [3]\<rparr>]"
  have frames: "filter (carries (demo_subscriber r) ''s1'') ?frames = forward_subscription demo_lib (\<lambda>_. None) 0 ''s1'' [r]"
    by (simp add: carries_def decode_message_def demo_subscriber_def demo_client_def demo_lib_def)
  obtain st' records k2 eng2 sub2 where call: "subscribe_call (demo_subscriber r)
       (server_net demo_lib demo_ops (demo_envs 5) demo_session demo_eng2 demo_metrics [] False) ''s1'' None 0 demo_ready10 =
       (Some (Inr ''s1''), st')"
    and d2: "dispatch_pass demo_ops (subscribe demo_eng2 ''s1'' None 0) = Some (k2, eng2)"
      "filter (\<lambda>sub. sb_id sub = ''s1'') (en_subscribers eng2) = [sub2]" "sb_queue sub2 = records"
    and recv: "(\<forall>ra \<in> set records. record_codecs demo_lib (demo_subscriber r) ''s1'' ra) \<longrightarrow>
      (\<forall>frames j. filter (carries (demo_subscriber r) ''s1'') frames =
          forward_subscription demo_lib (\<lambda>_. None) 0 ''s1'' (sb_queue sub2) \<longrightarrow>
        next_results (length records + j) ''s1'' (reader (demo_subscriber r) (map Item frames) st') =
          map (\<lambda>r. Some (Some r)) records @ replicate j None)"
    using change_stream_end_to_end [OF demo ready(1-3), of demo_ops "demo_envs 5" demo_session demo_metrics False]
    by (elim exE conjE) (rule that; assumption)
  have "sb_queue sub2 = [r]" using d(2,3) d2(1,2) r by simp
  with recv d2(3) ready(4) frames
  have "next_results (Suc 0 + 1) ''s1'' (reader (demo_subscriber r) (map Item ?frames) st') =
      map (\<lambda>r. Some (Some r)) [r] @ replicate 1 None"
    by (metis (no_types, lifting) One_nat_def empty_iff empty_set length_Cons list.size(3) set_ConsD)
  with call show ?thesis by (intro exI [of _ r] exI [of _ st']) (simp add: numeral_2_eq_2)
qed

end
