(* ===== verification/Spec2Isabelle.thy ===== *)
theory Spec2Isabelle
  imports Concurrency Delivery Daemon_Props Client_Stream
begin

text \<open>
  Verification of statemaster, a database of state machines written in Rust.

  \<^bold>\<open>The program.\<close> A user defines machines (states, and rules that say which event leads from which
  states to which). Entities run through these machines: a transition is checked against the
  rule, its guards and an expected version, and committed together with its effects in one
  write transaction. The log of transitions is the source of truth, the current state
  of an entity is a projection of it. A dispatcher delivers the log to subscribers, at least
  once and in order, and drains the outbox of effects. The program is a workspace of crates
  under \<open>src/crates\<close>: the core (\<open>smdb-core\<close>), the storage on the embedded database \<open>redb\<close>
  (\<open>smdb-storage\<close>), the engine (\<open>smdb-engine\<close>), the protocol (\<open>smdb-proto\<close>), the server
  (\<open>smdb-wire\<close>), the client library (\<open>smdb-sdk\<close>), and three programs: the daemon (\<open>smdbd\<close>), the
  shell (\<open>smash\<close>) and the administration tool (\<open>smdbctl\<close>).

  \<^bold>\<open>Conventions.\<close> Theory \<open>Prelude\<close> holds what all share. A struct is a record whose fields carry a
  short prefix, an enum a datatype; \<open>u64\<close> and \<open>u32\<close> are words, so that \<open>+\<close> wraps as in a release
  build; \<open>Result\<close> is a sum with the error on the left and \<open>?\<close> is \<open>rbind\<close>. Stateful code returns
  its new state. What a call draws from the clock and the UUID generator is its argument \<open>env\<close>.
  Code outside the repository is a parameter: the serialisers (\<open>cd\<close>, \<open>codecs\<close>, \<open>client_lib\<close>), \<open>redb\<close>
  (ordered tables, and an argument \<open>flt\<close> that decides which of its calls fail), the operating system
  (\<open>host\<close>), TLS (\<open>tls_lib\<close>), the readers and formatters of the shell (\<open>shell_lib\<close>). What is assumed of
  them is named in the theorems: \<open>codec_ok\<close> (a stored value is read back), \<open>good_supply\<close> (UUIDs are
  distinct and NUL-free), and the read-back of single messages.

  \<^bold>\<open>Core.\<close> \<open>Core_Types\<close> has the data of \<open>smdb-core\<close>; \<open>Machine\<close> the definitions, their builder and
  \<open>validate\<close>, with the equivalence to \<open>well_formed\<close>; \<open>Planner\<close> the planner \<open>FsmPlanner\<close> and the
  determinism of rule selection.

  \<^bold>\<open>Storage.\<close> \<open>Redb\<close> is the interface of the database library, the locale \<open>ordered_table\<close>, interpreted
  on association lists. \<open>Storage_Interface\<close> is the trait \<open>StorageEngine\<close>: its methods as a
  record, the abstract store, and the contracts as locales, \<open>atomic_storage\<close> (a failed write changes
  nothing), \<open>safe_storage\<close> (what succeeds has done what is documented) and \<open>storage_contract\<close>
  (nothing fails). \<open>Storage\<close> is \<open>RedbEngine\<close> with its nine tables (\<open>redb_engine.rs\<close>), \<open>Storage_Spec\<close>
  the relation \<open>represents\<close> between tables and abstract store, \<open>Storage_Refine\<close> the proof that
  every method implements its abstract counterpart, and the interpretations of the three locales.
  \<open>Storage_Props\<close> has the properties: atomicity, refinement, read-back, paging, and the exact
  behaviour where code and documentation differ.

  \<^bold>\<open>Engine.\<close> \<open>Engine\<close> is \<open>engine.rs\<close> and \<open>guard.rs\<close>, \<open>Dispatch\<close> the delivery (\<open>dispatch_pass\<close> and
  \<open>dispatcher.rs\<close>). \<open>Engine_Spec\<close> proves inside the locale \<open>safe_storage\<close> that every operation keeps
  the invariant \<open>consistent\<close>; \<open>Engine_Total\<close> and \<open>Dispatch_Total\<close> prove inside \<open>storage_contract\<close>
  what \<open>transition\<close> returns on every branch, and that the dispatcher returns and delivers exactly
  what each subscriber is owed. \<open>Database\<close> puts engine and storage together: \<open>engine_run\<close> is the
  step relation of arbitrary calls with arbitrary failures and restarts, and its properties rest
  on the interpretations. \<open>Concurrency\<close> cuts \<open>transition\<close> into its steps around the entity lock and
  interleaves any number of calls (\<open>world_run\<close>): the lock stripes keep what a call has prepared valid, so
  that every interleaving is consistent and well typed; and no call waits for ever. \<open>Delivery\<close> follows one
  subscriber through any run: what it is sent is the log, without gaps, repetitions or exchanges.

  \<^bold>\<open>Protocol and server.\<close> \<open>Frame\<close> is the frame codec on byte buffers with its round trips and the
  independence of how a stream is cut into reads; \<open>Messages\<close> the message types. \<open>Server\<close> is
  \<open>server.rs\<close>: a connection is a state machine over the items of its stream, one function per phase,
  and the accept loop (\<open>serve_with_shutdown\<close>) is a function of what its \<open>select\<close> yields. \<open>Server_Run\<close>
  interleaves connections, accept loop, dispatcher and host; each of its steps is one engine call.
  \<open>Server_Props\<close>: access only with a token, one answer per request, the answers to transitions, the
  connection limit, what a disconnect leaves behind.

  \<^bold>\<open>Client, daemon and tools.\<close> \<open>Client\<close> is \<open>smdb-sdk\<close>: handshake, reader, \<open>send_request\<close>, the calls of the
  public interface, subscriptions, retries; what the network does is a parameter of a call.
  \<open>Client_Props\<close> puts the server at the other end of that network, and \<open>Client_Stream\<close> follows
  the change stream from the log through dispatcher, server and client to the caller. \<open>Daemon\<close> is \<open>smdbd\<close> with
  the TLS set-up of the server, and \<open>Daemon_Run\<close> its tasks side by side with the shutdown sequence of \<open>main\<close>.
  \<open>Shell\<close> and \<open>Shell_Main\<close> are \<open>smash\<close>, \<open>Ctl\<close> is \<open>smdbctl\<close>. \<open>Shell_Props\<close> shows that the parser inverts
  printing and that a session is a run of the engine; \<open>Daemon_Props\<close> that a resolved configuration
  is usable, that a started daemon keeps its database consistent whatever its clients do, that its
  shutdown loses nothing and ends, that a run of the shell keeps the database consistent, and that
  the administration tool reports truthfully.

  \<^bold>\<open>Bounds.\<close> Runs have fewer than \<open>2 ^ 64 - 1\<close> steps (or concurrent calls), so that sequence numbers and versions, which the code
  increments without a check, do not wrap. No recursion uses fuel: two loops that may not end
  (\<open>drain\<close>, the delivery loop of a subscriber, and \<open>connect_loop\<close>) are partial functions with values in
  \<open>option\<close>, and it is proved when they return. Entity and machine names are assumed to be
  NUL-free where keys must not collide; \<open>nul_names_collide\<close> shows what happens otherwise.
  The shell works on ASCII lines.

  \<^bold>\<open>Not modelled.\<close> The serialisation formats themselves; sockets, timers, and the scheduling of tasks
  below the granularity of the steps above (a pass of the dispatcher is one step); the HTTP
  server of the metrics endpoint (\<open>hyper\<close>) around \<open>handle_health\<close>; logging; line editing and history of the shell's terminal;
  the argument parsers (\<open>clap\<close>); the empty crate \<open>smdb-wal\<close>; tests. They are input and output, code of
  libraries, or code without effect.
\<close>

end
